(* ===== verification/Prelude.thy ===== *)
theory Prelude
  imports Main "HOL-Library.Word"
begin

text \<open>
  Shared vocabulary of the development: the machine types the Rust sources use, the
  arithmetic of the standard library on 64-bit \<^verbatim>\<open>usize\<close> values, little-endian byte
  strings, UTF-8 validity, ordered maps in the shape of \<^verbatim>\<open>BTreeMap\<close>, the
  error-and-state monad in which the stateful code is written, and the two interfaces the
  components are proved against: byte codecs that hand back the unread input, and
  transition systems with an inductive invariant.
\<close>

unbundle bit_operations_syntax

named_theorems preserve_rules \<open>operations keep an invariant of the state\<close>
named_theorems codec_simps \<open>reading back what an encoder wrote\<close>

section \<open>Machine integers\<close>

type_synonym u8 = "8 word"
type_synonym u16 = "16 word"
type_synonym u32 = "32 word"
type_synonym u64 = "64 word"
type_synonym i32 = "32 word"

text \<open>Lengths and counters are natural numbers with the bound of a 64-bit \<^verbatim>\<open>usize\<close> written out.\<close>

definition usize_max :: nat where
  "usize_max = 2 ^ 64 - 1"

definition u32_max :: nat where
  "u32_max = 2 ^ 32 - 1"

definition saturating_add :: "nat \<Rightarrow> nat \<Rightarrow> nat" where
  "saturating_add a b = min (a + b) usize_max"

definition saturating_sub :: "nat \<Rightarrow> nat \<Rightarrow> nat" where
  "saturating_sub a b = a - b"

definition checked_add :: "nat \<Rightarrow> nat \<Rightarrow> nat option" where
  "checked_add a b = (if a + b \<le> usize_max then Some (a + b) else None)"

definition checked_mul :: "nat \<Rightarrow> nat \<Rightarrow> nat option" where
  "checked_mul a b = (if a * b \<le> usize_max then Some (a * b) else None)"

definition checked_add_u32 :: "nat \<Rightarrow> nat \<Rightarrow> nat option" where
  "checked_add_u32 a b = (if a + b \<le> u32_max then Some (a + b) else None)"

lemma saturating_add_le_iff:
  "m < usize_max \<Longrightarrow> saturating_add a b \<le> m \<longleftrightarrow> a + b \<le> m"
  by (auto simp: saturating_add_def min_def)

lemma saturating_add_exact [simp]:
  "a + b \<le> usize_max \<Longrightarrow> saturating_add a b = a + b"
  by (simp add: saturating_add_def)

lemma saturating_add_mono: "a \<le> a' \<Longrightarrow> b \<le> b' \<Longrightarrow> saturating_add a b \<le> saturating_add a' b'"
  by (auto simp: saturating_add_def)

lemma saturating_add_commute: "saturating_add a b = saturating_add b a"
  by (simp add: saturating_add_def add.commute)

lemma saturating_add_assoc:
  "saturating_add (saturating_add a b) c = saturating_add a (saturating_add b c)"
  by (simp add: saturating_add_def min_def)

lemma saturating_sub_simps [simp]: "saturating_sub a b = a - b"
  by (simp add: saturating_sub_def)

lemma checked_add_Some [simp]:
  "checked_add a b = Some c \<longleftrightarrow> c = a + b \<and> a + b \<le> usize_max"
  by (auto simp: checked_add_def)

lemma checked_add_None [simp]: "checked_add a b = None \<longleftrightarrow> usize_max < a + b"
  by (auto simp: checked_add_def)

text \<open>A bound both the frames and the hub check.\<close>

definition MAX_WEBVIEW_URL_BYTES :: nat where
  "MAX_WEBVIEW_URL_BYTES = 16 * 1024"

section \<open>Little-endian byte strings\<close>

primrec to_le_bytes :: "nat \<Rightarrow> 'a::len word \<Rightarrow> u8 list" where
  "to_le_bytes 0 w = []"
| "to_le_bytes (Suc n) w = ucast w # to_le_bytes n (drop_bit 8 w)"

primrec from_le_bytes :: "u8 list \<Rightarrow> 'a::len word" where
  "from_le_bytes [] = 0"
| "from_le_bytes (b # bs) = ucast b OR push_bit 8 (from_le_bytes bs)"

lemma length_to_le_bytes [simp]: "length (to_le_bytes n w) = n"
  by (induction n arbitrary: w) auto

lemma from_to_le_bytes_take:
  "from_le_bytes (to_le_bytes n w) = take_bit (8 * n) (w :: 'a::len word)"
proof (induction n arbitrary: w)
  case 0
  show ?case by simp
next
  case (Suc n)
  show ?case
    by (rule bit_word_eqI)
      (auto simp: Suc.IH bit_or_iff bit_ucast_iff bit_push_bit_iff bit_take_bit_iff bit_drop_bit_eq
        not_less le_imp_less_Suc)
qed

lemma from_to_le_bytes [codec_simps]:
  "LENGTH('a) \<le> 8 * n \<Longrightarrow> from_le_bytes (to_le_bytes n w) = (w :: 'a::len word)"
  by (simp add: from_to_le_bytes_take take_bit_word_eq_self)

lemma to_le_bytes_cong:
  "take_bit (8 * n) v = take_bit (8 * n) (w :: 'a::len word) \<Longrightarrow> to_le_bytes n v = to_le_bytes n w"
proof (induction n arbitrary: v w)
  case 0
  then show ?case by simp
next
  case (Suc n)
  have b: "bit v i = bit w i" if "i < 8 * Suc n" for i
    using Suc.prems that by (metis bit_take_bit_iff)
  have "ucast v = (ucast w :: u8)"
    by (rule bit_word_eqI) (auto simp: bit_ucast_iff b)
  moreover have "take_bit (8 * n) (drop_bit 8 v) = take_bit (8 * n) (drop_bit 8 w)"
    by (rule bit_word_eqI) (auto simp: bit_take_bit_iff bit_drop_bit_eq b)
  then have "to_le_bytes n (drop_bit 8 v) = to_le_bytes n (drop_bit 8 w)"
    by (rule Suc.IH)
  ultimately show ?case by simp
qed

lemma to_from_le_bytes:
  "8 * length bs \<le> LENGTH('a) \<Longrightarrow>
   to_le_bytes (length bs) (from_le_bytes bs :: 'a::len word) = bs"
proof (induction bs)
  case Nil
  then show ?case by simp
next
  case (Cons b bs)
  let ?x = "from_le_bytes bs :: 'a word"
  have "ucast (ucast b OR push_bit 8 ?x) = b"
    by (rule bit_word_eqI)
      (use Cons.prems in \<open>auto simp: bit_ucast_iff bit_or_iff bit_push_bit_iff\<close>)
  moreover have "take_bit (8 * length bs) (drop_bit 8 (ucast b OR push_bit 8 ?x))
      = take_bit (8 * length bs) ?x"
    by (rule bit_word_eqI)
      (use Cons.prems in \<open>auto simp: bit_ucast_iff bit_or_iff bit_push_bit_iff bit_take_bit_iff
         bit_drop_bit_eq dest: bit_imp_le_length\<close>)
  then have "to_le_bytes (length bs) (drop_bit 8 (ucast b OR push_bit 8 ?x))
      = to_le_bytes (length bs) ?x"
    by (rule to_le_bytes_cong)
  ultimately show ?case using Cons by simp
qed

section \<open>UTF-8\<close>

text \<open>
  \<^verbatim>\<open>String\<close> and \<^verbatim>\<open>str\<close> values are their UTF-8 bytes; \<^verbatim>\<open>from_utf8\<close>
  accepts exactly the byte strings below (no surrogates, no overlong forms, nothing above
  U+10FFFF).
\<close>

type_synonym utf8_string = "u8 list"

definition utf8_continuation :: "u8 \<Rightarrow> bool" where
  "utf8_continuation b \<longleftrightarrow> 0x80 \<le> b \<and> b \<le> 0xBF"

fun utf8_valid :: "u8 list \<Rightarrow> bool" where
  "utf8_valid [] = True"
| "utf8_valid (a # bs) =
     (if a < 0x80 then utf8_valid bs
      else if 0xC2 \<le> a \<and> a \<le> 0xDF then
        (case bs of b # r \<Rightarrow> utf8_continuation b \<and> utf8_valid r | _ \<Rightarrow> False)
      else if 0xE0 \<le> a \<and> a \<le> 0xEF then
        (case bs of b # c # r \<Rightarrow>
           utf8_continuation b \<and> utf8_continuation c
           \<and> (a = 0xE0 \<longrightarrow> 0xA0 \<le> b) \<and> (a = 0xED \<longrightarrow> b \<le> 0x9F) \<and> utf8_valid r
         | _ \<Rightarrow> False)
      else if 0xF0 \<le> a \<and> a \<le> 0xF4 then
        (case bs of b # c # d # r \<Rightarrow>
           utf8_continuation b \<and> utf8_continuation c \<and> utf8_continuation d
           \<and> (a = 0xF0 \<longrightarrow> 0x90 \<le> b) \<and> (a = 0xF4 \<longrightarrow> b \<le> 0x8F) \<and> utf8_valid r
         | _ \<Rightarrow> False)
      else False)"

lemma ascii_utf8_valid: "list_all (\<lambda>b. b < 0x80) bs \<Longrightarrow> utf8_valid bs"
  by (induction bs) auto

section \<open>Fallible computations\<close>

text \<open>\<^verbatim>\<open>Result<T, E>\<close> is \<open>'e + 'a\<close>; \<open>and_then\<close> is the \<^verbatim>\<open>?\<close> operator.\<close>

definition and_then :: "'e + 'a \<Rightarrow> ('a \<Rightarrow> 'e + 'b) \<Rightarrow> 'e + 'b" where
  "and_then r f = (case r of Inl e \<Rightarrow> Inl e | Inr x \<Rightarrow> f x)"

definition ok_or :: "'e \<Rightarrow> 'a option \<Rightarrow> 'e + 'a" where
  "ok_or e x = (case x of None \<Rightarrow> Inl e | Some y \<Rightarrow> Inr y)"

lemma and_then_simps [simp]:
  "and_then (Inl e) f = Inl e" "and_then (Inr x) f = f x"
  by (simp_all add: and_then_def)

lemma ok_or_simps [simp]: "ok_or e None = Inl e" "ok_or e (Some x) = Inr x"
  by (simp_all add: ok_or_def)

lemma and_then_Inr_iff:
  "and_then r f = Inr y \<longleftrightarrow> (\<exists>x. r = Inr x \<and> f x = Inr y)"
  by (cases r) auto

lemma and_then_assoc:
  "and_then (and_then r f) g = and_then r (\<lambda>x. and_then (f x) g)"
  by (cases r) auto

section \<open>Computations with state and errors\<close>

text \<open>
  A method that locks the state, reads and writes it and returns a \<^verbatim>\<open>Result\<close>. An
  error keeps the writes made before it, as an early return does.
\<close>

type_synonym ('s, 'e, 'a) state_result = "'s \<Rightarrow> ('e + 'a) \<times> 's"

definition s_return :: "'a \<Rightarrow> ('s, 'e, 'a) state_result" where
  "s_return x s = (Inr x, s)"

definition s_bind :: "('s, 'e, 'a) state_result \<Rightarrow> ('a \<Rightarrow> ('s, 'e, 'b) state_result)
    \<Rightarrow> ('s, 'e, 'b) state_result" where
  "s_bind m f s = (case m s of (Inl e, s') \<Rightarrow> (Inl e, s') | (Inr x, s') \<Rightarrow> f x s')"

text \<open>\<^verbatim>\<open>let _ = call;\<close> drops the result and keeps the effect.\<close>

definition s_ignore :: "('s, 'e, 'a) state_result \<Rightarrow> 's \<Rightarrow> 's" where
  "s_ignore m s = snd (m s)"

text \<open>\<^verbatim>\<open>match call { Ok(x) => .., Err(e) => .. }\<close> with a handler for the error.\<close>

definition s_catch :: "('s, 'e, 'a) state_result \<Rightarrow> ('e \<Rightarrow> ('s, 'e, 'b) state_result)
    \<Rightarrow> ('a \<Rightarrow> ('s, 'e, 'b) state_result) \<Rightarrow> ('s, 'e, 'b) state_result" where
  "s_catch m h f s = (case m s of (Inl e, s') \<Rightarrow> h e s' | (Inr x, s') \<Rightarrow> f x s')"

text \<open>\<^verbatim>\<open>map_err\<close>, on a value and on a computation, and a value as a computation.\<close>

definition map_err :: "('e \<Rightarrow> 'f) \<Rightarrow> 'e + 'a \<Rightarrow> 'f + 'a" where
  "map_err f r = (case r of Inl e \<Rightarrow> Inl (f e) | Inr x \<Rightarrow> Inr x)"

definition s_lift :: "'e + 'a \<Rightarrow> ('s, 'e, 'a) state_result" where
  "s_lift r s = (r, s)"

definition s_map_err :: "('e \<Rightarrow> 'f) \<Rightarrow> ('s, 'e, 'a) state_result \<Rightarrow> ('s, 'f, 'a) state_result" where
  "s_map_err f m s = (case m s of (r, s') \<Rightarrow> (map_err f r, s'))"

lemma map_err_simps [simp]: "map_err f (Inl e) = Inl (f e)" "map_err f (Inr x) = Inr x"
  by (simp_all add: map_err_def)

lemma map_err_Inr_iff [simp]: "map_err f r = Inr x \<longleftrightarrow> r = Inr x"
  by (cases r) auto

lemma s_bind_Inr_iff:
  "s_bind m f s = (Inr y, s') \<longleftrightarrow> (\<exists>x t. m s = (Inr x, t) \<and> f x t = (Inr y, s'))"
  by (auto simp: s_bind_def split: prod.splits sum.splits)

lemma s_lift_Inr_iff: "s_lift r s = (Inr x, s') \<longleftrightarrow> r = Inr x \<and> s' = s"
  by (auto simp: s_lift_def)

lemma s_map_err_Inr_iff: "s_map_err f m s = (Inr x, s') \<longleftrightarrow> m s = (Inr x, s')"
  by (auto simp: s_map_err_def split: prod.splits)

lemma s_return_Inr_iff: "s_return v s = (Inr x, s') \<longleftrightarrow> x = v \<and> s' = s"
  by (auto simp: s_return_def)

lemmas s_Inr_iffs = s_bind_Inr_iff s_lift_Inr_iff s_map_err_Inr_iff s_return_Inr_iff

definition preserves :: "('s \<Rightarrow> bool) \<Rightarrow> ('s, 'e, 'a) state_result \<Rightarrow> bool" where
  "preserves I m \<longleftrightarrow> (\<forall>s. I s \<longrightarrow> I (snd (m s)))"

lemma preservesI: "(\<And>s. I s \<Longrightarrow> I (snd (m s))) \<Longrightarrow> preserves I m"
  by (simp add: preserves_def)

lemma preservesD: "preserves I m \<Longrightarrow> I s \<Longrightarrow> m s = (r, s') \<Longrightarrow> I s'"
  by (metis preserves_def snd_conv)

lemma preserves_snd: "preserves I m \<Longrightarrow> I s \<Longrightarrow> I (snd (m s))"
  by (simp add: preserves_def)

lemma preserves_return [preserve_rules]: "preserves I (s_return x)"
  by (simp add: preserves_def s_return_def)

lemma preserves_bind [preserve_rules]:
  assumes "preserves I m" and "\<And>x. preserves I (f x)"
  shows "preserves I (s_bind m f)"
proof (rule preservesI)
  fix s assume "I s"
  then have m: "I (snd (m s))" using assms(1) by (simp add: preserves_def)
  show "I (snd (s_bind m f s))"
  proof (cases "m s")
    case (Pair r s')
    with m assms(2) show ?thesis
      by (cases r) (auto simp: s_bind_def preserves_def)
  qed
qed

lemma preserves_catch [preserve_rules]:
  assumes "preserves I m" and "\<And>e. preserves I (h e)" and "\<And>x. preserves I (f x)"
  shows "preserves I (s_catch m h f)"
proof (rule preservesI)
  fix s assume "I s"
  then have m: "I (snd (m s))" using assms(1) by (simp add: preserves_def)
  show "I (snd (s_catch m h f s))"
  proof (cases "m s")
    case (Pair r s')
    with m assms(2,3) show ?thesis
      by (cases r) (auto simp: s_catch_def preserves_def)
  qed
qed

lemma preserves_if [preserve_rules]:
  "preserves I m \<Longrightarrow> preserves I n \<Longrightarrow> preserves I (if b then m else n)"
  by simp

text \<open>
  Contracts: from a state with the precondition, a normal result satisfies the first
  postcondition and an early return the second.
\<close>

definition contract :: "('s \<Rightarrow> bool) \<Rightarrow> ('s, 'e, 'a) state_result \<Rightarrow> ('a \<Rightarrow> 's \<Rightarrow> bool)
    \<Rightarrow> ('e \<Rightarrow> 's \<Rightarrow> bool) \<Rightarrow> bool" where
  "contract P m Q E \<longleftrightarrow>
     (\<forall>s. P s \<longrightarrow> (case m s of (Inr x, s') \<Rightarrow> Q x s' | (Inl e, s') \<Rightarrow> E e s'))"

lemma contractI:
  "(\<And>s. P s \<Longrightarrow> case m s of (Inr x, s') \<Rightarrow> Q x s' | (Inl e, s') \<Rightarrow> E e s') \<Longrightarrow> contract P m Q E"
  by (simp add: contract_def)

lemma contract_Inr: "contract P m Q E \<Longrightarrow> P s \<Longrightarrow> m s = (Inr x, s') \<Longrightarrow> Q x s'"
  unfolding contract_def by (drule spec [of _ s]) simp

lemma contract_Inl: "contract P m Q E \<Longrightarrow> P s \<Longrightarrow> m s = (Inl e, s') \<Longrightarrow> E e s'"
  unfolding contract_def by (drule spec [of _ s]) simp

lemma contract_bind:
  assumes "contract P m R E" and "\<And>x. contract (R x) (f x) Q E"
  shows "contract P (s_bind m f) Q E"
proof (rule contractI)
  fix s assume P: "P s"
  obtain r t where m: "m s = (r, t)" by (cases "m s")
  show "case s_bind m f s of (Inr x, s') \<Rightarrow> Q x s' | (Inl e, s') \<Rightarrow> E e s'"
  proof (cases r)
    case (Inl e)
    with m P assms(1) show ?thesis by (auto simp: s_bind_def dest: contract_Inl)
  next
    case (Inr x)
    with m P assms(1) have "R x t" by (auto dest: contract_Inr)
    with assms(2) have "case f x t of (Inr x, s') \<Rightarrow> Q x s' | (Inl e, s') \<Rightarrow> E e s'"
      by (simp add: contract_def)
    with m Inr show ?thesis by (simp add: s_bind_def)
  qed
qed

section \<open>Ordered maps\<close>

text \<open>
  A \<^verbatim>\<open>BTreeMap\<close> is the association list of its entries in key order; \<open>bt_wf\<close> is the
  order. Insertion replaces an existing entry.
\<close>

type_synonym ('k, 'v) bt_map = "('k \<times> 'v) list"

abbreviation bt_get :: "('k, 'v) bt_map \<Rightarrow> 'k \<Rightarrow> 'v option" where
  "bt_get \<equiv> map_of"

abbreviation bt_keys :: "('k, 'v) bt_map \<Rightarrow> 'k list" where
  "bt_keys m \<equiv> map fst m"

abbreviation bt_values :: "('k, 'v) bt_map \<Rightarrow> 'v list" where
  "bt_values m \<equiv> map snd m"

abbreviation bt_wf :: "('k::linorder, 'v) bt_map \<Rightarrow> bool" where
  "bt_wf m \<equiv> sorted_wrt (<) (bt_keys m)"

fun bt_insert :: "'k::linorder \<Rightarrow> 'v \<Rightarrow> ('k, 'v) bt_map \<Rightarrow> ('k, 'v) bt_map" where
  "bt_insert k v [] = [(k, v)]"
| "bt_insert k v ((k', v') # m) =
     (if k < k' then (k, v) # (k', v') # m
      else if k = k' then (k, v) # m
      else (k', v') # bt_insert k v m)"

definition bt_remove :: "'k \<Rightarrow> ('k, 'v) bt_map \<Rightarrow> ('k, 'v) bt_map" where
  "bt_remove k m = filter (\<lambda>e. fst e \<noteq> k) m"

text \<open>\<^verbatim>\<open>get_mut\<close> followed by writes through the reference.\<close>

definition bt_modify :: "'k \<Rightarrow> ('v \<Rightarrow> 'v) \<Rightarrow> ('k, 'v) bt_map \<Rightarrow> ('k, 'v) bt_map" where
  "bt_modify k f m = map (\<lambda>(k', v). (k', if k' = k then f v else v)) m"

definition bt_total :: "('v \<Rightarrow> nat) \<Rightarrow> ('k, 'v) bt_map \<Rightarrow> nat" where
  "bt_total w m = sum_list (map w (bt_values m))"

definition bt_count :: "('v \<Rightarrow> bool) \<Rightarrow> ('k, 'v) bt_map \<Rightarrow> nat" where
  "bt_count P m = length (filter P (bt_values m))"

lemma bt_get_insert [simp]: "bt_get (bt_insert k v m) = (bt_get m)(k \<mapsto> v)"
  by (induction k v m rule: bt_insert.induct) auto

lemma bt_get_remove [simp]: "bt_get (bt_remove k m) = (bt_get m)(k := None)"
  by (induction m) (auto simp: bt_remove_def)

lemma bt_get_modify [simp]:
  "bt_get (bt_modify k f m) = (\<lambda>k'. if k' = k then map_option f (bt_get m k) else bt_get m k')"
  by (induction m) (auto simp: bt_modify_def fun_eq_iff)

lemma bt_keys_modify [simp]: "bt_keys (bt_modify k f m) = bt_keys m"
  by (simp add: bt_modify_def comp_def case_prod_unfold)

lemma length_bt_modify [simp]: "length (bt_modify k f m) = length m"
  by (simp add: bt_modify_def)

lemma bt_modify_absent: "bt_get m k = None \<Longrightarrow> bt_modify k f m = m"
  by (induction m) (auto simp: bt_modify_def split: if_splits)

lemma bt_remove_absent: "bt_get m k = None \<Longrightarrow> bt_remove k m = m"
  by (induction m) (auto simp: bt_remove_def split: if_splits)

lemma set_bt_keys_insert: "set (bt_keys (bt_insert k v m)) = insert k (set (bt_keys m))"
  by (induction k v m rule: bt_insert.induct) auto

lemma set_bt_keys_remove: "set (bt_keys (bt_remove k m)) = set (bt_keys m) - {k}"
  by (auto simp: bt_remove_def)

lemma set_bt_keys: "set (bt_keys m) = dom (bt_get m)"
  by (simp add: dom_map_of_conv_image_fst)

lemma length_bt_remove_le: "length (bt_remove k m) \<le> length m"
  by (simp add: bt_remove_def)

lemma bt_wf_distinct: "bt_wf m \<Longrightarrow> distinct (bt_keys m)"
  by (simp add: strict_sorted_iff)

lemma bt_wf_insert: "bt_wf m \<Longrightarrow> bt_wf (bt_insert k v m)"
proof (induction k v m rule: bt_insert.induct)
  case (1 k v)
  then show ?case by simp
next
  case (2 k v k' v' m)
  then show ?case
    using set_bt_keys_insert [of k v m] by (fastforce simp: image_iff)
qed

lemma bt_wf_remove: "bt_wf m \<Longrightarrow> bt_wf (bt_remove k m)"
  by (induction m) (auto simp: bt_remove_def)

lemma bt_wf_modify: "bt_wf m \<Longrightarrow> bt_wf (bt_modify k f m)"
  by simp

lemma bt_value_iff: "bt_wf m \<Longrightarrow> v \<in> set (bt_values m) \<longleftrightarrow> (\<exists>k. bt_get m k = Some v)"
  using bt_wf_distinct [of m] by (force simp: map_of_eq_Some_iff)

lemma bt_total_Nil [simp]: "bt_total w [] = 0"
  by (simp add: bt_total_def)

lemma bt_total_Cons [simp]: "bt_total w (e # m) = w (snd e) + bt_total w m"
  by (simp add: bt_total_def)

lemma bt_total_insert:
  "bt_wf m \<Longrightarrow> bt_get m k = None \<Longrightarrow> bt_total w (bt_insert k v m) = bt_total w m + w v"
  by (induction k v m rule: bt_insert.induct) (auto split: if_splits)

lemma bt_total_remove:
  assumes "bt_wf m" "bt_get m k = Some v"
  shows "bt_total w (bt_remove k m) + w v = bt_total w m"
  using assms
proof (induction m)
  case Nil
  then show ?case by simp
next
  case (Cons e m)
  show ?case
  proof (cases "fst e = k")
    case True
    with Cons.prems have "bt_get m k = None"
      by (auto simp: map_of_eq_None_iff)
    then have "bt_remove k m = m" by (rule bt_remove_absent)
    with True Cons.prems show ?thesis by (cases e) (auto simp: bt_remove_def)
  next
    case False
    with Cons show ?thesis by (cases e) (auto simp: bt_remove_def)
  qed
qed

lemma bt_total_modify:
  assumes "bt_wf m" "bt_get m k = Some v"
  shows "bt_total w (bt_modify k f m) + w v = bt_total w m + w (f v)"
  using assms
proof (induction m)
  case Nil
  then show ?case by simp
next
  case (Cons e m)
  show ?case
  proof (cases "fst e = k")
    case True
    with Cons.prems have "bt_get m k = None"
      by (auto simp: map_of_eq_None_iff)
    then have "bt_modify k f m = m" by (rule bt_modify_absent)
    with True Cons.prems show ?thesis by (cases e) (auto simp: bt_modify_def)
  next
    case False
    with Cons show ?thesis by (cases e) (auto simp: bt_modify_def)
  qed
qed

lemma bt_total_one: "bt_total (\<lambda>_. Suc 0) m = length m"
  by (induction m) auto

lemma bt_count_total: "bt_count P m = bt_total (\<lambda>v. if P v then 1 else 0) m"
  by (induction m) (auto simp: bt_count_def)

lemma bt_count_Nil [simp]: "bt_count P [] = 0"
  by (simp add: bt_count_def)

lemma bt_count_Cons: "bt_count P (e # m) = (if P (snd e) then 1 else 0) + bt_count P m"
  by (simp add: bt_count_def)

lemma bt_count_modify_le:
  "(\<And>v. P (f v) \<Longrightarrow> P v) \<Longrightarrow> bt_count P (bt_modify k f m) \<le> bt_count P m"
  by (induction m) (auto simp: bt_modify_def bt_count_Cons split: if_splits)

lemma bt_count_modify_less:
  assumes "\<And>v. \<not> P (f v)" "bt_get m k = Some v" "P v"
  shows "bt_count P (bt_modify k f m) < bt_count P m"
  using assms(2)
proof (induction m)
  case Nil
  then show ?case by simp
next
  case (Cons e m)
  have le: "bt_count P (bt_modify k f m) \<le> bt_count P m"
    using assms(1) by (intro bt_count_modify_le) auto
  show ?case
  proof (cases "fst e = k")
    case True
    with Cons.prems assms(1,3) le show ?thesis
      by (cases e) (auto simp: bt_modify_def bt_count_Cons)
  next
    case False
    with Cons.prems Cons.IH show ?thesis
      by (cases e) (auto simp: bt_modify_def bt_count_Cons)
  qed
qed

text \<open>
  The interface the accounting proofs use: a map with a total of a weight over its values.
  The client facts (counts, bounds of one entry, unchanged totals) are proved once here.
\<close>

locale ledger =
  fixes get :: "'m \<Rightarrow> 'k \<Rightarrow> 'v option"
    and insert :: "'k \<Rightarrow> 'v \<Rightarrow> 'm \<Rightarrow> 'm"
    and remove :: "'k \<Rightarrow> 'm \<Rightarrow> 'm"
    and modify :: "'k \<Rightarrow> ('v \<Rightarrow> 'v) \<Rightarrow> 'm \<Rightarrow> 'm"
    and wf :: "'m \<Rightarrow> bool"
    and total :: "('v \<Rightarrow> nat) \<Rightarrow> 'm \<Rightarrow> nat"
  assumes get_insert: "get (insert k v m) = (get m)(k \<mapsto> v)"
    and get_remove: "get (remove k m) = (get m)(k := None)"
    and get_modify: "get (modify k f m) = (\<lambda>k'. if k' = k then map_option f (get m k) else get m k')"
    and wf_insert: "wf m \<Longrightarrow> wf (insert k v m)"
    and wf_remove: "wf m \<Longrightarrow> wf (remove k m)"
    and wf_modify: "wf m \<Longrightarrow> wf (modify k f m)"
    and total_insert: "wf m \<Longrightarrow> get m k = None \<Longrightarrow> total w (insert k v m) = total w m + w v"
    and total_remove: "wf m \<Longrightarrow> get m k = Some v \<Longrightarrow> total w (remove k m) + w v = total w m"
    and total_modify: "wf m \<Longrightarrow> get m k = Some v \<Longrightarrow>
          total w (modify k f m) + w v = total w m + w (f v)"
    and remove_absent: "get m k = None \<Longrightarrow> remove k m = m"
    and modify_absent: "get m k = None \<Longrightarrow> modify k f m = m"
begin

lemma entry_le_total: "wf m \<Longrightarrow> get m k = Some v \<Longrightarrow> w v \<le> total w m"
  using total_remove [of m k v w] by simp

lemma total_remove_le: "wf m \<Longrightarrow> total w (remove k m) \<le> total w m"
  by (cases "get m k") (auto simp: remove_absent dest: total_remove [where w = w])

lemma total_modify_same:
  "wf m \<Longrightarrow> (\<And>v. get m k = Some v \<Longrightarrow> w (f v) = w v) \<Longrightarrow> total w (modify k f m) = total w m"
  by (cases "get m k") (auto simp: modify_absent dest: total_modify [where w = w and f = f])

lemma total_modify_le:
  "wf m \<Longrightarrow> (\<And>v. get m k = Some v \<Longrightarrow> w (f v) \<le> w v) \<Longrightarrow> total w (modify k f m) \<le> total w m"
  by (cases "get m k") (force simp: modify_absent dest: total_modify [where w = w and f = f])+

lemma total_remove_minus:
  "wf m \<Longrightarrow> get m k = Some v \<Longrightarrow> total w (remove k m) = total w m - w v"
  using total_remove [of m k v w] by simp

lemma total_modify_plus:
  "wf m \<Longrightarrow> get m k = Some v \<Longrightarrow> w (f v) = w v + d \<Longrightarrow> total w (modify k f m) = total w m + d"
  using total_modify [of m k v w f] by simp

lemma total_modify_minus:
  "wf m \<Longrightarrow> get m k = Some v \<Longrightarrow> w v = w (f v) + d \<Longrightarrow> total w (modify k f m) = total w m - d"
  using total_modify [of m k v w f] by simp

end

interpretation bt: ledger bt_get bt_insert bt_remove bt_modify bt_wf bt_total
  by unfold_locales
    (auto simp: bt_wf_insert bt_wf_remove bt_total_insert bt_total_remove bt_total_modify
      bt_remove_absent bt_modify_absent)

lemma length_bt_insert:
  "bt_wf m \<Longrightarrow> bt_get m k = None \<Longrightarrow> length (bt_insert k v m) = Suc (length m)"
  using bt.total_insert [of m k "\<lambda>_. 1" v] by (simp add: bt_total_one)

lemma length_bt_remove:
  "bt_wf m \<Longrightarrow> bt_get m k = Some v \<Longrightarrow> Suc (length (bt_remove k m)) = length m"
  using bt.total_remove [of m k v "\<lambda>_. 1"] by (simp add: bt_total_one)

section \<open>Byte codecs\<close>

text \<open>
  A codec writes a value to a byte string, or refuses it, and reads it back from the front
  of an input, returning what it did not consume. \<open>take_many\<close> is a run of reads of the
  same kind.
\<close>

primrec take_many :: "(u8 list \<Rightarrow> 'e + 'a \<times> u8 list) \<Rightarrow> nat \<Rightarrow> u8 list
    \<Rightarrow> 'e + 'a list \<times> u8 list" where
  "take_many g 0 inp = Inr ([], inp)"
| "take_many g (Suc n) inp =
     and_then (g inp) (\<lambda>(x, inp). and_then (take_many g n inp) (\<lambda>(xs, inp). Inr (x # xs, inp)))"

locale codec =
  fixes put :: "'a \<Rightarrow> 'e + u8 list"
    and get :: "u8 list \<Rightarrow> 'e + 'a \<times> u8 list"
    and valid :: "'a \<Rightarrow> bool"
  assumes get_put: "valid x \<Longrightarrow> put x = Inr bs \<Longrightarrow> get (bs @ rest) = Inr (x, rest)"
begin

lemma put_prefix_free:
  assumes "valid x" "valid y" "put x = Inr bs" "put y = Inr cs" "bs @ r = cs @ q"
  shows "x = y \<and> r = q"
proof -
  have "Inr (x, r) = get (bs @ r)" using assms(1,3) by (simp add: get_put)
  also have "\<dots> = Inr (y, q)" using assms(2,4) by (simp add: assms(5) get_put)
  finally show ?thesis by simp
qed

lemma put_injective:
  "valid x \<Longrightarrow> valid y \<Longrightarrow> put x = Inr bs \<Longrightarrow> put y = Inr bs \<Longrightarrow> x = y"
  using put_prefix_free [of x y bs bs "[]" "[]"] by simp

lemma take_many_put:
  assumes "\<And>x. x \<in> set xs \<Longrightarrow> valid x \<and> put x = Inr (enc x)"
  shows "take_many get (length xs) (concat (map enc xs) @ rest) = Inr (xs, rest)"
proof -
  have "get (enc x @ r) = Inr (x, r)" if "x \<in> set xs" for x r
    using assms [OF that] by (simp add: get_put)
  then show ?thesis by (induction xs) auto
qed

lemma take_many_inverse:
  assumes "\<And>inp x rest. get inp = Inr (x, rest) \<Longrightarrow> inp = enc x @ rest"
  shows "take_many get n inp = Inr (xs, rest) \<Longrightarrow>
         length xs = n \<and> inp = concat (map enc xs) @ rest"
proof (induction n arbitrary: inp xs)
  case 0
  then show ?case by simp
next
  case (Suc n)
  then obtain x inp' ys where "get inp = Inr (x, inp')"
    and "take_many get n inp' = Inr (ys, rest)" and "xs = x # ys"
    by (auto simp: and_then_Inr_iff)
  with Suc.IH [of inp' ys] assms show ?case by auto
qed

end

section \<open>Transition systems\<close>

inductive reach :: "('s \<Rightarrow> bool) \<Rightarrow> ('s \<Rightarrow> 's \<Rightarrow> bool) \<Rightarrow> 's \<Rightarrow> bool"
  for start :: "'s \<Rightarrow> bool" and step :: "'s \<Rightarrow> 's \<Rightarrow> bool" where
  reach_start: "start s \<Longrightarrow> reach start step s"
| reach_step: "reach start step s \<Longrightarrow> step s t \<Longrightarrow> reach start step t"

locale transition_system =
  fixes start :: "'s \<Rightarrow> bool" and step :: "'s \<Rightarrow> 's \<Rightarrow> bool" and inv :: "'s \<Rightarrow> bool"
  assumes start_inv: "start s \<Longrightarrow> inv s"
    and step_inv: "inv s \<Longrightarrow> step s t \<Longrightarrow> inv t"
begin

lemma reachable_inv: "reach start step s \<Longrightarrow> inv s"
  by (induction rule: reach.induct) (auto intro: start_inv step_inv)

end

end
