(* ===== verification/Worker_Protocol.thy ===== *)
theory Worker_Protocol
  imports Prelude
begin

text \<open>
  The bounded framing of the one-request WebAssembly worker
  (\<^verbatim>\<open>src/src/wasm/worker_protocol.rs\<close>): message kinds, terminal reports and their
  validation, the field encoders and decoders, whole frames and the stream reader. Paths
  are those of a Unix target (their raw bytes). Reading a value takes it from the front of
  the input and returns the rest, which is what the source does through \<^verbatim>\<open>&mut &[u8]\<close>.
\<close>

section \<open>Constants and data\<close>

definition MAGIC :: "u8 list" where
  "MAGIC = [0x4B, 0x57, 0x57, 0x31]"

definition VERSION :: u16 where
  "VERSION = 7"

definition HEADER_LEN :: nat where
  "HEADER_LEN = 11"

definition MAX_FRAME_PAYLOAD :: nat where
  "MAX_FRAME_PAYLOAD = 1024 * 1024"

definition WORKER_PROTOCOL_MAX_MODULE_BYTES :: u64 where
  "WORKER_PROTOCOL_MAX_MODULE_BYTES = 512 * 1024 * 1024"

definition MAX_DIAGNOSTIC_BYTES :: nat where
  "MAX_DIAGNOSTIC_BYTES = 1024"

definition MAX_TRACE_BYTES :: nat where
  "MAX_TRACE_BYTES = 64 * 1024"

definition NO_STATUS_CODE :: i32 where
  "NO_STATUS_CODE = 0x80000000"

definition MAX_OUTPUT_PATH_BYTES :: nat where
  "MAX_OUTPUT_PATH_BYTES = 65536"

datatype Kind =
    Kind_Hello | Kind_HelloAck | Kind_ExecuteStart | Kind_ModuleChunk | Kind_ExecuteEnd
  | Kind_Cancel | Kind_Terminal | Kind_ExecuteAck | Kind_Trace

datatype TerminalKind =
    TK_Completed | TK_Cancelled | TK_DeadlineExceeded | TK_OutOfFuel | TK_Trapped
  | TK_NonzeroExit | TK_ChildFailure | TK_ProtocolFailure | TK_WorkerFailure
  | TK_ForcedContainment

datatype RootOutcome =
    RO_None | RO_Started | RO_Exited | RO_StartedWithThreadRejections
  | RO_ExitedWithThreadRejections

datatype ProtocolError =
    BadMagic | UnsupportedVersion | UnknownKind | Truncated | TrailingBytes | FrameTooLarge
  | InvalidRequestId | InvalidPayload | LengthOverflow | ModuleTooLarge | WrongRequestId
  | UnexpectedMessage | DuplicateTerminal | InvalidTerminal | Sequence | DiagnosticTooLarge

record TerminalDetail =
  root_outcome :: RootOutcome
  capacity_rejections :: u32
  closing_rejections :: u32
  fuel_rejections :: u32
  epoch_rejections :: u32
  status_code :: "i32 option"

record ExecuteMetadata =
  webview_url :: "utf8_string option"
  staged_output :: "u8 list option"
  blob_limits_wire :: "u64 list"
  blob_progress_idle_timeout_secs :: u64
  blob_progress_idle_timeout_nanos :: u64
  max_wasm_stack_bytes :: u64
  reserved_memory_bytes :: u64
  maximum_active_roots :: u64
  total_fuel :: u64
  root_fuel :: u64
  child_fuel :: u64
  epoch_deadline_millis :: u64
  epoch_tick_millis :: u64
  maximum_epoch_registrations :: u64
  max_module_bytes :: u64
  max_shared_memory_pages :: u32
  max_guest_threads :: u64

record FinalCounters =
  active_roots :: u64
  live_stores :: u64
  live_instances :: u64
  active_epoch_registrations :: u64
  live_threads :: u64

datatype Message =
    Msg_Trace u64 utf8_string
  | Msg_Hello u64
  | Msg_HelloAck u64
  | Msg_ExecuteAck u64
  | Msg_ExecuteStart u64 u64 ExecuteMetadata
  | Msg_ModuleChunk u64 u32 "u8 list"
  | Msg_ExecuteEnd u64
  | Msg_Cancel u64
  | Msg_Terminal u64 TerminalKind TerminalDetail utf8_string FinalCounters

fun Kind_byte :: "Kind \<Rightarrow> u8" where
  "Kind_byte Kind_Hello = 1"
| "Kind_byte Kind_HelloAck = 2"
| "Kind_byte Kind_ExecuteStart = 3"
| "Kind_byte Kind_ModuleChunk = 4"
| "Kind_byte Kind_ExecuteEnd = 5"
| "Kind_byte Kind_Cancel = 6"
| "Kind_byte Kind_Terminal = 7"
| "Kind_byte Kind_ExecuteAck = 8"
| "Kind_byte Kind_Trace = 9"

definition Kind_try_from :: "u8 \<Rightarrow> ProtocolError + Kind" where
  "Kind_try_from value =
     (if value = 1 then Inr Kind_Hello
      else if value = 2 then Inr Kind_HelloAck
      else if value = 3 then Inr Kind_ExecuteStart
      else if value = 4 then Inr Kind_ModuleChunk
      else if value = 5 then Inr Kind_ExecuteEnd
      else if value = 6 then Inr Kind_Cancel
      else if value = 7 then Inr Kind_Terminal
      else if value = 8 then Inr Kind_ExecuteAck
      else if value = 9 then Inr Kind_Trace
      else Inl UnknownKind)"

fun TerminalKind_byte :: "TerminalKind \<Rightarrow> u8" where
  "TerminalKind_byte TK_Completed = 1"
| "TerminalKind_byte TK_Cancelled = 2"
| "TerminalKind_byte TK_DeadlineExceeded = 3"
| "TerminalKind_byte TK_OutOfFuel = 4"
| "TerminalKind_byte TK_Trapped = 5"
| "TerminalKind_byte TK_NonzeroExit = 6"
| "TerminalKind_byte TK_ChildFailure = 7"
| "TerminalKind_byte TK_ProtocolFailure = 8"
| "TerminalKind_byte TK_WorkerFailure = 9"
| "TerminalKind_byte TK_ForcedContainment = 10"

definition TerminalKind_try_from :: "u8 \<Rightarrow> ProtocolError + TerminalKind" where
  "TerminalKind_try_from value =
     (if value = 1 then Inr TK_Completed
      else if value = 2 then Inr TK_Cancelled
      else if value = 3 then Inr TK_DeadlineExceeded
      else if value = 4 then Inr TK_OutOfFuel
      else if value = 5 then Inr TK_Trapped
      else if value = 6 then Inr TK_NonzeroExit
      else if value = 7 then Inr TK_ChildFailure
      else if value = 8 then Inr TK_ProtocolFailure
      else if value = 9 then Inr TK_WorkerFailure
      else if value = 10 then Inr TK_ForcedContainment
      else Inl InvalidTerminal)"

fun RootOutcome_byte :: "RootOutcome \<Rightarrow> u8" where
  "RootOutcome_byte RO_None = 0"
| "RootOutcome_byte RO_Started = 1"
| "RootOutcome_byte RO_Exited = 2"
| "RootOutcome_byte RO_StartedWithThreadRejections = 3"
| "RootOutcome_byte RO_ExitedWithThreadRejections = 4"

definition RootOutcome_try_from :: "u8 \<Rightarrow> ProtocolError + RootOutcome" where
  "RootOutcome_try_from value =
     (if value = 0 then Inr RO_None
      else if value = 1 then Inr RO_Started
      else if value = 2 then Inr RO_Exited
      else if value = 3 then Inr RO_StartedWithThreadRejections
      else if value = 4 then Inr RO_ExitedWithThreadRejections
      else Inl InvalidTerminal)"

section \<open>Terminal reports\<close>

definition TerminalDetail_none :: TerminalDetail where
  "TerminalDetail_none =
     \<lparr>root_outcome = RO_None, capacity_rejections = 0, closing_rejections = 0,
      fuel_rejections = 0, epoch_rejections = 0, status_code = None\<rparr>"

definition has_rejection_counts :: "TerminalDetail \<Rightarrow> bool" where
  "has_rejection_counts d \<longleftrightarrow>
     capacity_rejections d \<noteq> 0 \<or> closing_rejections d \<noteq> 0
     \<or> fuel_rejections d \<noteq> 0 \<or> epoch_rejections d \<noteq> 0"

definition outcome_with_rejections :: "RootOutcome \<Rightarrow> bool" where
  "outcome_with_rejections r \<longleftrightarrow>
     r = RO_StartedWithThreadRejections \<or> r = RO_ExitedWithThreadRejections"

text \<open>The match arms in source order: the first whose pattern and guard hold decides.\<close>

definition TerminalDetail_validate :: "TerminalDetail \<Rightarrow> TerminalKind \<Rightarrow> ProtocolError + unit" where
  "TerminalDetail_validate d kind =
     (let counts = has_rejection_counts d in
      if kind = TK_Completed \<and> (root_outcome d = RO_None \<or> status_code d \<noteq> None)
        then Inl InvalidTerminal
      else if kind = TK_Completed \<and> counts \<and> \<not> outcome_with_rejections (root_outcome d)
        then Inl InvalidTerminal
      else if kind = TK_Completed \<and> \<not> counts \<and> outcome_with_rejections (root_outcome d)
        then Inl InvalidTerminal
      else if kind = TK_NonzeroExit \<and>
          (root_outcome d \<noteq> RO_None \<or> counts \<or> status_code d = None)
        then Inl InvalidTerminal
      else if kind = TK_ChildFailure \<and> (root_outcome d \<noteq> RO_None \<or> counts)
        then Inl InvalidTerminal
      else if kind = TK_Completed \<or> kind = TK_NonzeroExit then Inr ()
      else if root_outcome d \<noteq> RO_None \<or> counts \<or> status_code d \<noteq> None
        then Inl InvalidTerminal
      else Inr ())"

section \<open>Fields\<close>

definition put_u16 :: "u16 \<Rightarrow> u8 list" where
  "put_u16 value = to_le_bytes 2 value"

definition put_u32 :: "u32 \<Rightarrow> u8 list" where
  "put_u32 value = to_le_bytes 4 value"

definition put_u64 :: "u64 \<Rightarrow> u8 list" where
  "put_u64 value = to_le_bytes 8 value"

definition put_i32 :: "i32 \<Rightarrow> u8 list" where
  "put_i32 value = to_le_bytes 4 value"

definition get_u16 :: "u8 list \<Rightarrow> ProtocolError + u16" where
  "get_u16 inp = (if length inp = 2 then Inr (from_le_bytes inp) else Inl Truncated)"

definition get_u32 :: "u8 list \<Rightarrow> ProtocolError + u32" where
  "get_u32 inp = (if length inp = 4 then Inr (from_le_bytes inp) else Inl Truncated)"

definition take_bytes :: "nat \<Rightarrow> u8 list \<Rightarrow> ProtocolError + u8 list \<times> u8 list" where
  "take_bytes count inp =
     (if length inp < count then Inl Truncated else Inr (take count inp, drop count inp))"

definition take_u8 :: "u8 list \<Rightarrow> ProtocolError + u8 \<times> u8 list" where
  "take_u8 inp = and_then (take_bytes 1 inp) (\<lambda>(bs, inp). Inr (bs ! 0, inp))"

definition take_u16 :: "u8 list \<Rightarrow> ProtocolError + u16 \<times> u8 list" where
  "take_u16 inp = and_then (take_bytes 2 inp) (\<lambda>(bs, inp).
     and_then (get_u16 bs) (\<lambda>v. Inr (v, inp)))"

definition take_u32 :: "u8 list \<Rightarrow> ProtocolError + u32 \<times> u8 list" where
  "take_u32 inp = and_then (take_bytes 4 inp) (\<lambda>(bs, inp).
     and_then (get_u32 bs) (\<lambda>v. Inr (v, inp)))"

definition take_u64 :: "u8 list \<Rightarrow> ProtocolError + u64 \<times> u8 list" where
  "take_u64 inp = and_then (take_bytes 8 inp) (\<lambda>(bs, inp).
     if length bs = 8 then Inr (from_le_bytes bs, inp) else Inl Truncated)"

definition take_i32 :: "u8 list \<Rightarrow> ProtocolError + i32 \<times> u8 list" where
  "take_i32 inp = and_then (take_bytes 4 inp) (\<lambda>(bs, inp).
     if length bs = 4 then Inr (from_le_bytes bs, inp) else Inl Truncated)"

text \<open>\<^verbatim>\<open>Path::is_absolute\<close> on Unix: the path starts with a slash.\<close>

definition path_is_absolute :: "u8 list \<Rightarrow> bool" where
  "path_is_absolute path \<longleftrightarrow> (case path of [] \<Rightarrow> False | b # _ \<Rightarrow> b = 0x2F)"

definition put_output_path :: "u8 list option \<Rightarrow> ProtocolError + u8 list" where
  "put_output_path path =
     (case path of
        None \<Rightarrow> Inr (put_u32 0)
      | Some bytes \<Rightarrow>
          if \<not> path_is_absolute bytes then Inl InvalidPayload
          else if 0 \<in> set bytes \<or> MAX_OUTPUT_PATH_BYTES < length bytes then Inl InvalidPayload
          else Inr (put_u32 (of_nat (length bytes)) @ [1] @ bytes))"

definition take_output_path :: "u8 list \<Rightarrow> ProtocolError + u8 list option \<times> u8 list" where
  "take_output_path inp = and_then (take_u32 inp) (\<lambda>(n, inp).
     let len = unat n in
     if len = 0 then Inr (None, inp)
     else if MAX_OUTPUT_PATH_BYTES < len then Inl InvalidPayload
     else and_then (take_u8 inp) (\<lambda>(tag, inp).
       if tag \<noteq> 1 then Inl InvalidPayload
       else and_then (take_bytes len inp) (\<lambda>(bytes, inp).
         if 0 \<in> set bytes then Inl InvalidPayload
         else if \<not> path_is_absolute bytes then Inl InvalidPayload
         else Inr (Some bytes, inp))))"

definition put_webview_url :: "utf8_string option \<Rightarrow> ProtocolError + u8 list" where
  "put_webview_url url =
     (case url of
        None \<Rightarrow> Inr (put_u32 0)
      | Some url \<Rightarrow>
          if url = [] \<or> MAX_WEBVIEW_URL_BYTES < length url \<or> 0 \<in> set url
          then Inl InvalidPayload
          else Inr (put_u32 (of_nat (length url)) @ url))"

definition take_webview_url :: "u8 list \<Rightarrow> ProtocolError + utf8_string option \<times> u8 list" where
  "take_webview_url inp = and_then (take_u32 inp) (\<lambda>(n, inp).
     let len = unat n in
     if len = 0 then Inr (None, inp)
     else if MAX_WEBVIEW_URL_BYTES < len \<or> length inp < len then Inl InvalidPayload
     else
       let bytes = take len inp; rest = drop len inp in
       if \<not> utf8_valid bytes then Inl InvalidPayload
       else if 0 \<in> set bytes then Inl InvalidPayload
       else Inr (Some bytes, rest))"

definition put_metadata :: "ExecuteMetadata \<Rightarrow> ProtocolError + u8 list" where
  "put_metadata v =
     and_then (put_webview_url (webview_url v)) (\<lambda>url.
     and_then (put_output_path (staged_output v)) (\<lambda>path.
     Inr (url @ path
       @ concat (map put_u64 (blob_limits_wire v))
       @ put_u64 (blob_progress_idle_timeout_secs v)
       @ put_u64 (blob_progress_idle_timeout_nanos v)
       @ concat (map put_u64
           [max_wasm_stack_bytes v, reserved_memory_bytes v, maximum_active_roots v,
            total_fuel v, root_fuel v, child_fuel v, epoch_deadline_millis v,
            epoch_tick_millis v, maximum_epoch_registrations v, max_module_bytes v])
       @ put_u32 (max_shared_memory_pages v)
       @ put_u64 (max_guest_threads v))))"

definition take_metadata :: "u8 list \<Rightarrow> ProtocolError + ExecuteMetadata \<times> u8 list" where
  "take_metadata inp =
     and_then (take_webview_url inp) (\<lambda>(url, inp).
     and_then (take_output_path inp) (\<lambda>(path, inp).
     and_then (take_many take_u64 7 inp) (\<lambda>(limits, inp).
     and_then (take_u64 inp) (\<lambda>(secs, inp).
     and_then (take_u64 inp) (\<lambda>(nanos, inp).
     and_then (take_u64 inp) (\<lambda>(stack, inp).
     and_then (take_u64 inp) (\<lambda>(memory, inp).
     and_then (take_u64 inp) (\<lambda>(roots, inp).
     and_then (take_u64 inp) (\<lambda>(total, inp).
     and_then (take_u64 inp) (\<lambda>(root, inp).
     and_then (take_u64 inp) (\<lambda>(child, inp).
     and_then (take_u64 inp) (\<lambda>(deadline, inp).
     and_then (take_u64 inp) (\<lambda>(tick, inp).
     and_then (take_u64 inp) (\<lambda>(registrations, inp).
     and_then (take_u64 inp) (\<lambda>(module, inp).
     and_then (take_u32 inp) (\<lambda>(pages, inp).
     and_then (take_u64 inp) (\<lambda>(threads, inp).
     Inr (\<lparr>webview_url = url, staged_output = path, blob_limits_wire = limits,
           blob_progress_idle_timeout_secs = secs, blob_progress_idle_timeout_nanos = nanos,
           max_wasm_stack_bytes = stack, reserved_memory_bytes = memory,
           maximum_active_roots = roots, total_fuel = total, root_fuel = root,
           child_fuel = child, epoch_deadline_millis = deadline, epoch_tick_millis = tick,
           maximum_epoch_registrations = registrations, max_module_bytes = module,
           max_shared_memory_pages = pages, max_guest_threads = threads\<rparr>, inp))))))))))))))))))"

definition put_counters :: "FinalCounters \<Rightarrow> u8 list" where
  "put_counters v = concat (map put_u64
     [active_roots v, live_stores v, live_instances v, active_epoch_registrations v,
      live_threads v])"

definition take_counters :: "u8 list \<Rightarrow> ProtocolError + FinalCounters \<times> u8 list" where
  "take_counters inp =
     and_then (take_u64 inp) (\<lambda>(roots, inp).
     and_then (take_u64 inp) (\<lambda>(stores, inp).
     and_then (take_u64 inp) (\<lambda>(instances, inp).
     and_then (take_u64 inp) (\<lambda>(registrations, inp).
     and_then (take_u64 inp) (\<lambda>(threads, inp).
     Inr (\<lparr>active_roots = roots, live_stores = stores, live_instances = instances,
           active_epoch_registrations = registrations, live_threads = threads\<rparr>, inp))))))"

section \<open>Frames\<close>

fun Message_request_id :: "Message \<Rightarrow> u64" where
  "Message_request_id (Msg_Trace i _) = i"
| "Message_request_id (Msg_Hello i) = i"
| "Message_request_id (Msg_HelloAck i) = i"
| "Message_request_id (Msg_ExecuteAck i) = i"
| "Message_request_id (Msg_ExecuteStart i _ _) = i"
| "Message_request_id (Msg_ModuleChunk i _ _) = i"
| "Message_request_id (Msg_ExecuteEnd i) = i"
| "Message_request_id (Msg_Cancel i) = i"
| "Message_request_id (Msg_Terminal i _ _ _ _) = i"

fun Message_kind :: "Message \<Rightarrow> Kind" where
  "Message_kind (Msg_Trace _ _) = Kind_Trace"
| "Message_kind (Msg_Hello _) = Kind_Hello"
| "Message_kind (Msg_HelloAck _) = Kind_HelloAck"
| "Message_kind (Msg_ExecuteAck _) = Kind_ExecuteAck"
| "Message_kind (Msg_ExecuteStart _ _ _) = Kind_ExecuteStart"
| "Message_kind (Msg_ModuleChunk _ _ _) = Kind_ModuleChunk"
| "Message_kind (Msg_ExecuteEnd _) = Kind_ExecuteEnd"
| "Message_kind (Msg_Cancel _) = Kind_Cancel"
| "Message_kind (Msg_Terminal _ _ _ _ _) = Kind_Terminal"

definition validate_trace :: "u8 list \<Rightarrow> ProtocolError + unit" where
  "validate_trace bytes =
     (if bytes = [] \<or> MAX_TRACE_BYTES < length bytes
         \<or> \<not> list_all (\<lambda>b. b = 10 \<or> 32 \<le> b \<and> b \<le> 126) bytes
      then Inl InvalidPayload else Inr ())"

text \<open>What each message appends to the payload after its request id.\<close>

fun encode_body :: "Message \<Rightarrow> ProtocolError + u8 list" where
  "encode_body (Msg_Trace _ text) = and_then (validate_trace text) (\<lambda>_. Inr text)"
| "encode_body (Msg_ExecuteStart _ module_len metadata) =
     and_then (put_metadata metadata) (\<lambda>m. Inr (put_u64 module_len @ m))"
| "encode_body (Msg_ModuleChunk _ sequence bytes) = Inr (put_u32 sequence @ bytes)"
| "encode_body (Msg_Terminal _ kind detail diagnostic counters) =
     and_then (TerminalDetail_validate detail kind) (\<lambda>_.
     if MAX_DIAGNOSTIC_BYTES < length diagnostic then Inl DiagnosticTooLarge
     else Inr ([TerminalKind_byte kind, RootOutcome_byte (root_outcome detail)]
       @ put_u32 (capacity_rejections detail) @ put_u32 (closing_rejections detail)
       @ put_u32 (fuel_rejections detail) @ put_u32 (epoch_rejections detail)
       @ put_i32 (case status_code detail of None \<Rightarrow> NO_STATUS_CODE | Some c \<Rightarrow> c)
       @ put_u16 (of_nat (length diagnostic)) @ diagnostic @ put_counters counters))"
| "encode_body _ = Inr []"

definition encode :: "Message \<Rightarrow> ProtocolError + u8 list" where
  "encode message =
     (if Message_request_id message = 0 then Inl InvalidRequestId
      else and_then (encode_body message) (\<lambda>body.
        let payload = put_u64 (Message_request_id message) @ body in
        if MAX_FRAME_PAYLOAD < length payload then Inl FrameTooLarge
        else if u32_max < length payload then Inl FrameTooLarge
        else Inr (MAGIC @ put_u16 VERSION @ [Kind_byte (Message_kind message)]
               @ put_u32 (of_nat (length payload)) @ payload)))"

text \<open>The header checks that \<^verbatim>\<open>decode\<close> and \<^verbatim>\<open>read_message\<close> both make.\<close>

definition decode_header :: "u8 list \<Rightarrow> ProtocolError + Kind \<times> nat" where
  "decode_header frame =
     (if take 4 frame \<noteq> MAGIC then Inl BadMagic
      else and_then (get_u16 (take 2 (drop 4 frame))) (\<lambda>version.
        if version \<noteq> VERSION then Inl UnsupportedVersion
        else and_then (Kind_try_from (frame ! 6)) (\<lambda>kind.
        and_then (get_u32 (take 4 (drop 7 frame))) (\<lambda>len.
        if usize_max < unat len then Inl LengthOverflow
        else if MAX_FRAME_PAYLOAD < unat len then Inl FrameTooLarge
        else Inr (kind, unat len)))))"

text \<open>The match on the kind: the message and the input it leaves unread.\<close>

fun decode_body :: "Kind \<Rightarrow> u64 \<Rightarrow> u8 list \<Rightarrow> ProtocolError + Message \<times> u8 list" where
  "decode_body Kind_Trace request_id inp =
     and_then (validate_trace inp) (\<lambda>_.
     if utf8_valid inp then Inr (Msg_Trace request_id inp, []) else Inl InvalidPayload)"
| "decode_body Kind_Hello request_id inp = Inr (Msg_Hello request_id, inp)"
| "decode_body Kind_HelloAck request_id inp = Inr (Msg_HelloAck request_id, inp)"
| "decode_body Kind_ExecuteAck request_id inp = Inr (Msg_ExecuteAck request_id, inp)"
| "decode_body Kind_ExecuteStart request_id inp =
     and_then (take_u64 inp) (\<lambda>(module_len, inp).
     and_then (take_metadata inp) (\<lambda>(metadata, inp).
     if WORKER_PROTOCOL_MAX_MODULE_BYTES < module_len \<or> max_module_bytes metadata < module_len
     then Inl ModuleTooLarge
     else Inr (Msg_ExecuteStart request_id module_len metadata, inp)))"
| "decode_body Kind_ModuleChunk request_id inp =
     and_then (take_u32 inp) (\<lambda>(sequence, inp).
     Inr (Msg_ModuleChunk request_id sequence inp, []))"
| "decode_body Kind_ExecuteEnd request_id inp = Inr (Msg_ExecuteEnd request_id, inp)"
| "decode_body Kind_Cancel request_id inp = Inr (Msg_Cancel request_id, inp)"
| "decode_body Kind_Terminal request_id inp =
     and_then (take_u8 inp) (\<lambda>(k, inp). and_then (TerminalKind_try_from k) (\<lambda>terminal.
     and_then (take_u8 inp) (\<lambda>(r, inp). and_then (RootOutcome_try_from r) (\<lambda>outcome.
     and_then (take_u32 inp) (\<lambda>(capacity, inp).
     and_then (take_u32 inp) (\<lambda>(closing, inp).
     and_then (take_u32 inp) (\<lambda>(fuel, inp).
     and_then (take_u32 inp) (\<lambda>(epoch, inp).
     and_then (take_i32 inp) (\<lambda>(code, inp).
     let detail = \<lparr>root_outcome = outcome, capacity_rejections = capacity,
           closing_rejections = closing, fuel_rejections = fuel, epoch_rejections = epoch,
           status_code = (if code = NO_STATUS_CODE then None else Some code)\<rparr> in
     and_then (TerminalDetail_validate detail terminal) (\<lambda>_.
     and_then (take_u16 inp) (\<lambda>(n, inp).
     let text_len = unat n in
     if MAX_DIAGNOSTIC_BYTES < text_len then Inl DiagnosticTooLarge
     else and_then (take_bytes text_len inp) (\<lambda>(text, inp).
     if \<not> utf8_valid text then Inl InvalidPayload
     else and_then (take_counters inp) (\<lambda>(counters, inp).
     Inr (Msg_Terminal request_id terminal detail text counters, inp))))))))))))))"

definition decode :: "u8 list \<Rightarrow> ProtocolError + Message" where
  "decode frame =
     (if length frame < HEADER_LEN then Inl Truncated
      else and_then (decode_header frame) (\<lambda>(kind, len).
        and_then (ok_or LengthOverflow (checked_add HEADER_LEN len)) (\<lambda>end.
        if length frame < end then Inl Truncated
        else if length frame \<noteq> end then Inl TrailingBytes
        else and_then (take_u64 (drop HEADER_LEN frame)) (\<lambda>(request_id, inp).
          if request_id = 0 then Inl InvalidRequestId
          else and_then (decode_body kind request_id inp) (\<lambda>(message, inp).
            if inp \<noteq> [] then Inl TrailingBytes else Inr message)))))"

text \<open>
  The stream reader: the header, its checks, then exactly the announced payload. The result
  carries the unread stream; a stream that ends early is \<^verbatim>\<open>Truncated\<close>.
\<close>

definition read_message :: "u8 list \<Rightarrow> ProtocolError + Message \<times> u8 list" where
  "read_message stream =
     (if length stream < HEADER_LEN then Inl Truncated
      else let header = take HEADER_LEN stream in
        and_then (decode_header header) (\<lambda>(kind, len).
        if kind = Kind_Trace \<and> MAX_TRACE_BYTES + 8 < len then Inl FrameTooLarge
        else and_then (ok_or LengthOverflow (checked_add HEADER_LEN len)) (\<lambda>total.
          if length stream < total then Inl Truncated
          else and_then (decode (take total stream)) (\<lambda>m. Inr (m, drop total stream)))))"

section \<open>Reading back single fields\<close>

lemma take_bytes_append [codec_simps]:
  "length bs = n \<Longrightarrow> take_bytes n (bs @ rest) = Inr (bs, rest)"
  by (simp add: take_bytes_def)

lemma take_bytes_Inr_iff:
  "take_bytes n inp = Inr (bs, rest) \<longleftrightarrow> inp = bs @ rest \<and> length bs = n"
  by (auto simp: take_bytes_def split: if_splits)

lemma take_u8_Cons [codec_simps]: "take_u8 (b # rest) = Inr (b, rest)"
  by (simp add: take_u8_def take_bytes_def)

lemma length_put [simp]:
  "length (put_u16 a) = 2" "length (put_u32 b) = 4" "length (put_u64 c) = 8" "length (put_i32 d) = 4"
  by (simp_all add: put_u16_def put_u32_def put_u64_def put_i32_def)

lemma get_put_u16 [codec_simps]: "get_u16 (put_u16 v) = Inr v"
  by (simp add: get_u16_def put_u16_def from_to_le_bytes)

lemma get_put_u32 [codec_simps]: "get_u32 (put_u32 v) = Inr v"
  by (simp add: get_u32_def put_u32_def from_to_le_bytes)

lemma take_put_u16 [codec_simps]: "take_u16 (put_u16 v @ rest) = Inr (v, rest)"
  by (simp add: take_u16_def take_bytes_append get_put_u16)

lemma take_put_u32 [codec_simps]: "take_u32 (put_u32 v @ rest) = Inr (v, rest)"
  by (simp add: take_u32_def take_bytes_append get_put_u32)

lemma take_put_u64 [codec_simps]: "take_u64 (put_u64 v @ rest) = Inr (v, rest)"
  by (simp add: take_u64_def take_bytes_append) (simp add: put_u64_def from_to_le_bytes)

lemma take_put_i32 [codec_simps]: "take_i32 (put_i32 v @ rest) = Inr (v, rest)"
  by (simp add: take_i32_def take_bytes_append) (simp add: put_i32_def from_to_le_bytes)

lemma put_get_u16: "get_u16 bs = Inr v \<longleftrightarrow> bs = put_u16 v"
  using to_from_le_bytes [of bs, where 'a = 16]
  by (auto simp: get_u16_def put_u16_def from_to_le_bytes split: if_splits)

lemma put_get_u32: "get_u32 bs = Inr v \<longleftrightarrow> bs = put_u32 v"
  using to_from_le_bytes [of bs, where 'a = 32]
  by (auto simp: get_u32_def put_u32_def from_to_le_bytes split: if_splits)

lemma take_u8_Inr_iff: "take_u8 inp = Inr (v, rest) \<longleftrightarrow> inp = v # rest"
  by (cases inp) (auto simp: take_u8_def take_bytes_def)

lemma take_u16_Inr_iff: "take_u16 inp = Inr (v, rest) \<longleftrightarrow> inp = put_u16 v @ rest"
  by (auto simp: take_u16_def and_then_Inr_iff take_bytes_Inr_iff put_get_u16)

lemma take_u32_Inr_iff: "take_u32 inp = Inr (v, rest) \<longleftrightarrow> inp = put_u32 v @ rest"
  by (auto simp: take_u32_def and_then_Inr_iff take_bytes_Inr_iff put_get_u32)

lemma to_from_le_bytes_n:
  "length bs = n \<Longrightarrow> 8 * n \<le> LENGTH('a) \<Longrightarrow>
   to_le_bytes n (from_le_bytes bs :: 'a::len word) = bs"
  using to_from_le_bytes [of bs, where 'a = 'a] by blast

lemma take_u64_Inr_iff: "take_u64 inp = Inr (v, rest) \<longleftrightarrow> inp = put_u64 v @ rest"
proof
  assume "take_u64 inp = Inr (v, rest)"
  then show "inp = put_u64 v @ rest"
    by (auto simp: take_u64_def and_then_Inr_iff take_bytes_Inr_iff put_u64_def
        to_from_le_bytes_n split: if_splits)
qed (simp add: take_put_u64)

lemma take_i32_Inr_iff: "take_i32 inp = Inr (v, rest) \<longleftrightarrow> inp = put_i32 v @ rest"
proof
  assume "take_i32 inp = Inr (v, rest)"
  then show "inp = put_i32 v @ rest"
    by (auto simp: take_i32_def and_then_Inr_iff take_bytes_Inr_iff put_i32_def
        to_from_le_bytes_n split: if_splits)
qed (simp add: take_put_i32)

lemmas take_iffs = take_u8_Inr_iff take_u16_Inr_iff take_u32_Inr_iff take_u64_Inr_iff
  take_i32_Inr_iff take_bytes_Inr_iff

lemma unat_small_u32: "n \<le> 65536 \<Longrightarrow> unat (of_nat n :: u32) = n"
  by (simp add: unat_of_nat)

lemma unat_small_u16: "n \<le> 1024 \<Longrightarrow> unat (of_nat n :: u16) = n"
  by (simp add: unat_of_nat)

lemma path_is_absolute_Nil [simp]: "\<not> path_is_absolute []"
  by (simp add: path_is_absolute_def)

lemma take_put_output_path [codec_simps]:
  "put_output_path p = Inr bs \<Longrightarrow> take_output_path (bs @ rest) = Inr (p, rest)"
  by (auto simp: put_output_path_def take_output_path_def codec_simps MAX_OUTPUT_PATH_BYTES_def
      unat_small_u32 Let_def split: option.splits if_splits)

definition url_valid :: "utf8_string option \<Rightarrow> bool" where
  "url_valid url \<longleftrightarrow> (case url of None \<Rightarrow> True | Some u \<Rightarrow> utf8_valid u)"

lemma take_put_webview_url [codec_simps]:
  "url_valid u \<Longrightarrow> put_webview_url u = Inr bs \<Longrightarrow> take_webview_url (bs @ rest) = Inr (u, rest)"
  by (auto simp: put_webview_url_def take_webview_url_def codec_simps MAX_WEBVIEW_URL_BYTES_def
      unat_small_u32 url_valid_def split: option.splits if_splits)

lemma put_take_output_path:
  "take_output_path inp = Inr (p, rest) \<Longrightarrow> \<exists>bs. put_output_path p = Inr bs \<and> inp = bs @ rest"
  by (auto simp: take_output_path_def put_output_path_def and_then_Inr_iff take_iffs Let_def
      unat_eq_0 split: if_splits option.splits)

lemma put_take_webview_url:
  "take_webview_url inp = Inr (u, rest) \<Longrightarrow>
   url_valid u \<and> (\<exists>bs. put_webview_url u = Inr bs \<and> inp = bs @ rest)"
  by (auto simp: take_webview_url_def put_webview_url_def and_then_Inr_iff take_iffs Let_def
      unat_eq_0 url_valid_def min_def split: if_splits option.splits)

interpretation u64_codec: codec "\<lambda>v. Inr (put_u64 v)" take_u64 "\<lambda>_. True"
  by unfold_locales (auto simp: codec_simps)

interpretation path_codec: codec put_output_path take_output_path "\<lambda>_. True"
  by unfold_locales (simp add: codec_simps)

interpretation url_codec: codec put_webview_url take_webview_url url_valid
  by unfold_locales (simp add: codec_simps)

lemma take_many_put_u64 [codec_simps]:
  "length xs = n \<Longrightarrow> take_many take_u64 n (concat (map put_u64 xs) @ rest) = Inr (xs, rest)"
  using u64_codec.take_many_put [of xs put_u64 rest] by simp

lemma take_many_u64_inverse:
  "take_many take_u64 n inp = Inr (xs, rest) \<Longrightarrow>
   length xs = n \<and> inp = concat (map put_u64 xs) @ rest"
  by (rule u64_codec.take_many_inverse) (simp_all add: take_iffs)

definition metadata_valid :: "ExecuteMetadata \<Rightarrow> bool" where
  "metadata_valid m \<longleftrightarrow> url_valid (webview_url m) \<and> length (blob_limits_wire m) = 7"

lemma take_put_metadata [codec_simps]:
  "metadata_valid m \<Longrightarrow> put_metadata m = Inr bs \<Longrightarrow> take_metadata (bs @ rest) = Inr (m, rest)"
  by (auto simp: put_metadata_def take_metadata_def metadata_valid_def and_then_Inr_iff codec_simps)

lemma put_take_metadata:
  "take_metadata inp = Inr (m, rest) \<Longrightarrow>
   metadata_valid m \<and> (\<exists>bs. put_metadata m = Inr bs \<and> inp = bs @ rest)"
  by (auto simp: put_metadata_def take_metadata_def metadata_valid_def and_then_Inr_iff take_iffs
      dest!: put_take_webview_url put_take_output_path take_many_u64_inverse)

lemma take_put_counters [codec_simps]: "take_counters (put_counters c @ rest) = Inr (c, rest)"
  by (simp add: put_counters_def take_counters_def codec_simps)

lemma take_counters_Inr_iff: "take_counters inp = Inr (c, rest) \<longleftrightarrow> inp = put_counters c @ rest"
proof
  assume "take_counters inp = Inr (c, rest)"
  then show "inp = put_counters c @ rest"
    by (auto simp: put_counters_def take_counters_def and_then_Inr_iff take_iffs)
qed (simp add: take_put_counters)

interpretation metadata_codec: codec put_metadata take_metadata metadata_valid
  by unfold_locales (simp add: codec_simps)

interpretation counters_codec: codec "\<lambda>c. Inr (put_counters c)" take_counters "\<lambda>_. True"
  by unfold_locales (auto simp: codec_simps)
section \<open>Whole frames\<close>

lemma Kind_try_from_byte [codec_simps]: "Kind_try_from (Kind_byte k) = Inr k"
  by (cases k) (simp_all add: Kind_try_from_def)

lemma TerminalKind_try_from_byte [codec_simps]:
  "TerminalKind_try_from (TerminalKind_byte k) = Inr k"
  by (cases k) (simp_all add: TerminalKind_try_from_def)

lemma RootOutcome_try_from_byte [codec_simps]:
  "RootOutcome_try_from (RootOutcome_byte r) = Inr r"
  by (cases r) (simp_all add: RootOutcome_try_from_def)

lemma Kind_try_from_Inr_iff: "Kind_try_from b = Inr k \<longleftrightarrow> b = Kind_byte k"
  by (auto simp: codec_simps) (auto simp: Kind_try_from_def split: if_splits)

lemma TerminalKind_try_from_Inr_iff: "TerminalKind_try_from b = Inr k \<longleftrightarrow> b = TerminalKind_byte k"
  by (auto simp: codec_simps) (auto simp: TerminalKind_try_from_def split: if_splits)

lemma RootOutcome_try_from_Inr_iff: "RootOutcome_try_from b = Inr r \<longleftrightarrow> b = RootOutcome_byte r"
  by (auto simp: codec_simps) (auto simp: RootOutcome_try_from_def split: if_splits)

text \<open>
  What the types of the source guarantee and the wire can carry: strings are UTF-8, the
  limits array has seven entries, a module fits both ceilings and no report uses the code
  that stands for "none".
\<close>

fun message_valid :: "Message \<Rightarrow> bool" where
  "message_valid (Msg_ExecuteStart _ module_len m) \<longleftrightarrow>
     metadata_valid m \<and> module_len \<le> WORKER_PROTOCOL_MAX_MODULE_BYTES
     \<and> module_len \<le> max_module_bytes m"
| "message_valid (Msg_Terminal _ _ detail diagnostic _) \<longleftrightarrow>
     utf8_valid diagnostic \<and> status_code detail \<noteq> Some NO_STATUS_CODE"
| "message_valid _ \<longleftrightarrow> True"

lemma validate_trace_utf8: "validate_trace bs = Inr () \<Longrightarrow> utf8_valid bs"
proof (rule ascii_utf8_valid)
  assume "validate_trace bs = Inr ()"
  then have "list_all (\<lambda>b. b = 10 \<or> 32 \<le> b \<and> b \<le> 126) bs"
    by (simp add: validate_trace_def split: if_splits)
  then show "list_all (\<lambda>b. b < 0x80) bs"
    by (rule list.pred_mono_strong) (auto intro: order_le_less_trans [of _ 126])
qed

lemma decode_encode_body:
  "message_valid m \<Longrightarrow> encode_body m = Inr bs \<Longrightarrow>
   decode_body (Message_kind m) (Message_request_id m) bs = Inr (m, [])"
proof (cases m)
  case (Msg_Trace i t)
  moreover assume "encode_body m = Inr bs"
  ultimately show ?thesis
    by (auto simp: and_then_Inr_iff validate_trace_utf8)
next
  case (Msg_ExecuteStart i n md)
  moreover assume "message_valid m" "encode_body m = Inr bs"
  ultimately show ?thesis
    using take_put_metadata [of md _ "[]"] by (auto simp: and_then_Inr_iff codec_simps not_less)
next
  case (Msg_Terminal i k d t c)
  moreover assume "message_valid m" and enc: "encode_body m = Inr bs"
  ultimately have ok: "utf8_valid t" "status_code d \<noteq> Some NO_STATUS_CODE"
      "TerminalDetail_validate d k = Inr ()" "length t \<le> 1024"
    by (auto simp: and_then_Inr_iff MAX_DIAGNOSTIC_BYTES_def split: if_splits)
  show ?thesis
  proof (cases d)
    case (fields r ca cl fu ep sc)
    with Msg_Terminal enc ok show ?thesis
      using take_put_counters [of c "[]"]
      by (cases sc)
        (auto simp: codec_simps unat_small_u16 MAX_DIAGNOSTIC_BYTES_def Let_def)
  qed
qed (auto simp: codec_simps)

lemma encode_decode_body:
  "decode_body k i inp = Inr (m, rest) \<Longrightarrow>
   message_valid m \<and> Message_kind m = k \<and> Message_request_id m = i
   \<and> (\<exists>bs. encode_body m = Inr bs \<and> inp = bs @ rest)"
proof (cases k)
  case Kind_ExecuteStart
  moreover assume "decode_body k i inp = Inr (m, rest)"
  ultimately show ?thesis
    by (auto simp: and_then_Inr_iff take_iffs not_less split: if_splits dest!: put_take_metadata)
next
  case Kind_Terminal
  moreover assume "decode_body k i inp = Inr (m, rest)"
  ultimately show ?thesis
    by (auto simp: and_then_Inr_iff take_iffs take_counters_Inr_iff Let_def
        TerminalKind_try_from_Inr_iff RootOutcome_try_from_Inr_iff split: if_splits)
qed (auto simp: and_then_Inr_iff take_iffs split: if_splits)

definition frame_header :: "Kind \<Rightarrow> nat \<Rightarrow> u8 list" where
  "frame_header k n = MAGIC @ put_u16 VERSION @ [Kind_byte k] @ put_u32 (of_nat n)"

lemma length_MAGIC [simp]: "length MAGIC = 4"
  by (simp add: MAGIC_def)

lemma length_frame_header [simp]: "length (frame_header k n) = 11"
  by (simp add: frame_header_def)

lemma list_split_at:
  "length frame \<ge> n \<Longrightarrow> \<exists>xs ys. frame = xs @ ys \<and> length xs = n"
  by (rule exI [of _ "take n frame"], rule exI [of _ "drop n frame"]) simp

lemma decode_header_frame_header [codec_simps]:
  "n \<le> MAX_FRAME_PAYLOAD \<Longrightarrow> decode_header (frame_header k n @ rest) = Inr (k, n)"
proof -
  assume n: "n \<le> MAX_FRAME_PAYLOAD"
  then have u: "unat (of_nat n :: u32) = n"
    by (simp add: unat_of_nat MAX_FRAME_PAYLOAD_def)
  from n u show ?thesis
    by (simp add: decode_header_def frame_header_def codec_simps nth_append usize_max_def
        MAX_FRAME_PAYLOAD_def)
qed

lemma decode_header_inverse:
  assumes "11 \<le> length frame" and "decode_header frame = Inr (k, n)"
  shows "n \<le> MAX_FRAME_PAYLOAD \<and> (\<exists>rest. frame = frame_header k n @ rest)"
proof -
  from assms(1) obtain a rest where "frame = a @ rest" "length a = 11"
    using list_split_at by blast
  then obtain a0 a1 a2 a3 a4 a5 a6 a7 a8 a9 a10 where
    f: "frame = [a0,a1,a2,a3,a4,a5,a6,a7,a8,a9,a10] @ rest"
    by (auto simp: length_Suc_conv numeral_eq_Suc)
  from assms(2) obtain len where
    "[a0,a1,a2,a3] = MAGIC" "get_u16 [a4,a5] = Inr VERSION" "Kind_try_from a6 = Inr k"
    "get_u32 [a7,a8,a9,a10] = Inr len" "n = unat len" "n \<le> MAX_FRAME_PAYLOAD"
    by (auto simp: f decode_header_def and_then_Inr_iff MAGIC_def numeral_eq_Suc split: if_splits)
  then show ?thesis
    by (auto simp: f frame_header_def MAGIC_def Kind_try_from_Inr_iff put_get_u16 put_get_u32
        intro!: exI [of _ rest])
qed

lemma encode_framed:
  assumes "encode m = Inr frame"
  obtains body where "encode_body m = Inr body" "Message_request_id m \<noteq> 0"
    "8 + length body \<le> MAX_FRAME_PAYLOAD"
    "frame = frame_header (Message_kind m) (8 + length body) @ put_u64 (Message_request_id m) @ body"
  using assms
  by (auto simp: encode_def and_then_Inr_iff Let_def frame_header_def split: if_splits)

lemma decode_framed:
  assumes len: "8 + length body \<le> MAX_FRAME_PAYLOAD" and "i \<noteq> 0"
  shows "decode (frame_header k (8 + length body) @ put_u64 i @ body) =
     and_then (decode_body k i body)
       (\<lambda>(message, inp). if inp \<noteq> [] then Inl TrailingBytes else Inr message)"
proof -
  have "HEADER_LEN + (8 + length body) \<le> usize_max"
    using len by (simp add: HEADER_LEN_def MAX_FRAME_PAYLOAD_def usize_max_def)
  with decode_header_frame_header [OF len, of k] assms(2) show ?thesis
    by (simp add: decode_def HEADER_LEN_def codec_simps checked_add_def ok_or_def)
qed

lemma decode_encode:
  assumes "message_valid m" and "encode m = Inr frame"
  shows "decode frame = Inr m"
  using assms(2)
proof (rule encode_framed)
  fix body assume "encode_body m = Inr body" "Message_request_id m \<noteq> 0"
    "8 + length body \<le> MAX_FRAME_PAYLOAD"
    "frame = frame_header (Message_kind m) (8 + length body) @ put_u64 (Message_request_id m) @ body"
  with decode_encode_body [OF assms(1)] show ?thesis by (simp add: decode_framed)
qed

lemma encode_decode:
  assumes "decode frame = Inr m"
  shows "encode m = Inr frame \<and> message_valid m"
proof -
  from assms obtain k n where head: "11 \<le> length frame" "decode_header frame = Inr (k, n)"
    and len: "length frame = 11 + n"
    and id: "Message_request_id m \<noteq> 0"
    and body: "\<exists>i inp. take_u64 (drop 11 frame) = Inr (i, inp) \<and> i \<noteq> 0
                \<and> decode_body k i inp = Inr (m, [])"
    by (auto simp: decode_def and_then_Inr_iff HEADER_LEN_def ok_or_def not_less
        split: if_splits option.splits dest: encode_decode_body)
  from decode_header_inverse [OF head] obtain rest
    where n: "n \<le> MAX_FRAME_PAYLOAD" and f: "frame = frame_header k n @ rest" by blast
  from body f obtain inp where "rest = put_u64 (Message_request_id m) @ inp"
    "decode_body k (Message_request_id m) inp = Inr (m, [])"
    by (auto simp: take_iffs dest: encode_decode_body)
  moreover from this(2) have "message_valid m" "Message_kind m = k" "encode_body m = Inr inp"
    by (auto dest: encode_decode_body)
  moreover from len f have "length rest = n" by simp
  ultimately show ?thesis
    using id n f
    by (auto simp: encode_def frame_header_def Let_def u32_max_def MAX_FRAME_PAYLOAD_def)
qed

lemma encode_length:
  "encode m = Inr frame \<Longrightarrow> 19 \<le> length frame \<and> length frame \<le> 11 + MAX_FRAME_PAYLOAD"
  by (auto simp: encode_def and_then_Inr_iff Let_def split: if_splits)

lemma trace_frame_length:
  "encode m = Inr frame \<Longrightarrow> Message_kind m = Kind_Trace \<Longrightarrow> length frame \<le> 11 + (MAX_TRACE_BYTES + 8)"
  by (cases m)
    (auto simp: encode_def and_then_Inr_iff Let_def validate_trace_def split: if_splits)

lemma read_message_frame:
  assumes "encode m = Inr frame"
  shows "read_message (frame @ rest) = and_then (decode frame) (\<lambda>m. Inr (m, rest))"
proof -
  define n where "n = length frame - 11"
  from encode_length [OF assms] have n: "n \<le> MAX_FRAME_PAYLOAD" "length frame = 11 + n"
    by (auto simp: n_def)
  from assms obtain body where f: "frame = frame_header (Message_kind m) n @ body"
    by (auto simp: encode_def and_then_Inr_iff Let_def frame_header_def n_def split: if_splits)
  have "\<not> (Message_kind m = Kind_Trace \<and> MAX_TRACE_BYTES + 8 < n)"
    using trace_frame_length [OF assms] n by auto
  moreover have "take 11 (frame @ rest) = frame_header (Message_kind m) n @ []"
    by (simp add: f)
  moreover have "11 + n \<le> usize_max"
    using n by (simp add: usize_max_def MAX_FRAME_PAYLOAD_def)
  ultimately show ?thesis
    using n decode_header_frame_header [OF n(1), of "Message_kind m" "[]"]
    by (auto simp: read_message_def HEADER_LEN_def checked_add_def ok_or_def)
qed

lemma read_message_encode:
  "message_valid m \<Longrightarrow> encode m = Inr frame \<Longrightarrow> read_message (frame @ rest) = Inr (m, rest)"
  by (simp add: read_message_frame decode_encode)

interpretation frame_codec: codec encode read_message message_valid
  by unfold_locales (rule read_message_encode)

lemma header_of_encode:
  assumes "encode m = Inr frame" and n: "11 \<le> n"
  shows "decode_header (take 11 (take n frame)) = Inr (Message_kind m, length frame - 11)"
proof -
  from assms(1) obtain body where f: "frame = frame_header (Message_kind m) (length frame - 11) @ body"
    by (auto simp: encode_def and_then_Inr_iff Let_def frame_header_def split: if_splits)
  then have "take 11 (take n frame) = frame_header (Message_kind m) (length frame - 11) @ []"
    using n by (metis append_Nil2 append_eq_conv_conj length_frame_header min.absorb1 take_take)
  with encode_length [OF assms(1)] show ?thesis
    using decode_header_frame_header [of "length frame - 11" "Message_kind m" "[]"] by auto
qed

section \<open>Writing to a stream\<close>

text \<open>
  A writer is what its \<^verbatim>\<open>write_all\<close> and \<^verbatim>\<open>flush\<close> do to its state; both report
  success. \<open>pipe_write_all\<close> and \<open>pipe_flush\<close> are the writer that only accumulates.
\<close>

definition write_message :: "('w \<Rightarrow> u8 list \<Rightarrow> bool \<times> 'w) \<Rightarrow> ('w \<Rightarrow> bool \<times> 'w) \<Rightarrow> Message
    \<Rightarrow> ('w, ProtocolError, unit) state_result" where
  "write_message write_all flush message w =
     (case encode message of
        Inl e \<Rightarrow> (Inl e, w)
      | Inr frame \<Rightarrow>
          let (written, w) = write_all w frame in
          if \<not> written then (Inl InvalidPayload, w)
          else let (flushed, w) = flush w in
            ((if flushed then Inr () else Inl InvalidPayload), w))"

definition pipe_write_all :: "u8 list \<Rightarrow> u8 list \<Rightarrow> bool \<times> u8 list" where
  "pipe_write_all w bs = (True, w @ bs)"

definition pipe_flush :: "u8 list \<Rightarrow> bool \<times> u8 list" where
  "pipe_flush w = (True, w)"

abbreviation pipe_write :: "Message \<Rightarrow> (u8 list, ProtocolError, unit) state_result" where
  "pipe_write \<equiv> write_message pipe_write_all pipe_flush"

primrec pipe_write_list :: "Message list \<Rightarrow> (u8 list, ProtocolError, unit) state_result" where
  "pipe_write_list [] = s_return ()"
| "pipe_write_list (m # ms) = s_bind (pipe_write m) (\<lambda>_. pipe_write_list ms)"

lemma pipe_write_Inr_iff:
  "pipe_write m w = (Inr (), w') \<longleftrightarrow> (\<exists>frame. encode m = Inr frame \<and> w' = w @ frame)"
  by (auto simp: write_message_def pipe_write_all_def pipe_flush_def split: sum.splits)

lemma pipe_write_list_Inr:
  "pipe_write_list ms w = (Inr (), w') \<Longrightarrow>
   (\<forall>m \<in> set ms. encode m = Inr (projr (encode m))) \<and> w' = w @ concat (map (projr \<circ> encode) ms)"
proof (induction ms arbitrary: w)
  case Nil
  then show ?case by (simp add: s_return_def)
next
  case (Cons m ms)
  then obtain frame where "encode m = Inr frame" "pipe_write_list ms (w @ frame) = (Inr (), w')"
    by (auto simp: s_bind_def pipe_write_Inr_iff split: prod.splits sum.splits)
  with Cons.IH [of "w @ frame"] show ?case by (simp add: comp_def)
qed

section \<open>Properties of the framing\<close>

text \<open>C23: decoding accepts exactly the frames that encoding produces, and gives back the message
  that was encoded: the wire form is canonical, and nothing else is accepted.\<close>

theorem frame_canonical:
  "decode frame = Inr m \<longleftrightarrow> message_valid m \<and> encode m = Inr frame"
  using decode_encode encode_decode by blast

text \<open>C30: a sequence of messages that the wire can carry (an execution start has a module length within
  both ceilings, and a terminal report does not use the status code that stands for none; the rest
  of \<^const>\<open>message_valid\<close> is what the source's types guarantee) is, once written to a pipe, read back
  as the same sequence, and the reader stops at the end of the last frame.\<close>

theorem stream_round_trip:
  assumes "list_all message_valid ms" and "pipe_write_list ms [] = (Inr (), w)"
  shows "take_many read_message (length ms) (w @ rest) = Inr (ms, rest)"
  using frame_codec.take_many_put [of ms "projr \<circ> encode" rest] pipe_write_list_Inr [OF assms(2)]
    assms(1) by (auto simp: list_all_iff)

theorem stream_round_trip_witness:
  "take_many read_message (length [Msg_Hello 5, Msg_Trace 5 [104, 105]])
     (snd (pipe_write_list [Msg_Hello 5, Msg_Trace 5 [104, 105]] []) @ [9]) =
   Inr ([Msg_Hello 5, Msg_Trace 5 [104, 105]], [9])"
  using stream_round_trip [of "[Msg_Hello 5, Msg_Trace 5 [104, 105]]"
      "snd (pipe_write_list [Msg_Hello 5, Msg_Trace 5 [104, 105]] [])" "[9]"]
  by (simp add: s_bind_def s_return_def write_message_def pipe_write_all_def pipe_flush_def
      encode_def Let_def validate_trace_def MAX_TRACE_BYTES_def MAX_FRAME_PAYLOAD_def u32_max_def)

text \<open>C37: a stream that ends inside a frame is reported as truncated, at every position.\<close>

theorem truncated_frame:
  assumes "encode m = Inr frame" and "n < length frame"
  shows "read_message (take n frame) = Inl Truncated"
proof (cases "n < 11")
  case True
  with assms(2) show ?thesis by (simp add: read_message_def HEADER_LEN_def)
next
  case False
  then have "11 \<le> n" by simp
  moreover have "\<not> (Message_kind m = Kind_Trace \<and> MAX_TRACE_BYTES + 8 < length frame - 11)"
    using trace_frame_length [OF assms(1)] by auto
  moreover have "checked_add 11 (length frame - 11) = Some (length frame)"
    using encode_length [OF assms(1)] by (auto simp: usize_max_def MAX_FRAME_PAYLOAD_def)
  ultimately show ?thesis
    using header_of_encode [OF assms(1), of n] assms(2)
    by (simp add: read_message_def HEADER_LEN_def del: checked_add_Some)
qed

theorem truncated_frame_witness:
  "read_message (take 18 (projr (encode (Msg_Cancel 3)))) = Inl Truncated"
  by (rule truncated_frame [of "Msg_Cancel 3"])
    (simp_all add: encode_def Let_def MAX_FRAME_PAYLOAD_def u32_max_def)

text \<open>
  The arm for child failures constrains only the outcome and the counters, so a report with a
  status code goes on to the last arm, which refuses any status code.
\<close>

lemma child_failure_code_refused:
  "status_code detail = Some c \<Longrightarrow> i \<noteq> 0 \<Longrightarrow>
   encode (Msg_Terminal i TK_ChildFailure detail diagnostic counters) = Inl InvalidTerminal"
  by (simp add: encode_def TerminalDetail_validate_def Let_def)

end
