(* ===== verification/Worker_Child.thy ===== *)
theory Worker_Child
  imports Worker_Protocol
begin

text \<open>
  The worker's side of a request: the module assembler
  (\<^verbatim>\<open>ModuleAssembler\<close> in \<^verbatim>\<open>src/src/wasm/worker_protocol.rs\<close>), the request
  sequence \<^verbatim>\<open>run_with_io\<close> and the reporting of the outcome
  (\<^verbatim>\<open>src/src/bin/kernal-wasm-worker.rs\<close>). The reader is the byte string still to be
  read; the writer is a parameter, as in the generic source.
\<close>

section \<open>The module assembler\<close>

record ModuleAssembler =
  asm_request_id :: u64
  asm_declared :: nat
  asm_caller_max :: nat
  asm_next :: u32
  asm_ended :: bool
  asm_terminal :: bool
  asm_module :: "u8 list"

definition assembler_start :: "u64 \<Rightarrow> u64 \<Rightarrow> u64 \<Rightarrow> ProtocolError + ModuleAssembler" where
  "assembler_start request_id module_len caller_max =
     (if request_id = 0 then Inl InvalidRequestId
      else if WORKER_PROTOCOL_MAX_MODULE_BYTES < module_len \<or> caller_max < module_len
        then Inl ModuleTooLarge
      else if usize_max < unat module_len then Inl LengthOverflow
      else if usize_max < unat caller_max then Inl LengthOverflow
      else Inr \<lparr>asm_request_id = request_id, asm_declared = unat module_len,
             asm_caller_max = unat caller_max, asm_next = 0, asm_ended = False,
             asm_terminal = False, asm_module = []\<rparr>)"

definition accept_chunk :: "u32 \<Rightarrow> u8 list \<Rightarrow> (ModuleAssembler, ProtocolError, u8 list option) state_result" where
  "accept_chunk sequence bytes a =
     (if asm_ended a \<or> sequence \<noteq> asm_next a
         \<or> saturating_sub MAX_FRAME_PAYLOAD 12 < length bytes
      then (Inl Sequence, a)
      else case checked_add (length (asm_module a)) (length bytes) of
        None \<Rightarrow> (Inl LengthOverflow, a)
      | Some n \<Rightarrow>
          if asm_declared a < n \<or> asm_caller_max a < n then (Inl ModuleTooLarge, a)
          else
            let a = a\<lparr>asm_module := asm_module a @ bytes\<rparr> in
            if asm_next a = - 1 then (Inl LengthOverflow, a)
            else (Inr None, a\<lparr>asm_next := asm_next a + 1\<rparr>))"

fun accept :: "Message \<Rightarrow> (ModuleAssembler, ProtocolError, u8 list option) state_result" where
  "accept message a =
     (if Message_request_id message \<noteq> asm_request_id a then (Inl WrongRequestId, a)
      else case message of
        Msg_ModuleChunk _ sequence bytes \<Rightarrow> accept_chunk sequence bytes a
      | Msg_ExecuteEnd _ \<Rightarrow>
          if asm_ended a \<or> length (asm_module a) \<noteq> asm_declared a
          then (Inl UnexpectedMessage, a)
          else (Inr (Some (asm_module a)), a\<lparr>asm_ended := True, asm_module := []\<rparr>)
      | Msg_Terminal _ _ _ _ _ \<Rightarrow>
          if \<not> asm_ended a then (Inl UnexpectedMessage, a)
          else if asm_terminal a then (Inl DuplicateTerminal, a)
          else (Inr None, a\<lparr>asm_terminal := True\<rparr>)
      | _ \<Rightarrow> (Inl UnexpectedMessage, a))"

declare accept.simps [simp del]

section \<open>The request sequence\<close>

text \<open>\<^verbatim>\<open>Err(String)\<close> of the worker, and the panic of \<^verbatim>\<open>String::truncate\<close>.\<close>

datatype worker_error = WorkerText string | WorkerPanic

definition ascii :: "string \<Rightarrow> utf8_string" where
  "ascii s = map of_char s"

fun ProtocolError_debug :: "ProtocolError \<Rightarrow> string" where
  "ProtocolError_debug BadMagic = ''BadMagic''"
| "ProtocolError_debug UnsupportedVersion = ''UnsupportedVersion''"
| "ProtocolError_debug UnknownKind = ''UnknownKind''"
| "ProtocolError_debug Truncated = ''Truncated''"
| "ProtocolError_debug TrailingBytes = ''TrailingBytes''"
| "ProtocolError_debug FrameTooLarge = ''FrameTooLarge''"
| "ProtocolError_debug InvalidRequestId = ''InvalidRequestId''"
| "ProtocolError_debug InvalidPayload = ''InvalidPayload''"
| "ProtocolError_debug LengthOverflow = ''LengthOverflow''"
| "ProtocolError_debug ModuleTooLarge = ''ModuleTooLarge''"
| "ProtocolError_debug WrongRequestId = ''WrongRequestId''"
| "ProtocolError_debug UnexpectedMessage = ''UnexpectedMessage''"
| "ProtocolError_debug DuplicateTerminal = ''DuplicateTerminal''"
| "ProtocolError_debug InvalidTerminal = ''InvalidTerminal''"
| "ProtocolError_debug Sequence = ''Sequence''"
| "ProtocolError_debug DiagnosticTooLarge = ''DiagnosticTooLarge''"

definition protocol_text :: "ProtocolError \<Rightarrow> worker_error" where
  "protocol_text error = WorkerText (''protocol:'' @ ProtocolError_debug error)"

text \<open>
  \<^verbatim>\<open>String::truncate\<close> keeps a shorter string and panics when the cut is inside a
  character (the byte at the cut is a continuation byte).
\<close>

definition bound :: "utf8_string \<Rightarrow> worker_error + utf8_string" where
  "bound t =
     (if length t \<le> 1024 then Inr t
      else if utf8_continuation (t ! 1024) then Inl WorkerPanic
      else Inr (take 1024 t))"

definition zero_counters :: FinalCounters where
  "zero_counters = \<lparr>active_roots = 0, live_stores = 0, live_instances = 0,
     active_epoch_registrations = 0, live_threads = 0\<rparr>"

definition protocol_terminal :: "('w \<Rightarrow> u8 list \<Rightarrow> bool \<times> 'w) \<Rightarrow> ('w \<Rightarrow> bool \<times> 'w) \<Rightarrow> u64
    \<Rightarrow> utf8_string \<Rightarrow> ('w, worker_error, unit) state_result" where
  "protocol_terminal write_all flush request_id t =
     s_bind (s_lift (bound t)) (\<lambda>diagnostic.
     s_map_err protocol_text (write_message write_all flush
       (Msg_Terminal request_id TK_ProtocolFailure TerminalDetail_none diagnostic zero_counters)))"

text \<open>
  The loop that feeds messages to the assembler until it returns the module. Every pass
  consumes a frame, so the loop ends on every input.
\<close>

function assemble :: "ModuleAssembler \<Rightarrow> u8 list \<Rightarrow> worker_error + (u8 list \<times> u8 list)" where
  "assemble a inp =
     (case read_message inp of
        Inl e \<Rightarrow> Inl (protocol_text e)
      | Inr (message, rest) \<Rightarrow>
          (case accept message a of
             (Inl e, _) \<Rightarrow> Inl (protocol_text e)
           | (Inr (Some module), _) \<Rightarrow> Inr (module, rest)
           | (Inr None, a) \<Rightarrow> assemble a rest))"
  by pat_completeness auto

lemma read_message_consumes: "read_message inp = Inr (m, rest) \<Longrightarrow> length rest < length inp"
  by (auto simp: read_message_def and_then_Inr_iff Let_def HEADER_LEN_def ok_or_def
      split: if_splits option.splits)

termination assemble
  by (relation "measure (length \<circ> snd)") (auto dest: read_message_consumes)

declare assemble.simps [simp del]

definition run_with_io :: "('w \<Rightarrow> u8 list \<Rightarrow> bool \<times> 'w) \<Rightarrow> ('w \<Rightarrow> bool \<times> 'w) \<Rightarrow> u8 list
    \<Rightarrow> ('w, worker_error, (u64 \<times> ExecuteMetadata \<times> u8 list) option \<times> u8 list) state_result" where
  "run_with_io write_all flush inp =
     s_bind (s_lift (map_err protocol_text (read_message inp))) (\<lambda>(hello, inp).
     case hello of
       Msg_Hello request_id \<Rightarrow>
         s_bind (s_map_err protocol_text (write_message write_all flush (Msg_HelloAck request_id))) (\<lambda>_.
         s_bind (s_lift (map_err protocol_text (read_message inp))) (\<lambda>(start, inp).
         let unexpected =
           s_bind (protocol_terminal write_all flush request_id
                     (ascii ''expected matching execute-start''))
             (\<lambda>_. s_return (None, inp)) in
         case start of
           Msg_ExecuteStart i module_len metadata \<Rightarrow>
             if i = request_id then
               s_bind (s_lift (map_err protocol_text
                 (assembler_start request_id module_len (max_module_bytes metadata)))) (\<lambda>a.
               s_bind (s_lift (assemble a inp)) (\<lambda>(module, inp).
               s_bind (s_map_err protocol_text
                 (write_message write_all flush (Msg_ExecuteAck request_id))) (\<lambda>_.
               s_return (Some (request_id, metadata, module), inp))))
             else unexpected
         | _ \<Rightarrow> unexpected))
     | _ \<Rightarrow> s_lift (Inl (WorkerText ''expected hello'')))"

section \<open>What the assembler accepts\<close>

text \<open>The upload as messages: the chunks in sequence from \<open>seq\<close>.\<close>

primrec chunk_messages :: "u64 \<Rightarrow> u32 \<Rightarrow> u8 list list \<Rightarrow> Message list" where
  "chunk_messages i seq [] = []"
| "chunk_messages i seq (c # cs) = Msg_ModuleChunk i seq c # chunk_messages i (seq + 1) cs"

lemma read_message_inverse:
  "read_message inp = Inr (m, rest) \<Longrightarrow>
   message_valid m \<and> (\<exists>frame. encode m = Inr frame \<and> inp = frame @ rest)"
  by (auto simp: read_message_def and_then_Inr_iff Let_def split: if_splits
      dest!: encode_decode)

lemma read_message_iff:
  "read_message inp = Inr (m, rest) \<longleftrightarrow>
   message_valid m \<and> (\<exists>frame. encode m = Inr frame \<and> inp = frame @ rest)"
  using read_message_inverse read_message_encode by blast

lemma encode_chunk_bound:
  "encode (Msg_ModuleChunk i sequence bytes) = Inr frame \<Longrightarrow> length bytes \<le> MAX_FRAME_PAYLOAD - 12"
  by (auto simp: encode_def Let_def split: if_splits)

lemma accept_chunk_iff:
  assumes "asm_declared a \<le> usize_max"
  shows "accept (Msg_ModuleChunk i sequence bytes) a = (Inr None, a') \<longleftrightarrow>
     i = asm_request_id a \<and> \<not> asm_ended a \<and> sequence = asm_next a
     \<and> length bytes \<le> MAX_FRAME_PAYLOAD - 12
     \<and> length (asm_module a) + length bytes \<le> min (asm_declared a) (asm_caller_max a)
     \<and> asm_next a \<noteq> - 1
     \<and> a' = a\<lparr>asm_module := asm_module a @ bytes, asm_next := asm_next a + 1\<rparr>"
  using assms
  by (auto simp: accept.simps accept_chunk_def Let_def not_less split: option.splits)

lemma accept_result_cases:
  "accept m a = (Inr (Some module), a') \<longleftrightarrow>
     m = Msg_ExecuteEnd (asm_request_id a) \<and> \<not> asm_ended a
     \<and> length (asm_module a) = asm_declared a \<and> module = asm_module a
     \<and> a' = a\<lparr>asm_ended := True, asm_module := []\<rparr>"
  by (cases m)
    (auto simp: accept.simps accept_chunk_def Let_def split: option.splits)

lemma accept_None_cases:
  "accept m a = (Inr None, a') \<Longrightarrow> \<not> asm_ended a \<Longrightarrow>
   \<exists>bytes. m = Msg_ModuleChunk (asm_request_id a) (asm_next a) bytes"
  by (cases m) (auto simp: accept.simps accept_chunk_def Let_def split: option.splits if_splits)

lemma unat_Suc_next: "n \<noteq> - 1 \<Longrightarrow> unat (n + 1 :: u32) = Suc (unat n)"
  by (metis add.commute add_eq_0_iff Suc_eq_plus1 plus_1_eq_Suc unatSuc)

lemma pipe_write_list_prefix:
  "pipe_write_list ms w = (Inr (), w') \<longleftrightarrow>
   (\<exists>u. pipe_write_list ms [] = (Inr (), u) \<and> w' = w @ u)"
proof (induction ms arbitrary: w w')
  case Nil
  show ?case by (auto simp: s_return_def)
next
  case (Cons m ms)
  have step: "pipe_write_list (m # ms) v = (Inr (), v') \<longleftrightarrow>
      (\<exists>frame u. encode m = Inr frame \<and> pipe_write_list ms [] = (Inr (), u) \<and> v' = v @ frame @ u)"
    for v v'
    by (simp add: s_bind_Inr_iff pipe_write_Inr_iff) (subst Cons.IH, auto)
  show ?case by (auto simp: step simp del: pipe_write_list.simps)
qed

lemma pipe_write_list_Cons:
  "pipe_write_list (m # ms) [] = (Inr (), w) \<longleftrightarrow>
   (\<exists>frame u. encode m = Inr frame \<and> pipe_write_list ms [] = (Inr (), u) \<and> w = frame @ u)"
  by (simp add: s_bind_Inr_iff pipe_write_Inr_iff)
    (metis append_Nil pipe_write_list_prefix)

lemma pipe_write_list_Nil: "pipe_write_list [] [] = (Inr (), w) \<longleftrightarrow> w = []"
  by (auto simp: s_return_def)

lemmas pipe_write_list_iffs = pipe_write_list_Nil pipe_write_list_Cons

declare pipe_write_list.simps [simp del]

lemma assemble_sound:
  assumes "assemble a inp = Inr (module, rest)" "\<not> asm_ended a" "asm_declared a \<le> usize_max"
  shows "\<exists>cs w. pipe_write_list (chunk_messages (asm_request_id a) (asm_next a) cs
             @ [Msg_ExecuteEnd (asm_request_id a)]) [] = (Inr (), w)
           \<and> inp = w @ rest \<and> module = asm_module a @ concat cs \<and> length module = asm_declared a"
  using assms
proof (induction a inp rule: assemble.induct)
  case (1 a inp)
  from "1.prems"(1) obtain m rest' where rd: "read_message inp = Inr (m, rest')"
    by (auto simp: assemble.simps [of a inp] split: sum.splits prod.splits)
  from read_message_inverse [OF this] obtain frame
    where frame: "encode m = Inr frame" "inp = frame @ rest'" by blast
  obtain r a' where acc: "accept m a = (r, a')" by (cases "accept m a")
  with rd "1.prems"(1) obtain opt where r: "r = Inr opt"
    by (cases r) (auto simp: assemble.simps [of a inp])
  show ?case
  proof (cases opt)
    case (Some module')
    with acc r have acc': "accept m a = (Inr (Some module'), a')" by simp
    with rd "1.prems"(1) have "module = module'" "rest = rest'"
      by (simp_all add: assemble.simps [of a inp])
    with acc' frame show ?thesis
      by (simp add: accept_result_cases)
        (rule exI [of _ "[]"], auto simp: pipe_write_list_iffs)
  next
    case None
    with acc r have acc': "accept m a = (Inr None, a')" by simp
    then obtain bytes where m: "m = Msg_ModuleChunk (asm_request_id a) (asm_next a) bytes"
      using accept_None_cases "1.prems"(2) by blast
    with acc' have a': "a' = a\<lparr>asm_module := asm_module a @ bytes, asm_next := asm_next a + 1\<rparr>"
      using accept_chunk_iff [OF "1.prems"(3)] by blast
    have "assemble a' rest' = Inr (module, rest)"
      using "1.prems"(1) rd acc' by (simp add: assemble.simps [of a inp])
    from "1.IH" [OF rd refl acc' [symmetric] refl refl this] "1.prems" a'
    obtain cs w where "pipe_write_list (chunk_messages (asm_request_id a) (asm_next a + 1) cs
        @ [Msg_ExecuteEnd (asm_request_id a)]) [] = (Inr (), w)" "rest' = w @ rest"
      "module = asm_module a @ bytes @ concat cs" "length module = asm_declared a"
      by auto
    with frame m show ?thesis
      by (intro exI [of _ "bytes # cs"] exI [of _ "frame @ w"])
        (auto simp: pipe_write_list_iffs)
  qed
qed

lemma assemble_complete:
  assumes "pipe_write_list (chunk_messages (asm_request_id a) (asm_next a) cs
             @ [Msg_ExecuteEnd (asm_request_id a)]) [] = (Inr (), w)"
    and "\<not> asm_ended a" "asm_declared a \<le> usize_max" "asm_declared a \<le> asm_caller_max a"
    and "length (asm_module a @ concat cs) = asm_declared a"
    and "unat (asm_next a) + length cs < 2 ^ 32"
  shows "assemble a (w @ rest) = Inr (asm_module a @ concat cs, rest)"
  using assms
proof (induction cs arbitrary: a w)
  case Nil
  then obtain frame where "encode (Msg_ExecuteEnd (asm_request_id a)) = Inr frame" "w = frame"
    by (auto simp: pipe_write_list_iffs)
  with Nil show ?case
    using read_message_encode [of "Msg_ExecuteEnd (asm_request_id a)" frame rest]
    by (simp add: assemble.simps [of a] accept.simps)
next
  case (Cons c cs)
  let ?a = "a\<lparr>asm_module := asm_module a @ c, asm_next := asm_next a + 1\<rparr>"
  from Cons.prems(1) obtain frame u where f: "encode (Msg_ModuleChunk (asm_request_id a) (asm_next a) c) = Inr frame"
    and u: "pipe_write_list (chunk_messages (asm_request_id a) (asm_next a + 1) cs
             @ [Msg_ExecuteEnd (asm_request_id a)]) [] = (Inr (), u)" and w: "w = frame @ u"
    by (auto simp: pipe_write_list_iffs)
  from Cons.prems(6) have n: "asm_next a \<noteq> - 1"
    by (auto simp: unsigned_minus_1_eq_mask mask_eq_exp_minus_1)
  have "accept (Msg_ModuleChunk (asm_request_id a) (asm_next a) c) a = (Inr None, ?a)"
    using Cons.prems encode_chunk_bound [OF f] n by (simp add: accept_chunk_iff)
  moreover have "read_message (w @ rest)
      = Inr (Msg_ModuleChunk (asm_request_id a) (asm_next a) c, u @ rest)"
    using f by (simp add: w read_message_encode)
  moreover have "assemble ?a (u @ rest) = Inr (asm_module ?a @ concat cs, rest)"
    by (rule Cons.IH) (use Cons.prems u n in \<open>auto simp: unat_Suc_next\<close>)
  ultimately show ?case by (simp add: assemble.simps [of a])
qed

end
