(* ===== verification/Sketch_Limits.thy ===== *)
theory Sketch_Limits
  imports Prelude
begin

text \<open>
  The host policy of a sketch: blob, fuel, epoch and execution limits, the compiler
  configuration and the module policy (\<^verbatim>\<open>src/src/wasm/mod.rs\<close>,
  \<^verbatim>\<open>BlobLimits\<close> in \<^verbatim>\<open>src/src/wasm/operations.rs\<close>), with the constructors that
  validate them, and the execution ledger that accounts for memory reservations and active
  roots. Durations are nanoseconds.
\<close>

section \<open>Durations\<close>

type_synonym duration = nat

definition duration_new :: "u64 \<Rightarrow> nat \<Rightarrow> duration" where
  "duration_new secs nanos = unat secs * 1000000000 + nanos"

definition from_millis :: "u64 \<Rightarrow> duration" where
  "from_millis m = unat m * 1000000"

definition as_secs :: "duration \<Rightarrow> nat" where
  "as_secs d = d div 1000000000"

definition subsec_nanos :: "duration \<Rightarrow> nat" where
  "subsec_nanos d = d mod 1000000000"

definition as_millis :: "duration \<Rightarrow> nat" where
  "as_millis d = d div 1000000"

section \<open>Blob limits\<close>

record BlobLimits =
  maximum_chunk_bytes :: nat
  maximum_blob_bytes :: nat
  maximum_sketch_bytes :: nat
  maximum_live_blobs :: nat
  maximum_pending_reads :: nat
  maximum_pending_writes :: nat
  maximum_transfer_bytes :: nat
  progress_idle_timeout :: duration

text \<open>\<^verbatim>\<open>BlobLimits::new\<close>; its only error is \<^verbatim>\<open>HubError::Quota\<close>.\<close>

definition BlobLimits_new :: "nat \<Rightarrow> nat \<Rightarrow> nat \<Rightarrow> BlobLimits option" where
  "BlobLimits_new chunk blob sketch =
     (if chunk = 0 \<or> blob < chunk \<or> sketch < blob then None
      else case checked_mul sketch 3 of
        None \<Rightarrow> None
      | Some bytes \<Rightarrow>
          (case checked_add bytes chunk of
             None \<Rightarrow> None
           | Some bytes \<Rightarrow> Some
               \<lparr>maximum_chunk_bytes = chunk, maximum_blob_bytes = blob,
                maximum_sketch_bytes = sketch, maximum_live_blobs = 128,
                maximum_pending_reads = 128, maximum_pending_writes = 128,
                maximum_transfer_bytes = bytes, progress_idle_timeout = 5000000000\<rparr>))"

definition DEFAULT_BLOB_LIMITS :: BlobLimits where
  "DEFAULT_BLOB_LIMITS =
     \<lparr>maximum_chunk_bytes = 64 * 1024, maximum_blob_bytes = 1024 * 1024,
      maximum_sketch_bytes = 4 * 1024 * 1024, maximum_live_blobs = 128,
      maximum_pending_reads = 128, maximum_pending_writes = 128,
      maximum_transfer_bytes = 12 * 1024 * 1024 + 64 * 1024,
      progress_idle_timeout = 5000000000\<rparr>"

datatype SketchCompilerError =
    InvalidStackLimit | InvalidExecutionLimits | InvalidEpochLimits | InvalidFuelLimits
  | Unavailable

definition SketchBlobLimits_new :: "nat \<Rightarrow> nat \<Rightarrow> nat \<Rightarrow> nat \<Rightarrow> nat \<Rightarrow> nat
    \<Rightarrow> SketchCompilerError + BlobLimits" where
  "SketchBlobLimits_new chunk blob sketch live reads writes =
     (case BlobLimits_new chunk blob sketch of
        None \<Rightarrow> Inl InvalidExecutionLimits
      | Some limits \<Rightarrow>
          if u32_max < chunk then Inl InvalidExecutionLimits
          else Inr (limits\<lparr>maximum_live_blobs := live, maximum_pending_reads := reads,
                 maximum_pending_writes := writes\<rparr>))"

definition with_maximum_transfer_bytes :: "nat \<Rightarrow> BlobLimits \<Rightarrow> SketchCompilerError + BlobLimits" where
  "with_maximum_transfer_bytes maximum limits =
     (case Option.bind (checked_mul (maximum_chunk_bytes limits) 2)
             (\<lambda>bytes. checked_add bytes (maximum_sketch_bytes limits)) of
        None \<Rightarrow> Inl InvalidExecutionLimits
      | Some minimum \<Rightarrow>
          if maximum < minimum then Inl InvalidExecutionLimits
          else Inr (limits\<lparr>maximum_transfer_bytes := maximum\<rparr>))"

definition with_progress_idle_timeout :: "duration \<Rightarrow> BlobLimits \<Rightarrow> SketchCompilerError + BlobLimits" where
  "with_progress_idle_timeout timeout limits =
     (if timeout = 0 then Inl InvalidExecutionLimits
      else Inr (limits\<lparr>progress_idle_timeout := timeout\<rparr>))"

definition SketchBlobLimits_default :: BlobLimits where
  "SketchBlobLimits_default =
     projr (SketchBlobLimits_new (64 * 1024) (1024 * 1024) (4 * 1024 * 1024) 128 128 128)"

section \<open>Fuel and epoch limits\<close>

record SketchFuelLimits =
  fuel_total :: u64
  fuel_root_slice :: u64
  fuel_child_slice :: u64

definition fuel_is_valid :: "SketchFuelLimits \<Rightarrow> bool" where
  "fuel_is_valid l \<longleftrightarrow>
     fuel_root_slice l \<noteq> 0 \<and> fuel_child_slice l \<noteq> 0
     \<and> fuel_root_slice l \<le> fuel_total l
     \<and> fuel_child_slice l \<le> fuel_total l - fuel_root_slice l"

definition SketchFuelLimits_new :: "u64 \<Rightarrow> u64 \<Rightarrow> u64 \<Rightarrow> SketchCompilerError + SketchFuelLimits" where
  "SketchFuelLimits_new tot root child =
     (let limits = \<lparr>fuel_total = tot, fuel_root_slice = root, fuel_child_slice = child\<rparr> in
      if fuel_is_valid limits then Inr limits else Inl InvalidFuelLimits)"

definition MAX_GUEST_THREADS_V1 :: nat where
  "MAX_GUEST_THREADS_V1 = 16"

definition child_slice_capacity :: "SketchFuelLimits \<Rightarrow> nat" where
  "child_slice_capacity l =
     unat (min ((fuel_total l - fuel_root_slice l) div fuel_child_slice l)
       (of_nat MAX_GUEST_THREADS_V1))"

definition SketchFuelLimits_default :: SketchFuelLimits where
  "SketchFuelLimits_default =
     \<lparr>fuel_total = 1700000, fuel_root_slice = 100000, fuel_child_slice = 100000\<rparr>"

record SketchEpochLimits =
  wall_clock_deadline :: duration
  tick_interval :: duration
  maximum_active_registrations :: nat

definition epoch_is_valid :: "SketchEpochLimits \<Rightarrow> bool" where
  "epoch_is_valid l \<longleftrightarrow>
     wall_clock_deadline l \<noteq> 0 \<and> tick_interval l \<noteq> 0 \<and> maximum_active_registrations l \<noteq> 0"

definition SketchEpochLimits_new :: "duration \<Rightarrow> duration \<Rightarrow> nat
    \<Rightarrow> SketchCompilerError + SketchEpochLimits" where
  "SketchEpochLimits_new deadline tick registrations =
     (let limits = \<lparr>wall_clock_deadline = deadline, tick_interval = tick,
                    maximum_active_registrations = registrations\<rparr> in
      if epoch_is_valid limits then Inr limits else Inl InvalidEpochLimits)"

definition SketchEpochLimits_default :: SketchEpochLimits where
  "SketchEpochLimits_default =
     \<lparr>wall_clock_deadline = 30000000000, tick_interval = 10000000,
      maximum_active_registrations = MAX_GUEST_THREADS_V1 + 1\<rparr>"

section \<open>Execution limits and the compiler configuration\<close>

record SketchExecutionLimits =
  maximum_reserved_shared_memory_bytes :: u64
  maximum_active_root_executions :: nat
  fuel_limits :: SketchFuelLimits
  epoch_limits :: SketchEpochLimits
  blob_limits :: BlobLimits

definition THREADED_RUST_RESERVATION_BYTES :: u64 where
  "THREADED_RUST_RESERVATION_BYTES = 16384 * (64 * 1024)"

definition execution_is_valid :: "SketchExecutionLimits \<Rightarrow> bool" where
  "execution_is_valid l \<longleftrightarrow>
     THREADED_RUST_RESERVATION_BYTES \<le> maximum_reserved_shared_memory_bytes l
     \<and> maximum_active_root_executions l \<noteq> 0
     \<and> fuel_is_valid (fuel_limits l) \<and> epoch_is_valid (epoch_limits l)"

definition SketchExecutionLimits_new :: "u64 \<Rightarrow> nat \<Rightarrow> SketchCompilerError + SketchExecutionLimits" where
  "SketchExecutionLimits_new memory roots =
     (let limits = \<lparr>maximum_reserved_shared_memory_bytes = memory,
            maximum_active_root_executions = roots, fuel_limits = SketchFuelLimits_default,
            epoch_limits = SketchEpochLimits_default, blob_limits = SketchBlobLimits_default\<rparr> in
      if execution_is_valid limits then Inr limits else Inl InvalidExecutionLimits)"

definition SketchExecutionLimits_default :: SketchExecutionLimits where
  "SketchExecutionLimits_default =
     \<lparr>maximum_reserved_shared_memory_bytes = THREADED_RUST_RESERVATION_BYTES,
      maximum_active_root_executions = 1, fuel_limits = SketchFuelLimits_default,
      epoch_limits = SketchEpochLimits_default, blob_limits = SketchBlobLimits_default\<rparr>"

definition with_fuel_limits :: "SketchFuelLimits \<Rightarrow> SketchExecutionLimits
    \<Rightarrow> SketchCompilerError + SketchExecutionLimits" where
  "with_fuel_limits fuel l =
     (if \<not> fuel_is_valid fuel then Inl InvalidFuelLimits else Inr (l\<lparr>fuel_limits := fuel\<rparr>))"

definition with_epoch_limits :: "SketchEpochLimits \<Rightarrow> SketchExecutionLimits
    \<Rightarrow> SketchCompilerError + SketchExecutionLimits" where
  "with_epoch_limits epoch l =
     (if \<not> epoch_is_valid epoch then Inl InvalidEpochLimits else Inr (l\<lparr>epoch_limits := epoch\<rparr>))"

definition with_blob_limits :: "BlobLimits \<Rightarrow> SketchExecutionLimits \<Rightarrow> SketchExecutionLimits" where
  "with_blob_limits blobs l = l\<lparr>blob_limits := blobs\<rparr>"

record SketchCompilerConfig =
  config_max_wasm_stack_bytes :: nat
  execution_limits :: SketchExecutionLimits

definition SketchCompilerConfig_new :: "nat \<Rightarrow> SketchCompilerError + SketchCompilerConfig" where
  "SketchCompilerConfig_new stack =
     (if stack = 0 then Inl InvalidStackLimit
      else Inr \<lparr>config_max_wasm_stack_bytes = stack,
             execution_limits = SketchExecutionLimits_default\<rparr>)"

definition with_execution_limits :: "SketchExecutionLimits \<Rightarrow> SketchCompilerConfig
    \<Rightarrow> SketchCompilerError + SketchCompilerConfig" where
  "with_execution_limits limits c =
     (if \<not> execution_is_valid limits then Inl InvalidExecutionLimits
      else Inr (c\<lparr>execution_limits := limits\<rparr>))"

definition config_with_epoch_limits :: "SketchEpochLimits \<Rightarrow> SketchCompilerConfig
    \<Rightarrow> SketchCompilerError + SketchCompilerConfig" where
  "config_with_epoch_limits limits c =
     (if \<not> epoch_is_valid limits then Inl InvalidEpochLimits
      else Inr (c\<lparr>execution_limits := (execution_limits c)\<lparr>epoch_limits := limits\<rparr>\<rparr>))"

definition SketchCompilerConfig_default :: SketchCompilerConfig where
  "SketchCompilerConfig_default =
     \<lparr>config_max_wasm_stack_bytes = 2 * 1024 * 1024,
      execution_limits = SketchExecutionLimits_default\<rparr>"

section \<open>Module policy\<close>

datatype SketchAdmissionProfile = SyntheticV1 | ThreadedRustV1

record SketchModulePolicy =
  policy_max_module_bytes :: nat
  policy_max_shared_memory_pages :: u32
  policy_max_guest_threads :: nat
  policy_profile :: SketchAdmissionProfile
  policy_validation :: bool

text \<open>The errors of \<^verbatim>\<open>SketchModuleError\<close> that the policy constructors return.\<close>

datatype SketchModulePolicyError =
    InvalidModuleLimit | InvalidSharedMemoryLimit | InvalidThreadLimit
  | ThreadLimitExceedsV1Maximum nat nat

definition SketchModulePolicy_new :: "nat \<Rightarrow> u32 \<Rightarrow> SketchModulePolicyError + SketchModulePolicy" where
  "SketchModulePolicy_new bytes pages =
     (if bytes = 0 then Inl InvalidModuleLimit
      else if pages = 0 then Inl InvalidSharedMemoryLimit
      else Inr \<lparr>policy_max_module_bytes = bytes, policy_max_shared_memory_pages = pages,
             policy_max_guest_threads = MAX_GUEST_THREADS_V1, policy_profile = SyntheticV1,
             policy_validation = False\<rparr>)"

definition threaded_rust_v1 :: "nat \<Rightarrow> u32 \<Rightarrow> SketchModulePolicyError + SketchModulePolicy" where
  "threaded_rust_v1 bytes pages =
     and_then (SketchModulePolicy_new bytes pages) (\<lambda>p. Inr (p\<lparr>policy_profile := ThreadedRustV1\<rparr>))"

definition with_max_guest_threads :: "nat \<Rightarrow> SketchModulePolicy
    \<Rightarrow> SketchModulePolicyError + SketchModulePolicy" where
  "with_max_guest_threads maximum p =
     (if maximum = 0 then Inl InvalidThreadLimit
      else if MAX_GUEST_THREADS_V1 < maximum
        then Inl (ThreadLimitExceedsV1Maximum maximum MAX_GUEST_THREADS_V1)
      else Inr (p\<lparr>policy_max_guest_threads := maximum\<rparr>))"

section \<open>Outcomes of an execution\<close>

datatype ThreadedChildOutcomeKind =
    Child_Completed | Child_Cancelled | Child_DeadlineExceeded | Child_Exited
  | Child_NonzeroExit i32 | Child_OutOfFuel | Child_Trapped | Child_Panicked

record ThreadedChildOutcome =
  child_tid :: i32
  child_kind :: ThreadedChildOutcomeKind

datatype SketchExecutionError =
    ThreadedProfileRequired | SharedMemoryLimitExceeded | RootExecutionLimitExceeded
  | SessionBusy | OutOfFuel | ExecutionCancelled | DeadlineExceeded
  | EpochRegistrationLimitExceeded | ForeignRuntime | BlockingTaskFailed
  | ContainmentRequired | SharedMemoryUnavailable | PrelinkFailed | OutputGrantRejected
  | OutputCleanupFailed | WebviewGrantRejected | WebviewCleanupFailed | NonzeroExit i32
  | ChildNonzeroExit i32 | ChildTrapped | ChildPanicked
  | ChildOutcomes "ThreadedChildOutcome list" | ValidationReportInvalid
  | SessionGenerationExhausted | Trapped

fun SketchExecutionError_code :: "SketchExecutionError \<Rightarrow> string" where
  "SketchExecutionError_code ThreadedProfileRequired = ''threaded-profile-required''"
| "SketchExecutionError_code SharedMemoryLimitExceeded = ''shared-memory-limit-exceeded''"
| "SketchExecutionError_code RootExecutionLimitExceeded = ''root-execution-limit-exceeded''"
| "SketchExecutionError_code SessionBusy = ''session-busy''"
| "SketchExecutionError_code OutOfFuel = ''out-of-fuel''"
| "SketchExecutionError_code ExecutionCancelled = ''cancelled''"
| "SketchExecutionError_code DeadlineExceeded = ''deadline-exceeded''"
| "SketchExecutionError_code EpochRegistrationLimitExceeded =
     ''epoch-registration-limit-exceeded''"
| "SketchExecutionError_code ForeignRuntime = ''foreign-runtime''"
| "SketchExecutionError_code BlockingTaskFailed = ''blocking-task-failed''"
| "SketchExecutionError_code ContainmentRequired = ''containment-required''"
| "SketchExecutionError_code SharedMemoryUnavailable = ''shared-memory-unavailable''"
| "SketchExecutionError_code PrelinkFailed = ''prelink-failed''"
| "SketchExecutionError_code OutputGrantRejected = ''output-grant-rejected''"
| "SketchExecutionError_code OutputCleanupFailed = ''output-cleanup-failed''"
| "SketchExecutionError_code WebviewGrantRejected = ''webview-grant-rejected''"
| "SketchExecutionError_code WebviewCleanupFailed = ''webview-cleanup-failed''"
| "SketchExecutionError_code (NonzeroExit _) = ''nonzero-exit''"
| "SketchExecutionError_code (ChildNonzeroExit _) = ''child-nonzero-exit''"
| "SketchExecutionError_code ChildTrapped = ''child-trapped''"
| "SketchExecutionError_code ChildPanicked = ''child-panicked''"
| "SketchExecutionError_code (ChildOutcomes _) = ''child-outcomes''"
| "SketchExecutionError_code ValidationReportInvalid = ''validation-report-invalid''"
| "SketchExecutionError_code SessionGenerationExhausted = ''session-generation-exhausted''"
| "SketchExecutionError_code Trapped = ''trapped''"

record ThreadSpawnRejectionSummary =
  rejected_capacity :: u32
  rejected_closing :: u32
  rejected_fuel :: u32
  rejected_epoch :: u32

definition rejections_is_empty :: "ThreadSpawnRejectionSummary \<Rightarrow> bool" where
  "rejections_is_empty r \<longleftrightarrow>
     rejected_capacity r = 0 \<and> rejected_closing r = 0 \<and> rejected_fuel r = 0 \<and> rejected_epoch r = 0"

datatype ThreadedRootOutcome =
    Started | StartedWithThreadRejections ThreadSpawnRejectionSummary
  | Exited | ExitedWithThreadRejections ThreadSpawnRejectionSummary

section \<open>The execution ledger\<close>

record ExecutionLedgerState =
  reserved_shared_memory_bytes :: u64
  active_root_executions :: nat
  live_guest_threads :: nat
  ledger_live_stores :: nat
  ledger_live_instances :: nat

datatype LedgerCounter = LC_GuestThreads | LC_Stores | LC_Instances

definition ledger_default :: ExecutionLedgerState where
  "ledger_default = \<lparr>reserved_shared_memory_bytes = 0, active_root_executions = 0,
     live_guest_threads = 0, ledger_live_stores = 0, ledger_live_instances = 0\<rparr>"

text \<open>A reservation is represented by its byte count; dropping it returns the bytes.\<close>

definition reserve_shared_memory :: "SketchExecutionLimits \<Rightarrow> u64
    \<Rightarrow> (ExecutionLedgerState, SketchExecutionError, u64) state_result" where
  "reserve_shared_memory limits bytes s =
     (if 2 ^ 64 \<le> unat (reserved_shared_memory_bytes s) + unat bytes
      then (Inl SharedMemoryLimitExceeded, s)
      else let n = reserved_shared_memory_bytes s + bytes in
        if maximum_reserved_shared_memory_bytes limits < n
        then (Inl SharedMemoryLimitExceeded, s)
        else (Inr bytes, s\<lparr>reserved_shared_memory_bytes := n\<rparr>))"

definition drop_reservation :: "u64 \<Rightarrow> ExecutionLedgerState \<Rightarrow> ExecutionLedgerState" where
  "drop_reservation bytes s =
     s\<lparr>reserved_shared_memory_bytes :=
         (if bytes \<le> reserved_shared_memory_bytes s
          then reserved_shared_memory_bytes s - bytes else 0)\<rparr>"

definition acquire_root :: "SketchExecutionLimits
    \<Rightarrow> (ExecutionLedgerState, SketchExecutionError, unit) state_result" where
  "acquire_root limits s =
     (if maximum_active_root_executions limits \<le> active_root_executions s
      then (Inl RootExecutionLimitExceeded, s)
      else (Inr (), s\<lparr>active_root_executions := active_root_executions s + 1\<rparr>))"

definition drop_root :: "ExecutionLedgerState \<Rightarrow> ExecutionLedgerState" where
  "drop_root s = s\<lparr>active_root_executions := saturating_sub (active_root_executions s) 1\<rparr>"

fun ledger_increment :: "LedgerCounter \<Rightarrow> ExecutionLedgerState \<Rightarrow> ExecutionLedgerState" where
  "ledger_increment LC_GuestThreads s =
     s\<lparr>live_guest_threads := saturating_add (live_guest_threads s) 1\<rparr>"
| "ledger_increment LC_Stores s =
     s\<lparr>ledger_live_stores := saturating_add (ledger_live_stores s) 1\<rparr>"
| "ledger_increment LC_Instances s =
     s\<lparr>ledger_live_instances := saturating_add (ledger_live_instances s) 1\<rparr>"

fun ledger_decrement :: "LedgerCounter \<Rightarrow> ExecutionLedgerState \<Rightarrow> ExecutionLedgerState" where
  "ledger_decrement LC_GuestThreads s =
     s\<lparr>live_guest_threads := saturating_sub (live_guest_threads s) 1\<rparr>"
| "ledger_decrement LC_Stores s =
     s\<lparr>ledger_live_stores := saturating_sub (ledger_live_stores s) 1\<rparr>"
| "ledger_decrement LC_Instances s =
     s\<lparr>ledger_live_instances := saturating_sub (ledger_live_instances s) 1\<rparr>"

section \<open>Ledger accounting\<close>

text \<open>
  The ledger together with what it has handed out: the live reservations, the live root
  permits and the live observations of each counter. Every handle is dropped at most once,
  which is Rust's ownership; the steps interleave arbitrarily. Fewer than \<^verbatim>\<open>usize::MAX\<close>
  observations are alive at a time, since each is a live allocation.
\<close>

record ledger_world =
  lw_ledger :: ExecutionLedgerState
  lw_reservations :: "u64 list"
  lw_permits :: nat
  lw_observed :: "LedgerCounter \<Rightarrow> nat"

inductive ledger_step :: "SketchExecutionLimits \<Rightarrow> ledger_world \<Rightarrow> ledger_world \<Rightarrow> bool"
  for limits :: SketchExecutionLimits where
  reserve: "reserve_shared_memory limits bytes (lw_ledger w) = (Inr r, s) \<Longrightarrow>
    ledger_step limits w (w\<lparr>lw_ledger := s, lw_reservations := r # lw_reservations w\<rparr>)"
| release: "r \<in> set (lw_reservations w) \<Longrightarrow>
    ledger_step limits w (w\<lparr>lw_ledger := drop_reservation r (lw_ledger w),
                            lw_reservations := remove1 r (lw_reservations w)\<rparr>)"
| acquire: "acquire_root limits (lw_ledger w) = (Inr (), s) \<Longrightarrow>
    ledger_step limits w (w\<lparr>lw_ledger := s, lw_permits := lw_permits w + 1\<rparr>)"
| drop: "0 < lw_permits w \<Longrightarrow>
    ledger_step limits w (w\<lparr>lw_ledger := drop_root (lw_ledger w), lw_permits := lw_permits w - 1\<rparr>)"
| observe: "lw_observed w c < usize_max \<Longrightarrow>
    ledger_step limits w (w\<lparr>lw_ledger := ledger_increment c (lw_ledger w),
                            lw_observed := (lw_observed w)(c := lw_observed w c + 1)\<rparr>)"
| unobserve: "0 < lw_observed w c \<Longrightarrow>
    ledger_step limits w (w\<lparr>lw_ledger := ledger_decrement c (lw_ledger w),
                            lw_observed := (lw_observed w)(c := lw_observed w c - 1)\<rparr>)"

definition ledger_start :: "ledger_world \<Rightarrow> bool" where
  "ledger_start w \<longleftrightarrow> w = \<lparr>lw_ledger = ledger_default, lw_reservations = [], lw_permits = 0,
                            lw_observed = (\<lambda>_. 0)\<rparr>"

fun ledger_counter :: "LedgerCounter \<Rightarrow> ExecutionLedgerState \<Rightarrow> nat" where
  "ledger_counter LC_GuestThreads s = live_guest_threads s"
| "ledger_counter LC_Stores s = ledger_live_stores s"
| "ledger_counter LC_Instances s = ledger_live_instances s"

definition ledger_inv :: "SketchExecutionLimits \<Rightarrow> ledger_world \<Rightarrow> bool" where
  "ledger_inv limits w \<longleftrightarrow>
     unat (reserved_shared_memory_bytes (lw_ledger w)) = sum_list (map unat (lw_reservations w))
     \<and> reserved_shared_memory_bytes (lw_ledger w) \<le> maximum_reserved_shared_memory_bytes limits
     \<and> active_root_executions (lw_ledger w) = lw_permits w
     \<and> lw_permits w \<le> maximum_active_root_executions limits
     \<and> (\<forall>c. ledger_counter c (lw_ledger w) = lw_observed w c \<and> lw_observed w c \<le> usize_max)"

lemma ledger_counter_all: "(\<forall>c. P c) \<longleftrightarrow> P LC_GuestThreads \<and> P LC_Stores \<and> P LC_Instances"
  by (metis LedgerCounter.exhaust)

lemma sum_list_remove1:
  "x \<in> set xs \<Longrightarrow> sum_list (map f (remove1 x xs)) + f x = (sum_list (map f xs) :: nat)"
  by (induction xs) auto

lemma reserve_shared_memory_ok:
  "reserve_shared_memory limits bytes s = (Inr r, s') \<longleftrightarrow>
   r = bytes \<and> unat (reserved_shared_memory_bytes s) + unat bytes < 2 ^ 64
   \<and> reserved_shared_memory_bytes s + bytes \<le> maximum_reserved_shared_memory_bytes limits
   \<and> s' = s\<lparr>reserved_shared_memory_bytes := reserved_shared_memory_bytes s + bytes\<rparr>"
  by (auto simp: reserve_shared_memory_def Let_def not_less)

lemma ledger_step_inv:
  assumes "ledger_inv limits w" and "ledger_step limits w w'"
  shows "ledger_inv limits w'"
  using assms(2)
proof cases
  case (reserve bytes r s)
  with assms(1) show ?thesis
    by (auto simp: ledger_inv_def reserve_shared_memory_ok unat_word_ariths ledger_counter_all)
next
  case (release r)
  let ?n = "reserved_shared_memory_bytes (lw_ledger w)"
  have sum: "sum_list (map unat (remove1 r (lw_reservations w))) + unat r = unat ?n"
    using release assms(1) sum_list_remove1 [of r _ unat] by (simp add: ledger_inv_def)
  then have "r \<le> ?n" by (simp add: word_le_nat_alt)
  with sum release assms(1) show ?thesis
    by (auto simp: ledger_inv_def drop_reservation_def unat_sub ledger_counter_all
        intro: order_trans [OF word_sub_le])
next
  case (acquire s)
  with assms(1) show ?thesis
    by (auto simp: ledger_inv_def acquire_root_def ledger_counter_all split: if_splits)
next
  case drop
  with assms(1) show ?thesis by (auto simp: ledger_inv_def drop_root_def ledger_counter_all)
next
  case (observe c)
  with assms(1) show ?thesis by (cases c) (auto simp: ledger_inv_def ledger_counter_all)
next
  case (unobserve c)
  with assms(1) show ?thesis by (cases c) (auto simp: ledger_inv_def ledger_counter_all)
qed

interpretation ledger_system: transition_system ledger_start "ledger_step limits" "ledger_inv limits"
  for limits
proof unfold_locales
  fix w assume "ledger_start w"
  then show "ledger_inv limits w"
    by (simp add: ledger_start_def ledger_inv_def ledger_default_def ledger_counter_all)
qed (rule ledger_step_inv)

text \<open>C31: in every state the execution ledger can reach, the reserved memory is the sum of the live
  reservations and stays within the limit, the active roots are the live permits and stay within
  the limit, and each live counter is the number of live observations; so no drop underflows.\<close>

theorem execution_ledger_exact:
  assumes "reach ledger_start (ledger_step limits) w"
  shows "unat (reserved_shared_memory_bytes (lw_ledger w)) = sum_list (map unat (lw_reservations w))
       \<and> reserved_shared_memory_bytes (lw_ledger w) \<le> maximum_reserved_shared_memory_bytes limits
       \<and> active_root_executions (lw_ledger w) = lw_permits w
       \<and> lw_permits w \<le> maximum_active_root_executions limits
       \<and> ledger_counter c (lw_ledger w) = lw_observed w c"
  using ledger_system.reachable_inv [OF assms] by (simp add: ledger_inv_def)

definition ledger_sample :: ledger_world where
  "ledger_sample = \<lparr>lw_ledger = snd (acquire_root SketchExecutionLimits_default ledger_default),
     lw_reservations = [], lw_permits = 1, lw_observed = (\<lambda>_. 0)\<rparr>"

theorem execution_ledger_exact_witness:
  "unat (reserved_shared_memory_bytes (lw_ledger ledger_sample))
     = sum_list (map unat (lw_reservations ledger_sample))
   \<and> reserved_shared_memory_bytes (lw_ledger ledger_sample)
     \<le> maximum_reserved_shared_memory_bytes SketchExecutionLimits_default
   \<and> active_root_executions (lw_ledger ledger_sample) = lw_permits ledger_sample
   \<and> lw_permits ledger_sample \<le> maximum_active_root_executions SketchExecutionLimits_default
   \<and> ledger_counter LC_Stores (lw_ledger ledger_sample) = lw_observed ledger_sample LC_Stores"
proof (rule execution_ledger_exact)
  let ?w = "\<lparr>lw_ledger = ledger_default, lw_reservations = [], lw_permits = 0, lw_observed = (\<lambda>_. 0)\<rparr>"
  have "ledger_step SketchExecutionLimits_default ?w
     (?w\<lparr>lw_ledger := snd (acquire_root SketchExecutionLimits_default ledger_default),
          lw_permits := lw_permits ?w + 1\<rparr>)"
    by (rule ledger_step.acquire)
      (simp add: acquire_root_def ledger_default_def SketchExecutionLimits_default_def)
  moreover have "reach ledger_start (ledger_step SketchExecutionLimits_default) ?w"
    by (rule reach_start) (simp add: ledger_start_def)
  ultimately show "reach ledger_start (ledger_step SketchExecutionLimits_default) ledger_sample"
    using reach_step by (fastforce simp: ledger_sample_def)
qed

end
