(* ===== verification/Worker_Config.thy ===== *)
theory Worker_Config
  imports Worker_Child Sketch_Limits
begin

text \<open>
  The policy that travels with a request: the parent flattens its configuration into the
  request's metadata (\<^verbatim>\<open>metadata\<close> in \<^verbatim>\<open>src/src/wasm/worker.rs\<close>) and the worker
  rebuilds it through the validating constructors (\<^verbatim>\<open>reconstruct\<close> in
  \<^verbatim>\<open>src/src/bin/kernal-wasm-worker.rs\<close>). Instants are nanoseconds since a fixed origin.
\<close>

definition millis_u64 :: "nat \<Rightarrow> u64" where
  "millis_u64 n = (if n < 2 ^ 64 then of_nat n else - 1)"

definition metadata :: "SketchCompilerConfig \<Rightarrow> SketchModulePolicy \<Rightarrow> nat \<Rightarrow> nat \<Rightarrow> ExecuteMetadata" where
  "metadata config policy deadline now =
     (let limits = execution_limits config;
          fuel = fuel_limits limits;
          blobs = blob_limits limits;
          epoch = epoch_limits limits;
          remaining = max (deadline - now) 1000000 in
      \<lparr>webview_url = None, staged_output = None,
       blob_limits_wire =
         [of_nat (maximum_chunk_bytes blobs), of_nat (maximum_blob_bytes blobs),
          of_nat (maximum_sketch_bytes blobs), of_nat (maximum_live_blobs blobs),
          of_nat (maximum_pending_reads blobs), of_nat (maximum_pending_writes blobs),
          of_nat (maximum_transfer_bytes blobs)],
       blob_progress_idle_timeout_secs = of_nat (as_secs (progress_idle_timeout blobs)),
       blob_progress_idle_timeout_nanos = of_nat (subsec_nanos (progress_idle_timeout blobs)),
       max_wasm_stack_bytes = of_nat (config_max_wasm_stack_bytes config),
       reserved_memory_bytes = maximum_reserved_shared_memory_bytes limits,
       maximum_active_roots = of_nat (maximum_active_root_executions limits),
       total_fuel = fuel_total fuel, root_fuel = fuel_root_slice fuel,
       child_fuel = fuel_child_slice fuel,
       epoch_deadline_millis = millis_u64 (as_millis remaining),
       epoch_tick_millis = millis_u64 (as_millis (tick_interval epoch)),
       maximum_epoch_registrations = of_nat (maximum_active_registrations epoch),
       max_module_bytes = of_nat (policy_max_module_bytes policy),
       max_shared_memory_pages = policy_max_shared_memory_pages policy,
       max_guest_threads = of_nat (policy_max_guest_threads policy)\<rparr>)"

definition usize_try_from :: "string \<Rightarrow> u64 \<Rightarrow> string + nat" where
  "usize_try_from e v = (if usize_max < unat v then Inl e else Inr (unat v))"

fun SketchCompilerError_display :: "SketchCompilerError \<Rightarrow> string" where
  "SketchCompilerError_display InvalidStackLimit = ''the Wasm stack limit must be nonzero''"
| "SketchCompilerError_display InvalidExecutionLimits =
     ''execution limits must admit one 1 GiB threaded Rust session and one root''"
| "SketchCompilerError_display InvalidEpochLimits =
     ''epoch limits must have a nonzero deadline, tick, and quota''"
| "SketchCompilerError_display InvalidFuelLimits =
     ''fuel limits must reserve nonzero root and all bounded child slices''"
| "SketchCompilerError_display Unavailable = ''the sketch compiler is unavailable''"

fun SketchModulePolicyError_display :: "SketchModulePolicyError \<Rightarrow> string" where
  "SketchModulePolicyError_display InvalidModuleLimit =
     ''sketch admission failed (invalid-module-limit)''"
| "SketchModulePolicyError_display InvalidSharedMemoryLimit =
     ''sketch admission failed (invalid-shared-memory-limit)''"
| "SketchModulePolicyError_display InvalidThreadLimit =
     ''sketch admission failed (invalid-thread-limit)''"
| "SketchModulePolicyError_display (ThreadLimitExceedsV1Maximum _ _) =
     ''sketch admission failed (thread-limit-exceeds-v1-maximum)''"

primrec try_from_all :: "string \<Rightarrow> u64 list \<Rightarrow> string + nat list" where
  "try_from_all e [] = Inr []"
| "try_from_all e (v # vs) = and_then (usize_try_from e v) (\<lambda>n.
     and_then (try_from_all e vs) (\<lambda>ns. Inr (n # ns)))"

definition reconstruct_blobs :: "ExecuteMetadata \<Rightarrow> string + BlobLimits" where
  "reconstruct_blobs m =
     and_then (try_from_all ''blob-limit-overflow'' (blob_limits_wire m)) (\<lambda>v.
     if u32_max < unat (blob_progress_idle_timeout_nanos m)
     then Inl ''blob-idle-timeout-nanos-overflow''
     else let idle_nanos = unat (blob_progress_idle_timeout_nanos m) in
     if 1000000000 \<le> idle_nanos then Inl ''blob-idle-timeout-nanos-invalid''
     else map_err SketchCompilerError_display
       (and_then (SketchBlobLimits_new (v ! 0) (v ! 1) (v ! 2) (v ! 3) (v ! 4) (v ! 5)) (\<lambda>b.
        and_then (with_maximum_transfer_bytes (v ! 6) b) (\<lambda>b.
        with_progress_idle_timeout
          (duration_new (blob_progress_idle_timeout_secs m) idle_nanos) b))))"

definition reconstruct :: "ExecuteMetadata \<Rightarrow> string + SketchCompilerConfig \<times> SketchModulePolicy" where
  "reconstruct m =
     and_then (reconstruct_blobs m) (\<lambda>blobs.
     and_then (usize_try_from ''active-roots-overflow'' (maximum_active_roots m)) (\<lambda>roots.
     and_then (usize_try_from ''stack-overflow'' (max_wasm_stack_bytes m)) (\<lambda>stack.
     and_then (usize_try_from ''thread-limit-overflow'' (max_guest_threads m)) (\<lambda>threads.
     and_then (map_err SketchCompilerError_display
       (SketchFuelLimits_new (total_fuel m) (root_fuel m) (child_fuel m))) (\<lambda>fuel.
     and_then (usize_try_from ''epoch-registration-overflow'' (maximum_epoch_registrations m)) (\<lambda>regs.
     and_then (map_err SketchCompilerError_display
       (SketchEpochLimits_new (from_millis (epoch_deadline_millis m))
         (from_millis (epoch_tick_millis m)) regs)) (\<lambda>epoch.
     and_then (map_err SketchCompilerError_display
       (and_then (SketchExecutionLimits_new (reserved_memory_bytes m) roots) (\<lambda>l.
        and_then (with_fuel_limits fuel l) (with_epoch_limits epoch)))) (\<lambda>l.
     and_then (map_err SketchCompilerError_display
       (and_then (SketchCompilerConfig_new stack)
          (with_execution_limits (with_blob_limits blobs l)))) (\<lambda>config.
     and_then (usize_try_from ''module-limit-overflow'' (max_module_bytes m)) (\<lambda>bytes.
     and_then (map_err SketchModulePolicyError_display
       (and_then (threaded_rust_v1 bytes (max_shared_memory_pages m))
          (with_max_guest_threads threads))) (\<lambda>policy.
     Inr (config, policy))))))))))))"

section \<open>The policy the worker rebuilds\<close>

text \<open>
  What the constructors guarantee of a configuration and a policy, and what the machine
  types bound.
\<close>

definition blobs_ok :: "BlobLimits \<Rightarrow> bool" where
  "blobs_ok b \<longleftrightarrow>
     0 < maximum_chunk_bytes b \<and> maximum_chunk_bytes b \<le> u32_max
     \<and> maximum_chunk_bytes b \<le> maximum_blob_bytes b
     \<and> maximum_blob_bytes b \<le> maximum_sketch_bytes b
     \<and> maximum_sketch_bytes b * 3 + maximum_chunk_bytes b \<le> usize_max
     \<and> maximum_chunk_bytes b * 2 + maximum_sketch_bytes b \<le> maximum_transfer_bytes b
     \<and> maximum_live_blobs b \<le> usize_max \<and> maximum_pending_reads b \<le> usize_max
     \<and> maximum_pending_writes b \<le> usize_max \<and> maximum_transfer_bytes b \<le> usize_max
     \<and> 0 < progress_idle_timeout b \<and> progress_idle_timeout b < 2 ^ 64 * 1000000000"

definition config_ok :: "SketchCompilerConfig \<Rightarrow> bool" where
  "config_ok c \<longleftrightarrow>
     config_max_wasm_stack_bytes c \<noteq> 0 \<and> config_max_wasm_stack_bytes c \<le> usize_max
     \<and> execution_is_valid (execution_limits c)
     \<and> maximum_active_root_executions (execution_limits c) \<le> usize_max
     \<and> maximum_active_registrations (epoch_limits (execution_limits c)) \<le> usize_max
     \<and> blobs_ok (blob_limits (execution_limits c))"

definition policy_ok :: "SketchModulePolicy \<Rightarrow> bool" where
  "policy_ok p \<longleftrightarrow>
     policy_max_module_bytes p \<noteq> 0 \<and> policy_max_module_bytes p \<le> usize_max
     \<and> policy_max_shared_memory_pages p \<noteq> 0
     \<and> policy_max_guest_threads p \<noteq> 0 \<and> policy_max_guest_threads p \<le> MAX_GUEST_THREADS_V1"

lemma unat_of_usize [simp]: "n \<le> usize_max \<Longrightarrow> unat (of_nat n :: u64) = n"
  by (simp add: unat_of_nat usize_max_def)

lemma usize_try_from_of_nat [simp]: "n \<le> usize_max \<Longrightarrow> usize_try_from e (of_nat n) = Inr n"
  by (simp add: usize_try_from_def)

lemma duration_parts: "d < 2 ^ 64 * 1000000000 \<Longrightarrow>
  duration_new (of_nat (as_secs d)) (subsec_nanos d) = d"
proof -
  assume "d < 2 ^ 64 * 1000000000"
  then have "as_secs d \<le> usize_max" by (simp add: as_secs_def usize_max_def)
  then show ?thesis by (simp add: duration_new_def as_secs_def subsec_nanos_def)
qed

lemma try_from_all_of_nat:
  "list_all (\<lambda>n. n \<le> usize_max) ns \<Longrightarrow> try_from_all e (map of_nat ns) = Inr ns"
  by (induction ns) auto

definition blobs_wire :: "BlobLimits \<Rightarrow> nat list" where
  "blobs_wire b =
     [maximum_chunk_bytes b, maximum_blob_bytes b, maximum_sketch_bytes b, maximum_live_blobs b,
      maximum_pending_reads b, maximum_pending_writes b, maximum_transfer_bytes b]"

lemma blobs_wire_bounded: "blobs_ok b \<Longrightarrow> list_all (\<lambda>n. n \<le> usize_max) (blobs_wire b)"
  by (auto simp: blobs_ok_def blobs_wire_def u32_max_def usize_max_def)

lemma blobs_rebuilt:
  assumes "blobs_ok b" and "v = blobs_wire b"
  shows "and_then (SketchBlobLimits_new (v ! 0) (v ! 1) (v ! 2) (v ! 3) (v ! 4) (v ! 5)) (\<lambda>b.
     and_then (with_maximum_transfer_bytes (v ! 6) b) (with_progress_idle_timeout t))
   = (if t = 0 then Inl InvalidExecutionLimits else Inr (b\<lparr>progress_idle_timeout := t\<rparr>))"
  using assms
  by (cases b)
    (simp add: blobs_wire_def blobs_ok_def SketchBlobLimits_new_def BlobLimits_new_def
      checked_mul_def checked_add_def with_maximum_transfer_bytes_def
      with_progress_idle_timeout_def)

lemma reconstruct_blobs_metadata:
  assumes ok: "blobs_ok (blob_limits (execution_limits c))"
  shows "reconstruct_blobs (metadata c p deadline now) = Inr (blob_limits (execution_limits c))"
proof -
  let ?b = "blob_limits (execution_limits c)"
  let ?m = "metadata c p deadline now"
  let ?t = "progress_idle_timeout ?b"
  have "blob_limits_wire ?m = map of_nat (blobs_wire ?b)"
    by (simp add: metadata_def Let_def blobs_wire_def)
  then have "try_from_all e (blob_limits_wire ?m) = Inr (blobs_wire ?b)" for e
    using ok by (simp add: try_from_all_of_nat blobs_wire_bounded)
  moreover have "unat (blob_progress_idle_timeout_nanos ?m) = subsec_nanos ?t"
    by (simp add: metadata_def Let_def subsec_nanos_def usize_max_def less_imp_le)
  moreover have "subsec_nanos ?t < 1000000000" by (simp add: subsec_nanos_def)
  moreover from this have "subsec_nanos ?t \<le> u32_max" by (simp add: u32_max_def)
  moreover have "duration_new (blob_progress_idle_timeout_secs ?m) (subsec_nanos ?t) = ?t"
    using ok by (simp add: metadata_def Let_def duration_parts blobs_ok_def)
  moreover have "?t \<noteq> 0" using ok by (simp add: blobs_ok_def)
  ultimately show ?thesis
    using blobs_rebuilt [OF ok refl, of ?t]
    by (simp add: reconstruct_blobs_def not_less not_le)
qed


text \<open>What survives the trip: everything but the deadline, which becomes the remaining time, and
  both epoch durations are in whole milliseconds.\<close>

definition remaining_millis :: "nat \<Rightarrow> nat \<Rightarrow> nat" where
  "remaining_millis deadline now = as_millis (max (deadline - now) 1000000)"

definition worker_config :: "SketchCompilerConfig \<Rightarrow> nat \<Rightarrow> nat \<Rightarrow> SketchCompilerConfig" where
  "worker_config c deadline now =
     (let l = execution_limits c; e = epoch_limits l in
      c\<lparr>execution_limits := l\<lparr>epoch_limits := e\<lparr>
          wall_clock_deadline := remaining_millis deadline now * 1000000,
          tick_interval := as_millis (tick_interval e) * 1000000\<rparr>\<rparr>\<rparr>)"

text \<open>The metadata carries neither the profile nor the validation flag of the policy: the worker
  always admits under the threaded profile.\<close>

definition worker_policy :: "SketchModulePolicy \<Rightarrow> SketchModulePolicy" where
  "worker_policy p = p\<lparr>policy_profile := ThreadedRustV1, policy_validation := False\<rparr>"

lemma from_millis_u64: "n < 2 ^ 64 \<Longrightarrow> from_millis (millis_u64 n) = n * 1000000"
  using unat_of_usize [of n] by (simp add: from_millis_def millis_u64_def usize_max_def)

lemma reconstruct_policy:
  assumes "policy_ok p"
  shows "and_then (threaded_rust_v1 (policy_max_module_bytes p) (policy_max_shared_memory_pages p))
           (with_max_guest_threads (policy_max_guest_threads p)) = Inr (worker_policy p)"
  using assms
  by (cases p) (simp add: worker_policy_def policy_ok_def threaded_rust_v1_def SketchModulePolicy_new_def
      with_max_guest_threads_def)

lemma defaults_valid: "fuel_is_valid SketchFuelLimits_default" "epoch_is_valid SketchEpochLimits_default"
  by (simp_all add: fuel_is_valid_def SketchFuelLimits_default_def epoch_is_valid_def
      SketchEpochLimits_default_def MAX_GUEST_THREADS_V1_def word_le_nat_alt)

lemma reconstruct_limits:
  assumes "execution_is_valid l" and "epoch_is_valid e"
  shows "and_then (SketchExecutionLimits_new (maximum_reserved_shared_memory_bytes l)
             (maximum_active_root_executions l)) (\<lambda>x.
           and_then (with_fuel_limits (fuel_limits l) x) (with_epoch_limits e))
       = Inr (l\<lparr>epoch_limits := e, blob_limits := SketchBlobLimits_default\<rparr>)"
  using assms
  by (cases l) (simp add: execution_is_valid_def SketchExecutionLimits_new_def defaults_valid
      with_fuel_limits_def with_epoch_limits_def)

lemma reconstruct_config:
  assumes "config_max_wasm_stack_bytes c \<noteq> 0" and "execution_is_valid l"
  shows "and_then (SketchCompilerConfig_new (config_max_wasm_stack_bytes c))
           (with_execution_limits l) = Inr (c\<lparr>execution_limits := l\<rparr>)"
  using assms by (cases c) (simp add: SketchCompilerConfig_new_def with_execution_limits_def)

lemma reconstruct_fuel:
  "fuel_is_valid f \<Longrightarrow>
   SketchFuelLimits_new (fuel_total f) (fuel_root_slice f) (fuel_child_slice f) = Inr f"
  by (cases f) (simp add: SketchFuelLimits_new_def)

lemma metadata_fields:
  "maximum_active_roots (metadata c p d n) = of_nat (maximum_active_root_executions (execution_limits c))"
  "max_wasm_stack_bytes (metadata c p d n) = of_nat (config_max_wasm_stack_bytes c)"
  "max_guest_threads (metadata c p d n) = of_nat (policy_max_guest_threads p)"
  "total_fuel (metadata c p d n) = fuel_total (fuel_limits (execution_limits c))"
  "root_fuel (metadata c p d n) = fuel_root_slice (fuel_limits (execution_limits c))"
  "child_fuel (metadata c p d n) = fuel_child_slice (fuel_limits (execution_limits c))"
  "maximum_epoch_registrations (metadata c p d n)
     = of_nat (maximum_active_registrations (epoch_limits (execution_limits c)))"
  "epoch_deadline_millis (metadata c p d n) = millis_u64 (remaining_millis d n)"
  "epoch_tick_millis (metadata c p d n)
     = millis_u64 (as_millis (tick_interval (epoch_limits (execution_limits c))))"
  "reserved_memory_bytes (metadata c p d n) = maximum_reserved_shared_memory_bytes (execution_limits c)"
  "max_module_bytes (metadata c p d n) = of_nat (policy_max_module_bytes p)"
  "max_shared_memory_pages (metadata c p d n) = policy_max_shared_memory_pages p"
  by (simp_all add: metadata_def Let_def remaining_millis_def)

lemma SketchEpochLimits_new_eq:
  "SketchEpochLimits_new d t r =
     (if d \<noteq> 0 \<and> t \<noteq> 0 \<and> r \<noteq> 0
      then Inr \<lparr>wall_clock_deadline = d, tick_interval = t, maximum_active_registrations = r\<rparr>
      else Inl InvalidEpochLimits)"
  by (simp add: SketchEpochLimits_new_def epoch_is_valid_def)

lemma remaining_millis_pos: "0 < remaining_millis d n"
proof -
  have "(1000000::nat) div 1000000 \<le> max (d - n) 1000000 div 1000000"
    by (rule div_le_mono) simp
  then show ?thesis by (simp add: remaining_millis_def as_millis_def)
qed

lemma metadata_reconstructs:
  assumes "config_ok c" and "policy_ok p"
    and "1 \<le> as_millis (tick_interval (epoch_limits (execution_limits c)))"
    and "as_millis (tick_interval (epoch_limits (execution_limits c))) < 2 ^ 64"
    and "remaining_millis deadline now < 2 ^ 64"
  shows "reconstruct (metadata c p deadline now) = Inr (worker_config c deadline now, worker_policy p)"
proof -
  let ?l = "execution_limits c"
  define e where "e = \<lparr>wall_clock_deadline = remaining_millis deadline now * 1000000,
      tick_interval = as_millis (tick_interval (epoch_limits ?l)) * 1000000,
      maximum_active_registrations = maximum_active_registrations (epoch_limits ?l)\<rparr>"
  define x where "x = ?l\<lparr>epoch_limits := e\<rparr>"
  have valid: "execution_is_valid ?l" "fuel_is_valid (fuel_limits ?l)"
    and regs: "maximum_active_registrations (epoch_limits ?l) \<noteq> 0"
    using assms(1) by (simp_all add: config_ok_def execution_is_valid_def epoch_is_valid_def)
  then have e: "epoch_is_valid e"
    using assms(3) remaining_millis_pos [of deadline now] by (simp add: e_def epoch_is_valid_def)
  have epoch: "SketchEpochLimits_new (from_millis (millis_u64 (remaining_millis deadline now)))
      (from_millis (millis_u64 (as_millis (tick_interval (epoch_limits ?l)))))
      (maximum_active_registrations (epoch_limits ?l)) = Inr e"
    using assms(3,4,5) regs remaining_millis_pos [of deadline now]
    by (simp add: SketchEpochLimits_new_eq from_millis_u64 e_def)
  have "execution_is_valid x" using valid e by (simp add: x_def execution_is_valid_def)
  then have config: "and_then (SketchCompilerConfig_new (config_max_wasm_stack_bytes c))
      (with_execution_limits x) = Inr (c\<lparr>execution_limits := x\<rparr>)"
    using assms(1) by (intro reconstruct_config) (simp_all add: config_ok_def)
  have blobs: "with_blob_limits (blob_limits ?l)
      (?l\<lparr>epoch_limits := e, blob_limits := SketchBlobLimits_default\<rparr>) = x"
    by (simp add: with_blob_limits_def x_def)
  have cfg: "worker_config c deadline now = c\<lparr>execution_limits := x\<rparr>"
    by (cases "epoch_limits ?l") (simp add: worker_config_def Let_def x_def e_def)
  have bounds: "policy_max_module_bytes p \<le> usize_max" "policy_max_guest_threads p \<le> usize_max"
    "maximum_active_root_executions ?l \<le> usize_max" "config_max_wasm_stack_bytes c \<le> usize_max"
    "maximum_active_registrations (epoch_limits ?l) \<le> usize_max" "blobs_ok (blob_limits ?l)"
    using assms(1,2) by (auto simp: policy_ok_def config_ok_def MAX_GUEST_THREADS_V1_def usize_max_def)
  show ?thesis
    by (simp add: reconstruct_def metadata_fields reconstruct_blobs_metadata reconstruct_fuel
        reconstruct_limits [OF valid(1) e] reconstruct_policy [OF assms(2)]
        bounds valid epoch blobs config cfg)
qed

text \<open>C28: for a configuration and a module policy of the constructors, a tick of at least one and
  fewer than \<open>2 ^ 64\<close> milliseconds, and fewer than \<open>2 ^ 64\<close> milliseconds left, the worker rebuilds the
  parent's stack, memory, root, fuel, registration and blob limits and the policy's module size,
  pages and threads without a change.  Three things differ: the wall-clock deadline is the time left
  until the request's deadline (at least a millisecond), the tick is rounded down to whole
  milliseconds, and the policy always has the threaded profile without the validation flag,
  whichever profile the parent's policy had.\<close>

theorem policy_round_trip:
  assumes "config_ok c" and "policy_ok p"
    and "1 \<le> as_millis (tick_interval (epoch_limits (execution_limits c)))"
    and "as_millis (tick_interval (epoch_limits (execution_limits c))) < 2 ^ 64"
    and "remaining_millis deadline now < 2 ^ 64"
  shows "reconstruct (metadata c p deadline now) = Inr (worker_config c deadline now, worker_policy p)"
  using assms by (rule metadata_reconstructs)

text \<open>C39: a configuration whose tick interval is below one millisecond is valid in the parent, but
  its metadata carries a tick of zero, which the worker refuses.\<close>

theorem fine_tick_refused:
  assumes "config_ok c" and "policy_ok p"
    and "tick_interval (epoch_limits (execution_limits c)) < 1000000"
    and "remaining_millis deadline now < 2 ^ 64"
  shows "reconstruct (metadata c p deadline now)
       = Inl ''epoch limits must have a nonzero deadline, tick, and quota''"
proof -
  have "as_millis (tick_interval (epoch_limits (execution_limits c))) = 0"
    using assms(3) by (simp add: as_millis_def)
  moreover have "policy_max_guest_threads p \<le> usize_max"
    using assms(2) by (auto simp: policy_ok_def MAX_GUEST_THREADS_V1_def usize_max_def)
  ultimately show ?thesis
    using assms(1)
    by (simp add: reconstruct_def metadata_fields SketchEpochLimits_new_eq config_ok_def
        reconstruct_blobs_metadata reconstruct_fuel execution_is_valid_def from_millis_u64)
qed

definition sample_policy :: SketchModulePolicy where
  "sample_policy = \<lparr>policy_max_module_bytes = 1000, policy_max_shared_memory_pages = 16384,
     policy_max_guest_threads = 4, policy_profile = SyntheticV1, policy_validation = False\<rparr>"

lemma default_blobs: "SketchBlobLimits_default = DEFAULT_BLOB_LIMITS"
  by (simp add: SketchBlobLimits_default_def SketchBlobLimits_new_def BlobLimits_new_def
      checked_mul_def checked_add_def usize_max_def u32_max_def DEFAULT_BLOB_LIMITS_def)

lemma default_blobs_ok: "blobs_ok DEFAULT_BLOB_LIMITS"
  by (simp add: blobs_ok_def DEFAULT_BLOB_LIMITS_def u32_max_def usize_max_def)

lemma default_config_ok: "config_ok SketchCompilerConfig_default"
  by (simp add: config_ok_def SketchCompilerConfig_default_def SketchExecutionLimits_default_def
      execution_is_valid_def defaults_valid default_blobs default_blobs_ok
      usize_max_def SketchEpochLimits_default_def MAX_GUEST_THREADS_V1_def epoch_is_valid_def)

lemma sample_policy_ok: "policy_ok sample_policy"
  by (simp add: policy_ok_def sample_policy_def MAX_GUEST_THREADS_V1_def usize_max_def)

theorem policy_round_trip_witness:
  "reconstruct (metadata SketchCompilerConfig_default sample_policy 30000000000 7000000)
   = Inr (worker_config SketchCompilerConfig_default 30000000000 7000000,
       sample_policy\<lparr>policy_profile := ThreadedRustV1\<rparr>)
   \<and> policy_profile sample_policy = SyntheticV1"
  using policy_round_trip [OF default_config_ok sample_policy_ok, of 30000000000 7000000]
  by (simp add: worker_policy_def sample_policy_def SketchCompilerConfig_default_def
      SketchExecutionLimits_default_def
      SketchEpochLimits_default_def as_millis_def remaining_millis_def)

definition fine_tick_config :: SketchCompilerConfig where
  "fine_tick_config = SketchCompilerConfig_default\<lparr>execution_limits :=
     SketchExecutionLimits_default\<lparr>epoch_limits :=
       SketchEpochLimits_default\<lparr>tick_interval := 500000\<rparr>\<rparr>\<rparr>"

theorem fine_tick_refused_witness:
  "config_ok fine_tick_config \<and>
   reconstruct (metadata fine_tick_config sample_policy 30000000000 7000000)
   = Inl ''epoch limits must have a nonzero deadline, tick, and quota''"
proof
  show ok: "config_ok fine_tick_config"
    using default_config_ok
    by (simp add: config_ok_def fine_tick_config_def SketchCompilerConfig_default_def
        SketchExecutionLimits_default_def execution_is_valid_def epoch_is_valid_def
        SketchEpochLimits_default_def)
  show "reconstruct (metadata fine_tick_config sample_policy 30000000000 7000000)
      = Inl ''epoch limits must have a nonzero deadline, tick, and quota''"
    by (rule fine_tick_refused [OF ok sample_policy_ok])
      (simp_all add: fine_tick_config_def as_millis_def remaining_millis_def)
qed

end
