(* ===== verification/Worker_Report.thy ===== *)
theory Worker_Report
  imports Worker_Config
begin

text \<open>
  How an execution is reported: the worker turns its result into a terminal message
  (\<^verbatim>\<open>map_result\<close> and the end of \<^verbatim>\<open>execute_request\<close>) and the parent turns the
  message back into a semantic terminal (\<^verbatim>\<open>map_terminal\<close> in
  \<^verbatim>\<open>src/src/wasm/worker.rs\<close>).
\<close>

section \<open>The worker's report\<close>

definition rejections :: "RootOutcome \<Rightarrow> ThreadSpawnRejectionSummary \<Rightarrow> TerminalDetail" where
  "rejections outcome r =
     \<lparr>root_outcome = outcome, capacity_rejections = rejected_capacity r,
      closing_rejections = rejected_closing r, fuel_rejections = rejected_fuel r,
      epoch_rejections = rejected_epoch r, status_code = None\<rparr>"

fun map_result :: "SketchExecutionError + ThreadedRootOutcome
    \<Rightarrow> TerminalKind \<times> TerminalDetail \<times> utf8_string" where
  "map_result (Inr Started) =
     (TK_Completed, TerminalDetail_none\<lparr>root_outcome := RO_Started\<rparr>, ascii ''started'')"
| "map_result (Inr Exited) =
     (TK_Completed, TerminalDetail_none\<lparr>root_outcome := RO_Exited\<rparr>, ascii ''exited'')"
| "map_result (Inr (StartedWithThreadRejections r)) =
     (TK_Completed, rejections RO_StartedWithThreadRejections r, ascii ''started'')"
| "map_result (Inr (ExitedWithThreadRejections r)) =
     (TK_Completed, rejections RO_ExitedWithThreadRejections r, ascii ''exited'')"
| "map_result (Inl ExecutionCancelled) = (TK_Cancelled, TerminalDetail_none, ascii ''cancelled'')"
| "map_result (Inl DeadlineExceeded) =
     (TK_DeadlineExceeded, TerminalDetail_none, ascii ''deadline-exceeded'')"
| "map_result (Inl OutOfFuel) = (TK_OutOfFuel, TerminalDetail_none, ascii ''out-of-fuel'')"
| "map_result (Inl Trapped) = (TK_Trapped, TerminalDetail_none, ascii ''trapped'')"
| "map_result (Inl (NonzeroExit code)) =
     (TK_NonzeroExit, TerminalDetail_none\<lparr>status_code := Some code\<rparr>, ascii ''nonzero-exit'')"
| "map_result (Inl (ChildNonzeroExit code)) =
     (TK_ChildFailure, TerminalDetail_none\<lparr>status_code := Some code\<rparr>, ascii ''child-nonzero-exit'')"
| "map_result (Inl ChildTrapped) = (TK_ChildFailure, TerminalDetail_none, ascii ''child-failure'')"
| "map_result (Inl ChildPanicked) = (TK_ChildFailure, TerminalDetail_none, ascii ''child-failure'')"
| "map_result (Inl (ChildOutcomes _)) =
     (TK_ChildFailure, TerminalDetail_none, ascii ''child-failure'')"
| "map_result (Inl error) =
     (TK_WorkerFailure, TerminalDetail_none, ascii (SketchExecutionError_code error))"

definition counters_are_zero :: "FinalCounters \<Rightarrow> bool" where
  "counters_are_zero v \<longleftrightarrow>
     active_roots v = 0 \<and> live_stores v = 0 \<and> live_instances v = 0
     \<and> active_epoch_registrations v = 0 \<and> live_threads v = 0"

text \<open>What the sketch engine answers during one request.\<close>

record engine =
  engine_runtime :: "string option"
  engine_compiler :: "SketchCompilerConfig \<Rightarrow> string option"
  engine_admit :: "u8 list \<Rightarrow> SketchModulePolicy \<Rightarrow> string option"
  engine_execute :: "u8 list \<Rightarrow> SketchExecutionError + ThreadedRootOutcome"
  engine_counters :: FinalCounters

definition report :: "('w \<Rightarrow> u8 list \<Rightarrow> bool \<times> 'w) \<Rightarrow> ('w \<Rightarrow> bool \<times> 'w) \<Rightarrow> u64
    \<Rightarrow> SketchExecutionError + ThreadedRootOutcome \<Rightarrow> FinalCounters
    \<Rightarrow> ('w, worker_error, unit) state_result" where
  "report write_all flush request_id result counters =
     (let (kind, detail, diagnostic) =
        (if counters_are_zero counters then map_result result
         else (TK_WorkerFailure, TerminalDetail_none, ascii ''nonzero-worker-counters'')) in
      s_bind (s_lift (bound diagnostic)) (\<lambda>diagnostic.
      s_map_err protocol_text (write_message write_all flush
        (Msg_Terminal request_id kind detail diagnostic counters))))"

text \<open>
  A build without native web views. A request that asks for one is refused; a policy that
  cannot be rebuilt is reported and then also ends the worker with an error.
\<close>

definition execute_request :: "('w \<Rightarrow> u8 list \<Rightarrow> bool \<times> 'w) \<Rightarrow> ('w \<Rightarrow> bool \<times> 'w) \<Rightarrow> engine \<Rightarrow> u64
    \<Rightarrow> ExecuteMetadata \<Rightarrow> u8 list \<Rightarrow> ('w, worker_error, unit) state_result" where
  "execute_request write_all flush eng request_id md module =
     (if webview_url md \<noteq> None then
        protocol_terminal write_all flush request_id (ascii ''native-webview-worker-unavailable'')
      else case reconstruct md of
        Inl t \<Rightarrow>
          s_bind (protocol_terminal write_all flush request_id (ascii t))
            (\<lambda>_. s_lift (Inl (WorkerText t)))
      | Inr (config, policy) \<Rightarrow>
          (case engine_runtime eng of
             Some e \<Rightarrow> s_lift (Inl (WorkerText e))
           | None \<Rightarrow>
               (case engine_compiler eng config of
                  Some e \<Rightarrow> protocol_terminal write_all flush request_id (ascii e)
                | None \<Rightarrow>
                    (case engine_admit eng module policy of
                       Some e \<Rightarrow> protocol_terminal write_all flush request_id (ascii e)
                     | None \<Rightarrow>
                         report write_all flush request_id (engine_execute eng module)
                           (engine_counters eng)))))"

section \<open>The parent's reading of it\<close>

datatype SketchWorkerStopReason = Stop_Cancelled | Stop_DeadlineExceeded

datatype SketchWorkerFailure =
    WF_InvalidConfiguration | WF_Launch | WF_Protocol | WF_UnexpectedExit
  | WF_ContainmentCleanup | WF_ChildFailure | WF_WorkerReportedFailure
  | WF_WorkerForcedContainment | WF_OutputGrant | WF_OutputCommit | WF_OutputCleanup
  | WF_OutputCommittedCleanup

datatype SketchWorkerTerminal =
    WT_Completed ThreadedRootOutcome
  | WT_Stopped SketchWorkerStopReason
  | WT_ForcedContainment SketchWorkerStopReason
  | WT_Execution SketchExecutionError
  | WT_Failure SketchWorkerFailure

definition from_worker_counts :: "u32 \<Rightarrow> u32 \<Rightarrow> u32 \<Rightarrow> u32 \<Rightarrow> ThreadSpawnRejectionSummary" where
  "from_worker_counts capacity closing fuel epoch =
     \<lparr>rejected_capacity = capacity, rejected_closing = closing, rejected_fuel = fuel,
      rejected_epoch = epoch\<rparr>"

definition zero :: "FinalCounters \<Rightarrow> bool" where
  "zero c \<longleftrightarrow>
     active_roots c = 0 \<and> live_stores c = 0 \<and> live_instances c = 0
     \<and> active_epoch_registrations c = 0 \<and> live_threads c = 0"

fun map_terminal_kind :: "TerminalKind \<Rightarrow> TerminalDetail
    \<Rightarrow> SketchWorkerFailure + SketchWorkerTerminal" where
  "map_terminal_kind TK_Completed detail =
     (let rejected = from_worker_counts (capacity_rejections detail) (closing_rejections detail)
            (fuel_rejections detail) (epoch_rejections detail) in
      case root_outcome detail of
        RO_Started \<Rightarrow> Inr (WT_Completed Started)
      | RO_Exited \<Rightarrow> Inr (WT_Completed Exited)
      | RO_StartedWithThreadRejections \<Rightarrow> Inr (WT_Completed (StartedWithThreadRejections rejected))
      | RO_ExitedWithThreadRejections \<Rightarrow> Inr (WT_Completed (ExitedWithThreadRejections rejected))
      | RO_None \<Rightarrow> Inl WF_Protocol)"
| "map_terminal_kind TK_Cancelled _ = Inr (WT_Stopped Stop_Cancelled)"
| "map_terminal_kind TK_DeadlineExceeded _ = Inr (WT_Stopped Stop_DeadlineExceeded)"
| "map_terminal_kind TK_OutOfFuel _ = Inr (WT_Execution OutOfFuel)"
| "map_terminal_kind TK_Trapped _ = Inr (WT_Execution Trapped)"
| "map_terminal_kind TK_NonzeroExit detail =
     and_then (ok_or WF_Protocol (status_code detail)) (\<lambda>code. Inr (WT_Execution (NonzeroExit code)))"
| "map_terminal_kind TK_ChildFailure detail =
     (case status_code detail of
        Some code \<Rightarrow> Inr (WT_Execution (ChildNonzeroExit code))
      | None \<Rightarrow> Inr (WT_Failure WF_ChildFailure))"
| "map_terminal_kind TK_WorkerFailure _ = Inr (WT_Failure WF_WorkerReportedFailure)"
| "map_terminal_kind TK_ProtocolFailure _ = Inr (WT_Failure WF_Protocol)"
| "map_terminal_kind TK_ForcedContainment _ = Inr (WT_Failure WF_WorkerForcedContainment)"

definition map_terminal :: "Message \<Rightarrow> u64 \<Rightarrow> SketchWorkerFailure + SketchWorkerTerminal" where
  "map_terminal message i =
     (case message of
        Msg_Terminal request_id kind detail _ counters \<Rightarrow>
          if request_id \<noteq> i \<or> \<not> zero counters then Inl WF_Protocol
          else map_terminal_kind kind detail
      | _ \<Rightarrow> Inl WF_Protocol)"

section \<open>What arrives of an outcome\<close>

text \<open>
  The terminal the parent is to read for a result.  The wire does not keep every distinction of the
  worker: the trap, the panic and the collected outcomes of child threads arrive as one child
  failure, and every error without a case of its own arrives as one reported failure.
\<close>

fun reported_terminal :: "SketchExecutionError + ThreadedRootOutcome \<Rightarrow> SketchWorkerTerminal" where
  "reported_terminal (Inr outcome) = WT_Completed outcome"
| "reported_terminal (Inl ExecutionCancelled) = WT_Stopped Stop_Cancelled"
| "reported_terminal (Inl DeadlineExceeded) = WT_Stopped Stop_DeadlineExceeded"
| "reported_terminal (Inl OutOfFuel) = WT_Execution OutOfFuel"
| "reported_terminal (Inl Trapped) = WT_Execution Trapped"
| "reported_terminal (Inl (NonzeroExit c)) = WT_Execution (NonzeroExit c)"
| "reported_terminal (Inl (ChildNonzeroExit c)) = WT_Execution (ChildNonzeroExit c)"
| "reported_terminal (Inl ChildTrapped) = WT_Failure WF_ChildFailure"
| "reported_terminal (Inl ChildPanicked) = WT_Failure WF_ChildFailure"
| "reported_terminal (Inl (ChildOutcomes _)) = WT_Failure WF_ChildFailure"
| "reported_terminal (Inl _) = WT_Failure WF_WorkerReportedFailure"

text \<open>
  The results that can be delivered: a rejection outcome has a rejection (which is how the
  host builds it), no exit code is the smallest \<^verbatim>\<open>i32\<close>, and no child exit code.
\<close>

fun reportable :: "SketchExecutionError + ThreadedRootOutcome \<Rightarrow> bool" where
  "reportable (Inr (StartedWithThreadRejections r)) = (\<not> rejections_is_empty r)"
| "reportable (Inr (ExitedWithThreadRejections r)) = (\<not> rejections_is_empty r)"
| "reportable (Inl (NonzeroExit c)) = (c \<noteq> NO_STATUS_CODE)"
| "reportable (Inl (ChildNonzeroExit _)) = False"
| "reportable _ = True"

text \<open>The results whose terminal is their own: no other result is reported like them.\<close>

fun told_exactly :: "SketchExecutionError + ThreadedRootOutcome \<Rightarrow> bool" where
  "told_exactly (Inr _) = True"
| "told_exactly (Inl ExecutionCancelled) = True"
| "told_exactly (Inl DeadlineExceeded) = True"
| "told_exactly (Inl OutOfFuel) = True"
| "told_exactly (Inl Trapped) = True"
| "told_exactly (Inl (NonzeroExit _)) = True"
| "told_exactly (Inl _) = False"

lemma told_exactly_unique:
  assumes "told_exactly result"
  shows "{r. reported_terminal result = reported_terminal r} = {result}"
proof -
  have "r = result" if "reported_terminal result = reported_terminal r" for r
    using assms that by (cases result rule: told_exactly.cases; cases r rule: reported_terminal.cases) simp_all
  then show ?thesis by auto
qed

lemma ascii_simps [simp]: "ascii [] = []" "ascii (c # cs) = of_char c # ascii cs"
  by (simp_all add: ascii_def)

lemma length_ascii [simp]: "length (ascii s) = length s"
  by (simp add: ascii_def)

definition seven_bit :: "string \<Rightarrow> bool" where
  "seven_bit s \<longleftrightarrow> list_all (\<lambda>c. \<not> digit7 c) s"

lemma seven_bit_simps [simp]: "seven_bit []" "seven_bit (c # cs) \<longleftrightarrow> \<not> digit7 c \<and> seven_bit cs"
  by (simp_all add: seven_bit_def)

lemma of_char_seven_bit: "\<not> digit7 c \<Longrightarrow> (of_char c :: u8) < 0x80"
  by (cases c) (auto simp: of_char_def)

lemma ascii_utf8: "seven_bit s \<Longrightarrow> utf8_valid (ascii s)"
  by (rule ascii_utf8_valid) (auto simp: ascii_def seven_bit_def list_all_iff of_char_seven_bit)

lemma map_result_ok:
  assumes "reportable r" "map_result r = (kind, detail, diagnostic)"
  shows "TerminalDetail_validate detail kind = Inr ()
       \<and> status_code detail \<noteq> Some NO_STATUS_CODE
       \<and> utf8_valid diagnostic \<and> length diagnostic \<le> 1024
       \<and> map_terminal_kind kind detail = Inr (reported_terminal r)"
  using assms
  by (cases r rule: map_result.cases)
    (auto simp: TerminalDetail_validate_def TerminalDetail_none_def rejections_def
      has_rejection_counts_def outcome_with_rejections_def rejections_is_empty_def
      from_worker_counts_def intro!: ascii_utf8)

lemma encode_terminal:
  assumes "i \<noteq> 0" "TerminalDetail_validate detail kind = Inr ()" "length diagnostic \<le> 1024"
  obtains frame where "encode (Msg_Terminal i kind detail diagnostic counters) = Inr frame"
  using assms
  by (simp add: encode_def Let_def MAX_DIAGNOSTIC_BYTES_def MAX_FRAME_PAYLOAD_def u32_max_def
      put_counters_def)

lemma pipe_write_encode: "encode m = Inr frame \<Longrightarrow> pipe_write m w = (Inr (), w @ frame)"
  by (simp add: pipe_write_Inr_iff)

lemma zero_counters_zero [simp]: "counters_are_zero zero_counters" "zero zero_counters"
  by (simp_all add: counters_are_zero_def zero_def zero_counters_def)

abbreviation pipe_report :: "u64 \<Rightarrow> SketchExecutionError + ThreadedRootOutcome
    \<Rightarrow> FinalCounters \<Rightarrow> (u8 list, worker_error, unit) state_result" where
  "pipe_report \<equiv> report pipe_write_all pipe_flush"

lemma pipe_report_eq:
  assumes "map_result r = (kind, detail, diagnostic)" "length diagnostic \<le> 1024"
  shows "pipe_report i r zero_counters out =
     s_map_err protocol_text (pipe_write (Msg_Terminal i kind detail diagnostic zero_counters)) out"
  using assms by (simp add: report_def s_bind_def s_lift_def bound_def)

text \<open>C29: take a request id other than zero, a result that is reportable (a rejection outcome counts
  a rejection, the exit code is not the smallest \<^verbatim>\<open>i32\<close>, and it is not a child's exit code) and
  final counters that are all zero.  Then the worker writes one report, and the parent that reads
  it gets the terminal of that result: completed with the same root outcome and rejection counts,
  stopped for the same reason, out of fuel, trapped or the same exit code, each of which stands
  for that one result only; a child's trap or panic and a list of child outcomes are read as one
  and the same child failure, and every other error as one reported failure.\<close>

theorem report_round_trip:
  assumes "i \<noteq> 0" and "reportable r"
  shows "\<exists>frame message.
     pipe_report i r zero_counters out = (Inr (), out @ frame)
     \<and> read_message (frame @ rest) = Inr (message, rest)
     \<and> map_terminal message i = Inr (reported_terminal r)
     \<and> (told_exactly r \<longrightarrow> {r'. map_terminal message i = Inr (reported_terminal r')} = {r})"
proof -
  obtain kind detail diagnostic where r: "map_result r = (kind, detail, diagnostic)"
    by (cases "map_result r")
  note ok = map_result_ok [OF assms(2) r]
  then obtain frame where f: "encode (Msg_Terminal i kind detail diagnostic zero_counters) = Inr frame"
    using encode_terminal [OF assms(1)] by blast
  have "pipe_report i r zero_counters out = (Inr (), out @ frame)"
    using ok r by (simp add: pipe_report_eq s_map_err_def pipe_write_encode [OF f])
  moreover have "read_message (frame @ rest)
      = Inr (Msg_Terminal i kind detail diagnostic zero_counters, rest)"
    using ok by (intro read_message_encode f) simp
  ultimately show ?thesis using ok told_exactly_unique [of r]
    by (auto simp: map_terminal_def)
qed

theorem report_round_trip_witness:
  "\<exists>frame message.
     pipe_report 9 (Inl (NonzeroExit 3)) zero_counters [] = (Inr (), [] @ frame)
     \<and> read_message (frame @ [1]) = Inr (message, [1])
     \<and> map_terminal message 9 = Inr (WT_Execution (NonzeroExit 3))
     \<and> {r'. map_terminal message 9 = Inr (reported_terminal r')} = {Inl (NonzeroExit 3)}"
  using report_round_trip [of 9 "Inl (NonzeroExit 3)" "[]" "[1]"] by (simp add: NO_STATUS_CODE_def)

text \<open>C38: when a guest child thread exits with a nonzero code, the worker writes no terminal report
  and fails, so the parent never learns of that outcome.\<close>

theorem child_exit_report_lost:
  assumes "i \<noteq> 0"
  shows "pipe_report i (Inl (ChildNonzeroExit code)) zero_counters out
       = (Inl (WorkerText ''protocol:InvalidTerminal''), out)"
  using assms
  by (simp add: pipe_report_eq s_map_err_def write_message_def child_failure_code_refused
      protocol_text_def)

theorem child_exit_report_lost_witness:
  "pipe_report 9 (Inl (ChildNonzeroExit 3)) zero_counters []
   = (Inl (WorkerText ''protocol:InvalidTerminal''), [])"
  by (rule child_exit_report_lost) simp

text \<open>C40: an exit code equal to the smallest 32-bit integer is written as a report that the parent
  refuses to read, because that value stands for "no code" on the wire.\<close>

theorem minimum_exit_code_unreadable:
  assumes "i \<noteq> 0"
  shows "\<exists>frame. pipe_report i (Inl (NonzeroExit NO_STATUS_CODE)) zero_counters out
            = (Inr (), out @ frame) \<and> read_message (frame @ rest) = Inl InvalidTerminal"
proof -
  let ?d = "TerminalDetail_none\<lparr>status_code := Some NO_STATUS_CODE\<rparr>"
  let ?m = "Msg_Terminal i TK_NonzeroExit ?d (ascii ''nonzero-exit'') zero_counters"
  have "TerminalDetail_validate ?d TK_NonzeroExit = Inr ()"
    by (simp add: TerminalDetail_validate_def TerminalDetail_none_def has_rejection_counts_def)
  then obtain frame where f: "encode ?m = Inr frame"
    using encode_terminal [OF assms, of ?d TK_NonzeroExit "ascii ''nonzero-exit''"]
    by auto
  then obtain body where b: "encode_body ?m = Inr body" "8 + length body \<le> MAX_FRAME_PAYLOAD"
    "frame = frame_header Kind_Terminal (8 + length body) @ put_u64 i @ body"
    by (rule encode_framed) auto
  have "decode_body Kind_Terminal i body = Inl InvalidTerminal"
    using b(1)
    by (simp add: and_then_Inr_iff TerminalDetail_validate_def TerminalDetail_none_def
        has_rejection_counts_def MAX_DIAGNOSTIC_BYTES_def)
      (auto simp: codec_simps TerminalDetail_validate_def has_rejection_counts_def Let_def
        TerminalKind_try_from_def RootOutcome_try_from_def)
  with b assms have "decode frame = Inl InvalidTerminal" by (simp add: decode_framed)
  then have "read_message (frame @ rest) = Inl InvalidTerminal"
    by (simp add: read_message_frame [OF f])
  with f show ?thesis
    by (auto simp: pipe_report_eq s_map_err_def pipe_write_encode)
qed


theorem minimum_exit_code_unreadable_witness:
  "\<exists>frame. pipe_report 9 (Inl (NonzeroExit NO_STATUS_CODE)) zero_counters []
      = (Inr (), [] @ frame) \<and> read_message (frame @ []) = Inl InvalidTerminal"
  by (rule minimum_exit_code_unreadable) simp

end
