(* ===== verification/Worker_Parent.thy ===== *)
theory Worker_Parent
  imports Worker_Report
begin

text \<open>
  The parent's side of a request (\<^verbatim>\<open>src/src/wasm/worker.rs\<close>): the receive phase machine,
  the upload, the response forwarder, the supervision loop with its containment paths, the
  parent ledger and the publication of staged output (\<^verbatim>\<open>worker/output.rs\<close>). Everything the
  loop observes in one pass (channels, clock, process state) is a field of an observation, so a
  run is a fold over a list of observations. An early return of the loop is the left summand.
\<close>

section \<open>The parent ledger\<close>

record WorkerExecutionLedger =
  wl_spawned :: u64
  wl_cancel_sent :: u64
  wl_grace_expired :: u64
  wl_forced :: u64
  wl_reaped :: u64
  wl_protocol_failures :: u64

definition record_spawned :: "WorkerExecutionLedger \<Rightarrow> WorkerExecutionLedger" where
  "record_spawned l = l\<lparr>wl_spawned := wl_spawned l + 1\<rparr>"

definition record_cancel_sent :: "WorkerExecutionLedger \<Rightarrow> WorkerExecutionLedger" where
  "record_cancel_sent l = l\<lparr>wl_cancel_sent := wl_cancel_sent l + 1\<rparr>"

definition record_grace_expired :: "WorkerExecutionLedger \<Rightarrow> WorkerExecutionLedger" where
  "record_grace_expired l = l\<lparr>wl_grace_expired := wl_grace_expired l + 1\<rparr>"

definition record_forced :: "WorkerExecutionLedger \<Rightarrow> WorkerExecutionLedger" where
  "record_forced l = l\<lparr>wl_forced := wl_forced l + 1\<rparr>"

definition record_reaped :: "WorkerExecutionLedger \<Rightarrow> WorkerExecutionLedger" where
  "record_reaped l = l\<lparr>wl_reaped := wl_reaped l + 1\<rparr>"

definition record_protocol_failure :: "WorkerExecutionLedger \<Rightarrow> WorkerExecutionLedger" where
  "record_protocol_failure l = l\<lparr>wl_protocol_failures := wl_protocol_failures l + 1\<rparr>"

lemmas ledger_defs = record_spawned_def record_cancel_sent_def record_grace_expired_def
  record_forced_def record_reaped_def record_protocol_failure_def

section \<open>The receive phase\<close>

record ParentReceivePhase =
  ph_request_id :: u64
  hello_acked :: bool
  upload_queued :: bool
  upload_complete :: bool
  execute_ack_deferred :: bool
  execute_acked :: bool
  trace_received :: bool

datatype ParentReceiveAction =
    QueueUpload | AwaitingUpload | ExecuteAcknowledged | TraceReceived | Action_Terminal Message

definition phase_new :: "u64 \<Rightarrow> ParentReceivePhase" where
  "phase_new request_id =
     \<lparr>ph_request_id = request_id, hello_acked = False, upload_queued = False,
      upload_complete = False, execute_ack_deferred = False, execute_acked = False,
      trace_received = False\<rparr>"

definition phase_upload_queued :: "ParentReceivePhase \<Rightarrow> ParentReceivePhase" where
  "phase_upload_queued p = p\<lparr>upload_queued := True\<rparr>"

text \<open>The result of the writer is a flag: true for \<^verbatim>\<open>Ok\<close>.\<close>

definition phase_upload :: "bool \<Rightarrow> (ParentReceivePhase, SketchWorkerFailure, unit) state_result" where
  "phase_upload ok p =
     (if \<not> ok \<or> \<not> hello_acked p \<or> \<not> upload_queued p \<or> upload_complete p
      then (Inl WF_Protocol, p)
      else let p = p\<lparr>upload_complete := True\<rparr> in
        (Inr (), if execute_ack_deferred p then p\<lparr>execute_acked := True\<rparr> else p))"

definition receive :: "Message \<Rightarrow> (ParentReceivePhase, SketchWorkerFailure, ParentReceiveAction) state_result" where
  "receive message p =
     (if Message_request_id message \<noteq> ph_request_id p then (Inl WF_Protocol, p)
      else case message of
        Msg_Trace _ _ \<Rightarrow>
          if execute_acked p \<and> \<not> trace_received p
          then (Inr TraceReceived, p\<lparr>trace_received := True\<rparr>)
          else (Inl WF_Protocol, p)
      | Msg_HelloAck _ \<Rightarrow>
          if \<not> hello_acked p then (Inr QueueUpload, p\<lparr>hello_acked := True\<rparr>)
          else (Inl WF_Protocol, p)
      | Msg_ExecuteAck _ \<Rightarrow>
          if hello_acked p \<and> upload_queued p \<and> \<not> execute_ack_deferred p \<and> \<not> execute_acked p
          then if upload_complete p
            then (Inr ExecuteAcknowledged, p\<lparr>execute_acked := True\<rparr>)
            else (Inr AwaitingUpload, p\<lparr>execute_ack_deferred := True\<rparr>)
          else (Inl WF_Protocol, p)
      | Msg_Terminal _ _ _ _ _ \<Rightarrow>
          if execute_acked p then (Inr (Action_Terminal message), p)
          else (Inl WF_Protocol, p)
      | _ \<Rightarrow> (Inl WF_Protocol, p))"

section \<open>The upload\<close>

function chunks :: "nat \<Rightarrow> 'a list \<Rightarrow> 'a list list" where
  "chunks n xs = (if xs = [] \<or> n = 0 then [] else take n xs # chunks n (drop n xs))"
  by pat_completeness auto

termination chunks
  by (relation "measure (length \<circ> snd)") auto

declare chunks.simps [simp del]

definition UPLOAD_CHUNK :: nat where
  "UPLOAD_CHUNK = MAX_FRAME_PAYLOAD - 12"

text \<open>The loop over \<^verbatim>\<open>chunks(..).enumerate()\<close> from a sequence number on.\<close>

primrec write_chunks :: "('w \<Rightarrow> u8 list \<Rightarrow> bool \<times> 'w) \<Rightarrow> ('w \<Rightarrow> bool \<times> 'w) \<Rightarrow> u64 \<Rightarrow> nat
    \<Rightarrow> u8 list list \<Rightarrow> ('w, unit, unit) state_result" where
  "write_chunks write_all flush request_id sequence [] = s_return ()"
| "write_chunks write_all flush request_id sequence (bytes # cs) =
     (if u32_max < sequence then s_lift (Inl ())
      else s_bind (s_map_err (\<lambda>_. ()) (write_message write_all flush
             (Msg_ModuleChunk request_id (of_nat sequence) bytes)))
           (\<lambda>_. write_chunks write_all flush request_id (sequence + 1) cs))"

definition write_upload :: "('w \<Rightarrow> u8 list \<Rightarrow> bool \<times> 'w) \<Rightarrow> ('w \<Rightarrow> bool \<times> 'w) \<Rightarrow> u64 \<Rightarrow> u8 list
    \<Rightarrow> ExecuteMetadata \<Rightarrow> ('w, unit, unit) state_result" where
  "write_upload write_all flush request_id source md =
     s_bind (s_map_err (\<lambda>_. ()) (write_message write_all flush
       (Msg_ExecuteStart request_id (of_nat (length source)) md))) (\<lambda>_.
     s_bind (write_chunks write_all flush request_id 0 (chunks UPLOAD_CHUNK source)) (\<lambda>_.
     s_map_err (\<lambda>_. ()) (write_message write_all flush (Msg_ExecuteEnd request_id))))"

section \<open>The response forwarder\<close>

text \<open>
  What the reader thread puts on the channel for a worker's output. The channel may be closed
  at any send; \<open>accepted\<close> counts how many sends succeed before that.
\<close>

fun forwardable :: "Message \<Rightarrow> bool" where
  "forwardable (Msg_HelloAck _) = True"
| "forwardable (Msg_ExecuteAck _) = True"
| "forwardable (Msg_Trace _ _) = True"
| "forwardable (Msg_Terminal _ _ _ _ _) = True"
| "forwardable _ = False"

definition read_response :: "u8 list \<Rightarrow> (unit + Message) \<times> u8 list" where
  "read_response output =
     (case read_message output of
        Inl _ \<Rightarrow> (Inl (), output)
      | Inr (m, rest) \<Rightarrow> (if forwardable m then Inr m else Inl (), rest))"

primrec forward_loop :: "nat \<Rightarrow> nat \<Rightarrow> u8 list \<Rightarrow> (unit + Message) list" where
  "forward_loop 0 accepted output = (if accepted = 0 then [] else [Inl ()])"
| "forward_loop (Suc n) accepted output =
     (let (message, rest) = read_response output;
          finished = (case message of Inl _ \<Rightarrow> True | Inr m \<Rightarrow> Message_kind m = Kind_Terminal) in
      if accepted = 0 then []
      else message # (if finished then [] else forward_loop n (accepted - 1) rest))"

definition forward_worker_responses :: "nat \<Rightarrow> u8 list \<Rightarrow> (unit + Message) list" where
  "forward_worker_responses accepted output = forward_loop 4 accepted output"

section \<open>The upload as a message sequence\<close>

lemma concat_chunks: "0 < n \<Longrightarrow> concat (chunks n xs) = xs"
  by (induction n xs rule: chunks.induct) (subst chunks.simps, auto)

lemma chunks_bound: "c \<in> set (chunks n xs) \<Longrightarrow> length c \<le> n"
proof (induction n xs rule: chunks.induct)
  case (1 n xs)
  then show ?case by (subst (asm) chunks.simps) (auto split: if_splits)
qed

lemma length_chunks: "0 < n \<Longrightarrow> length (chunks n xs) \<le> length xs"
proof (induction n xs rule: chunks.induct)
  case (1 n xs)
  show ?case
  proof (cases "xs = []")
    case False
    with 1 have "length (chunks n (drop n xs)) \<le> length xs - n" by simp
    with False 1(2) show ?thesis
      by (subst chunks.simps) (simp add: Suc_le_eq, cases xs, auto)
  qed (simp add: chunks.simps)
qed

lemma write_chunks_messages:
  assumes "seq + length cs \<le> 2 ^ 32"
  shows "write_chunks pipe_write_all pipe_flush i seq cs w = (Inr (), w') \<longleftrightarrow>
     pipe_write_list (chunk_messages i (of_nat seq) cs) w = (Inr (), w')"
  using assms
proof (induction cs arbitrary: seq w)
  case Nil
  show ?case by (simp add: pipe_write_list.simps s_return_Inr_iff)
next
  case (Cons c cs)
  then have "\<not> u32_max < seq" by (simp add: u32_max_def)
  moreover have "(of_nat seq :: u32) + 1 = of_nat (seq + 1)" by simp
  moreover have "seq + 1 + length cs \<le> 2 ^ 32" using Cons.prems by simp
  note Cons.IH [OF this]
  ultimately show ?case
    by (simp only: write_chunks.simps chunk_messages.simps pipe_write_list.simps s_bind_Inr_iff
        s_map_err_Inr_iff if_False)
qed

lemma metadata_length:
  "put_metadata md = Inr bs \<Longrightarrow> metadata_valid md \<Longrightarrow> length bs \<le> 100000"
proof -
  assume "put_metadata md = Inr bs" and valid: "metadata_valid md"
  then obtain u p where u: "put_webview_url (webview_url md) = Inr u"
    and p: "put_output_path (staged_output md) = Inr p"
    and bs: "length bs = length u + length p + sum_list (map length (map put_u64 (blob_limits_wire md))) + 108"
    by (auto simp: put_metadata_def and_then_Inr_iff length_concat)
  have "length u \<le> 4 + 16384"
    using u by (auto simp: put_webview_url_def MAX_WEBVIEW_URL_BYTES_def split: option.splits if_splits)
  moreover have "length p \<le> 5 + 65536"
    using p by (auto simp: put_output_path_def MAX_OUTPUT_PATH_BYTES_def split: option.splits if_splits)
  moreover have "sum_list (map length (map put_u64 xs)) = 8 * length xs" for xs
    by (induction xs) simp_all
  ultimately show ?thesis using bs valid by (simp add: metadata_valid_def)
qed

lemma encode_small:
  assumes "encode_body m = Inr body" "length body + 8 \<le> MAX_FRAME_PAYLOAD" "Message_request_id m \<noteq> 0"
  shows "\<exists>frame. encode m = Inr frame"
  using assms by (simp add: encode_def Let_def u32_max_def MAX_FRAME_PAYLOAD_def)

lemma encode_start:
  assumes "i \<noteq> 0" "put_metadata md = Inr bs" "metadata_valid md"
  shows "\<exists>frame. encode (Msg_ExecuteStart i n md) = Inr frame"
  using metadata_length [OF assms(2,3)] assms
  by (intro encode_small [of _ "put_u64 n @ bs"]) (simp_all add: MAX_FRAME_PAYLOAD_def)

lemma encode_plain:
  assumes "i \<noteq> 0"
  shows "\<exists>frame. encode (Msg_Hello i) = Inr frame" "\<exists>frame. encode (Msg_HelloAck i) = Inr frame"
    "\<exists>frame. encode (Msg_ExecuteEnd i) = Inr frame" "\<exists>frame. encode (Msg_ExecuteAck i) = Inr frame"
  using assms by (auto intro!: encode_small [of _ "[]"] simp: MAX_FRAME_PAYLOAD_def)

lemma encode_chunk:
  assumes "i \<noteq> 0" "length c \<le> UPLOAD_CHUNK"
  shows "\<exists>frame. encode (Msg_ModuleChunk i seq c) = Inr frame"
  using assms
  by (intro encode_small [of _ "put_u32 seq @ c"]) (simp_all add: UPLOAD_CHUNK_def MAX_FRAME_PAYLOAD_def)

lemma pipe_write_list_total:
  "(\<And>m. m \<in> set ms \<Longrightarrow> \<exists>frame. encode m = Inr frame) \<Longrightarrow> \<exists>w. pipe_write_list ms [] = (Inr (), w)"
  by (induction ms) (force simp: pipe_write_list_iffs)+

lemma chunk_messages_set:
  "m \<in> set (chunk_messages i seq cs) \<Longrightarrow> \<exists>s c. m = Msg_ModuleChunk i s c \<and> c \<in> set cs"
  by (induction cs arbitrary: seq) (auto, blast)

lemma upload_messages_written:
  assumes "i \<noteq> 0"
  shows "\<exists>w. pipe_write_list (chunk_messages i 0 (chunks UPLOAD_CHUNK source) @ [Msg_ExecuteEnd i]) [] = (Inr (), w)"
  by (rule pipe_write_list_total)
    (use assms in \<open>auto dest!: chunk_messages_set chunks_bound intro: encode_chunk encode_plain\<close>)

lemma pipe_write_list_append:
  "pipe_write_list (ms @ ns) w = (Inr (), w') \<longleftrightarrow>
   (\<exists>u. pipe_write_list ms w = (Inr (), u) \<and> pipe_write_list ns u = (Inr (), w'))"
  by (induction ms arbitrary: w) (auto simp: pipe_write_list.simps s_bind_Inr_iff s_return_def)

lemma write_upload_messages:
  assumes "length source \<le> 2 ^ 32"
  shows "write_upload pipe_write_all pipe_flush i source md w = (Inr (), w') \<longleftrightarrow>
     pipe_write_list (Msg_ExecuteStart i (of_nat (length source)) md
       # chunk_messages i 0 (chunks UPLOAD_CHUNK source) @ [Msg_ExecuteEnd i]) w = (Inr (), w')"
proof -
  have "0 + length (chunks UPLOAD_CHUNK source) \<le> 2 ^ 32"
    using length_chunks [of UPLOAD_CHUNK source] assms
    by (simp add: UPLOAD_CHUNK_def MAX_FRAME_PAYLOAD_def)
  from write_chunks_messages [OF this] show ?thesis
    by (simp add: write_upload_def s_bind_Inr_iff s_map_err_Inr_iff pipe_write_list_append
        pipe_write_list.simps s_return_Inr_iff)
qed


section \<open>The worker's side of the sequence\<close>

lemma unat_u64_bound: "unat (v :: u64) \<le> usize_max"
proof -
  have "unat v < 2 ^ LENGTH(64)" by (rule unsigned_less)
  then show ?thesis by (simp add: usize_max_def)
qed

lemma run_with_io_complete:
  assumes i: "i \<noteq> 0" and valid: "metadata_valid md" and md: "put_metadata md = Inr bs"
    and len: "length source \<le> unat (max_module_bytes md)"
    and max: "length source \<le> unat WORKER_PROTOCOL_MAX_MODULE_BYTES"
    and h: "encode (Msg_Hello i) = Inr h"
    and w: "pipe_write_list (Msg_ExecuteStart i (of_nat (length source)) md
       # chunk_messages i 0 (chunks UPLOAD_CHUNK source) @ [Msg_ExecuteEnd i]) [] = (Inr (), w)"
    and acks: "encode (Msg_HelloAck i) = Inr a" "encode (Msg_ExecuteAck i) = Inr b"
  shows "run_with_io pipe_write_all pipe_flush (h @ w @ rest) out
       = (Inr (Some (i, md, source), rest), out @ a @ b)"
proof -
  have small: "length source \<le> 536870912"
    using max by (simp add: WORKER_PROTOCOL_MAX_MODULE_BYTES_def)
  have n: "unat (of_nat (length source) :: u64) = length source"
    using small by (simp add: unat_of_nat)
  have bounds: "(of_nat (length source) :: u64) \<le> WORKER_PROTOCOL_MAX_MODULE_BYTES"
    "(of_nat (length source) :: u64) \<le> max_module_bytes md"
    using len max n by (simp_all add: word_le_nat_alt)
  let ?start = "Msg_ExecuteStart i (of_nat (length source)) md"
  from w obtain s u where s: "encode ?start = Inr s" and w_eq: "w = s @ u"
    and u: "pipe_write_list (chunk_messages i 0 (chunks UPLOAD_CHUNK source) @ [Msg_ExecuteEnd i]) []
       = (Inr (), u)"
    by (auto simp: pipe_write_list_Cons)
  have hello: "read_message (h @ w @ rest) = Inr (Msg_Hello i, w @ rest)"
    by (rule read_message_encode [OF _ h]) simp
  have start: "read_message (w @ rest) = Inr (?start, u @ rest)"
    unfolding w_eq append_assoc using valid bounds by (intro read_message_encode s) simp
  let ?a = "\<lparr>asm_request_id = i, asm_declared = length source,
     asm_caller_max = unat (max_module_bytes md), asm_next = 0, asm_ended = False,
     asm_terminal = False, asm_module = []\<rparr>"
  have "unat (max_module_bytes md) \<le> usize_max"
    by (rule unat_u64_bound)
  then have asm: "assembler_start i (of_nat (length source)) (max_module_bytes md) = Inr ?a"
    using i bounds n len by (simp add: assembler_start_def not_less)
  have pos: "0 < UPLOAD_CHUNK" by (simp add: UPLOAD_CHUNK_def MAX_FRAME_PAYLOAD_def)
  have "assemble ?a (u @ rest) = Inr (asm_module ?a @ concat (chunks UPLOAD_CHUNK source), rest)"
  proof (rule assemble_complete)
    show "unat (asm_next ?a) + length (chunks UPLOAD_CHUNK source) < 2 ^ 32"
      using length_chunks [OF pos, of source] small by simp
  qed (use u small len pos in \<open>simp_all add: concat_chunks usize_max_def\<close>)
  then have "assemble ?a (u @ rest) = Inr (source, rest)" by (simp add: concat_chunks [OF pos])
  with hello start asm acks show ?thesis
    by (simp add: run_with_io_def s_bind_def s_lift_def s_map_err_def s_return_def Let_def
        pipe_write_encode)
qed

lemma run_with_io_sound:
  assumes "run_with_io write_all flush inp out = (Inr (Some (i, md, module), rest), out')"
  shows "\<exists>cs w. pipe_write_list (Msg_Hello i # Msg_ExecuteStart i (of_nat (length module)) md
           # chunk_messages i 0 cs @ [Msg_ExecuteEnd i]) [] = (Inr (), w)
         \<and> inp = w @ rest \<and> module = concat cs
         \<and> length module \<le> unat WORKER_PROTOCOL_MAX_MODULE_BYTES
         \<and> length module \<le> unat (max_module_bytes md)"
proof -
  note run = assms [unfolded run_with_io_def s_bind_Inr_iff s_lift_Inr_iff, simplified]
  from run obtain m inp1 where m: "read_message inp = Inr (m, inp1)" by auto
  with run obtain j where j: "m = Msg_Hello j" by (cases m) (auto simp: s_lift_def)
  with run m obtain m' inp2 where m': "read_message inp1 = Inr (m', inp2)"
    by (auto simp: s_bind_Inr_iff s_lift_Inr_iff)
  with run m j obtain k n md' where k: "m' = Msg_ExecuteStart k n md'"
    by (cases m') (auto simp: s_bind_Inr_iff s_lift_Inr_iff s_return_Inr_iff Let_def)
  with run m j m' obtain a where "k = j" "md' = md" "j = i" and
    asm: "assembler_start i n (max_module_bytes md) = Inr a" and
    ass: "assemble a inp2 = Inr (module, rest)"
    by (auto simp: s_bind_Inr_iff s_lift_Inr_iff s_return_Inr_iff Let_def split: if_splits)
  with m j m' k have hello: "read_message inp = Inr (Msg_Hello i, inp1)"
    and start: "read_message inp1 = Inr (Msg_ExecuteStart i n md, inp2)" by simp_all
  from asm have a: "asm_request_id a = i" "asm_next a = 0" "asm_module a = []" "\<not> asm_ended a"
    "asm_declared a = unat n" "unat n \<le> usize_max" "n \<le> WORKER_PROTOCOL_MAX_MODULE_BYTES"
    "n \<le> max_module_bytes md"
    by (auto simp: assembler_start_def not_less split: if_splits)
  from assemble_sound [OF ass] a obtain cs w where
    w: "pipe_write_list (chunk_messages i 0 cs @ [Msg_ExecuteEnd i]) [] = (Inr (), w)"
    "inp2 = w @ rest" "module = concat cs" "length module = unat n" by auto
  from read_message_inverse [OF hello] read_message_inverse [OF start] obtain f g where
    "encode (Msg_Hello i) = Inr f" "inp = f @ inp1" "encode (Msg_ExecuteStart i n md) = Inr g"
    "inp1 = g @ inp2" by blast
  moreover have "of_nat (length module) = n" using w(4) by simp
  ultimately show ?thesis using w a(7,8)
    by (intro exI [of _ cs] exI [of _ "f @ g @ w"])
      (auto simp: pipe_write_list_Cons word_le_nat_alt)
qed

end
