(* ===== verification/Worker_Supervisor.thy ===== *)
theory Worker_Supervisor
  imports Worker_Parent
begin

text \<open>
  The supervision of one worker process (\<^verbatim>\<open>supervise\<close> in
  \<^verbatim>\<open>src/src/wasm/worker.rs\<close>): the launch sequence, one pass of the loop, the containment
  and exit classification paths, the run over a list of passes, and the publication of staged
  output. What the operating system, the clock and the helper threads answer in a pass is the
  pass's observation.
\<close>

section \<open>Stop selection\<close>

definition select_stop :: "bool \<Rightarrow> bool \<Rightarrow> SketchWorkerStopReason option" where
  "select_stop cancelled deadline_elapsed =
     (if cancelled then Some Stop_Cancelled
      else if deadline_elapsed then Some Stop_DeadlineExceeded
      else None)"

definition validate_worker_module_len :: "nat \<Rightarrow> SketchWorkerFailure + unit" where
  "validate_worker_module_len module_bytes =
     (if module_bytes < 2 ^ 64 \<and> of_nat module_bytes \<le> WORKER_PROTOCOL_MAX_MODULE_BYTES
      then Inr () else Inl WF_InvalidConfiguration)"

definition next_request_id :: "u64 \<Rightarrow> u64 option \<times> u64" where
  "next_request_id counter =
     (if counter = - 1 then (None, counter)
      else (if counter \<noteq> 0 then Some counter else None, counter + 1))"

section \<open>State and observations of the loop\<close>

datatype WriterCommand = WC_Hello u64 | WC_Upload u64 "u8 list" ExecuteMetadata | WC_Cancel u64 | WC_Close

datatype WriterEvent = WE_Hello bool | WE_Upload bool | WE_Cancel bool

datatype WorkerNormalReap = Clean | Nonzero

text \<open>
  \<open>sup_owned\<close>: the ownership (process control, staged output, lease and gauges) is still
  the supervisor's; it turns false when the whole owner is handed to the cleanup dispatcher.
  \<open>sup_commands\<close> are the commands sent to the writer, oldest first.
\<close>

record supervisor =
  sup_phase :: ParentReceivePhase
  sup_cancel_written :: bool
  sup_cancel_queued :: bool
  sup_selected :: "SketchWorkerStopReason option"
  sup_grace_deadline :: "nat option"
  sup_ledger :: WorkerExecutionLedger
  sup_commands :: "WriterCommand list"
  sup_owned :: bool

text \<open>
  One pass: the cancellation flag and clock readings, what the two channels hold, whether the
  writer still takes commands, the process state, and the results of reaping or forcing it. The
  drained lists are what the helpers have delivered once they are joined.
\<close>

record observation =
  obs_cancelled :: bool
  obs_now_stop :: nat
  obs_write_event :: "WriterEvent option"
  obs_now_cancel_written :: nat
  obs_read :: "(unit + Message) option"
  obs_now_metadata :: nat
  obs_send_upload :: bool
  obs_send_cancel :: bool
  obs_wait :: "unit + i32 option"
  obs_reap :: "WorkerNormalReap option"
  obs_force :: bool
  obs_now_queued :: nat
  obs_now_grace :: nat
  obs_drained_events :: "WriterEvent list"
  obs_drained_reads :: "(unit + Message) list"

text \<open>The fixed inputs of a run.\<close>

record request =
  req_id :: u64
  req_deadline :: nat
  req_grace :: nat
  req_source :: "u8 list"
  req_config :: SketchCompilerConfig
  req_policy :: SketchModulePolicy
  req_webview_url :: "utf8_string option"
  req_staged :: "u8 list option"

type_synonym 'a pass = "(supervisor, SketchWorkerTerminal, 'a) state_result"

definition on_ledger :: "(WorkerExecutionLedger \<Rightarrow> WorkerExecutionLedger) \<Rightarrow> supervisor \<Rightarrow> supervisor" where
  "on_ledger f s = s\<lparr>sup_ledger := f (sup_ledger s)\<rparr>"

definition finish :: "SketchWorkerTerminal \<Rightarrow> 'a pass" where
  "finish t s = (Inl t, s)"

section \<open>Containment\<close>

definition force_result :: "bool \<Rightarrow> SketchWorkerFailure \<Rightarrow> supervisor
    \<Rightarrow> (SketchWorkerTerminal \<times> bool) \<times> supervisor" where
  "force_result force_ok failure s =
     (let s = (if failure = WF_Protocol then on_ledger record_protocol_failure s else s) in
      if force_ok
      then ((WT_Failure failure, True), on_ledger (record_reaped \<circ> record_forced) s)
      else ((WT_Failure WF_ContainmentCleanup, False), s))"

definition hand_off :: "supervisor \<Rightarrow> supervisor" where
  "hand_off s = s\<lparr>sup_owned := False\<rparr>"

definition lanes_close :: "supervisor \<Rightarrow> supervisor" where
  "lanes_close s = s\<lparr>sup_commands := sup_commands s @ [WC_Close]\<rparr>"

definition force_pre_protocol :: "bool \<Rightarrow> SketchWorkerFailure \<Rightarrow> 'a pass" where
  "force_pre_protocol force_ok failure s =
     (case force_result force_ok failure s of
        ((result, forced), s) \<Rightarrow> finish result (if \<not> forced then hand_off s else s))"

definition force_join_result :: "bool \<Rightarrow> SketchWorkerFailure \<Rightarrow> 'a pass" where
  "force_join_result force_ok failure s =
     (case force_result force_ok failure s of
        ((result, forced), s) \<Rightarrow>
          if \<not> forced then finish result (hand_off s)
          else finish result (lanes_close s))"

definition force_join_terminal :: "bool \<Rightarrow> SketchWorkerStopReason \<Rightarrow> 'a pass" where
  "force_join_terminal force_ok trigger s =
     (case force_result force_ok WF_UnexpectedExit s of
        ((result, forced), s) \<Rightarrow>
          if \<not> forced then finish result (hand_off s)
          else finish
            (if result = WT_Failure WF_ContainmentCleanup then result
             else WT_ForcedContainment trigger) (lanes_close s))"

section \<open>Classifying an exited worker\<close>

text \<open>The replay of writer results: true when an upload result is refused.\<close>

fun replay_events :: "WriterEvent list \<Rightarrow> ParentReceivePhase \<Rightarrow> bool \<times> ParentReceivePhase" where
  "replay_events [] p = (False, p)"
| "replay_events (WE_Upload ok # es) p =
     (case phase_upload ok p of
        (Inl _, p) \<Rightarrow> (True, p)
      | (Inr _, p) \<Rightarrow> replay_events es p)"
| "replay_events (_ # es) p = replay_events es p"

fun replay_reads :: "(unit + Message) list \<Rightarrow> ParentReceivePhase \<Rightarrow> Message option \<times> ParentReceivePhase" where
  "replay_reads (Inr message # ms) p =
     (case receive message p of
        (Inr (Action_Terminal message), p) \<Rightarrow> (Some message, p)
      | (Inr _, p) \<Rightarrow> replay_reads ms p
      | (Inl _, p) \<Rightarrow> (None, p))"
| "replay_reads _ p = (None, p)"

definition stopped_or :: "SketchWorkerTerminal \<Rightarrow> SketchWorkerStopReason option \<Rightarrow> SketchWorkerTerminal" where
  "stopped_or mapped selected = (case selected of None \<Rightarrow> mapped | Some r \<Rightarrow> WT_Stopped r)"

definition exited_join_result :: "request \<Rightarrow> observation \<Rightarrow> bool \<Rightarrow> 'a pass" where
  "exited_join_result req obs clean_exit s =
     (let s = on_ledger record_reaped (lanes_close s);
          (refused, p) = replay_events (obs_drained_events obs) (sup_phase s);
          s = s\<lparr>sup_phase := p\<rparr> in
      if refused then finish (WT_Failure WF_UnexpectedExit) s
      else let (reported, p) = replay_reads (obs_drained_reads obs) (sup_phase s);
               s = s\<lparr>sup_phase := p\<rparr> in
        case (if clean_exit then reported else None) of
          None \<Rightarrow> finish (WT_Failure WF_UnexpectedExit) s
        | Some message \<Rightarrow>
            (case map_terminal message (req_id req) of
               Inr mapped \<Rightarrow>
                 finish (stopped_or mapped (sup_selected s))
                   (if mapped = WT_Failure WF_Protocol then on_ledger record_protocol_failure s else s)
             | Inl failure \<Rightarrow>
                 finish (WT_Failure failure)
                   (if failure = WF_Protocol then on_ledger record_protocol_failure s else s)))"

definition pipe_failure_result :: "request \<Rightarrow> observation \<Rightarrow> 'a pass" where
  "pipe_failure_result req obs s =
     (case obs_reap obs of
        Some reap \<Rightarrow> exited_join_result req obs (reap = Clean) s
      | None \<Rightarrow> force_join_result (obs_force obs) WF_Protocol s)"

section \<open>One pass of the loop\<close>

definition pass_select :: "request \<Rightarrow> observation \<Rightarrow> unit pass" where
  "pass_select req obs s =
     (let s = (if sup_selected s = None
               then s\<lparr>sup_selected := select_stop (obs_cancelled obs) (req_deadline req \<le> obs_now_stop obs)\<rparr>
               else s) in
      case sup_selected s of
        Some trigger \<Rightarrow>
          if \<not> upload_complete (sup_phase s) then force_join_terminal (obs_force obs) trigger s
          else (Inr (), s)
      | None \<Rightarrow> (Inr (), s))"

definition pass_write_event :: "request \<Rightarrow> observation \<Rightarrow> unit pass" where
  "pass_write_event req obs s =
     (case obs_write_event obs of
        None \<Rightarrow> (Inr (), s)
      | Some (WE_Hello True) \<Rightarrow> (Inr (), s)
      | Some (WE_Upload ok) \<Rightarrow>
          (case phase_upload ok (sup_phase s) of
             (Inr _, p) \<Rightarrow> (Inr (), s\<lparr>sup_phase := p\<rparr>)
           | (Inl _, p) \<Rightarrow>
               let s = s\<lparr>sup_phase := p\<rparr> in
               if \<not> ok then pipe_failure_result req obs s
               else force_join_result (obs_force obs) WF_Protocol s)
      | Some (WE_Cancel True) \<Rightarrow>
          (Inr (), on_ledger record_cancel_sent
             (s\<lparr>sup_cancel_written := True,
                sup_grace_deadline := Some (obs_now_cancel_written obs + req_grace req)\<rparr>))
      | Some _ \<Rightarrow> pipe_failure_result req obs s)"

definition upload_metadata :: "request \<Rightarrow> nat \<Rightarrow> ExecuteMetadata" where
  "upload_metadata req now =
     (metadata (req_config req) (req_policy req) (req_deadline req) now)
       \<lparr>webview_url := req_webview_url req, staged_output := req_staged req\<rparr>"

definition pass_terminal :: "request \<Rightarrow> observation \<Rightarrow> Message \<Rightarrow> unit pass" where
  "pass_terminal req obs message s =
     (case map_terminal message (req_id req) of
        Inl error \<Rightarrow> force_join_result (obs_force obs) error s
      | Inr mapped \<Rightarrow>
          let s = (if mapped = WT_Failure WF_Protocol then on_ledger record_protocol_failure s else s) in
          (case obs_reap obs of
             Some Clean \<Rightarrow>
               finish (stopped_or mapped (sup_selected s)) (on_ledger record_reaped (lanes_close s))
           | Some Nonzero \<Rightarrow>
               finish (WT_Failure WF_UnexpectedExit) (on_ledger record_reaped (lanes_close s))
           | None \<Rightarrow> force_join_result (obs_force obs) WF_ContainmentCleanup s))"

definition pass_read :: "request \<Rightarrow> observation \<Rightarrow> unit pass" where
  "pass_read req obs s =
     (case obs_read obs of
        None \<Rightarrow> (Inr (), s)
      | Some (Inl _) \<Rightarrow> pipe_failure_result req obs s
      | Some (Inr message) \<Rightarrow>
          (case receive message (sup_phase s) of
             (Inl _, p) \<Rightarrow> force_join_result (obs_force obs) WF_Protocol (s\<lparr>sup_phase := p\<rparr>)
           | (Inr action, p) \<Rightarrow>
               let s = s\<lparr>sup_phase := p\<rparr> in
               (case action of
                  QueueUpload \<Rightarrow>
                    if \<not> obs_send_upload obs then force_join_result (obs_force obs) WF_Protocol s
                    else (Inr (), s\<lparr>sup_commands := sup_commands s
                            @ [WC_Upload (req_id req) (req_source req)
                                 (upload_metadata req (obs_now_metadata obs))],
                          sup_phase := phase_upload_queued (sup_phase s)\<rparr>)
                | Action_Terminal message \<Rightarrow> pass_terminal req obs message s
                | _ \<Rightarrow> (Inr (), s))))"

definition pass_wait :: "request \<Rightarrow> observation \<Rightarrow> unit pass" where
  "pass_wait req obs s =
     (case obs_wait obs of
        Inr (Some code) \<Rightarrow> exited_join_result req obs (code = 0) s
      | Inr None \<Rightarrow> (Inr (), s)
      | Inl _ \<Rightarrow> force_join_result (obs_force obs) WF_UnexpectedExit s)"

definition pass_grace :: "observation \<Rightarrow> SketchWorkerStopReason \<Rightarrow> unit pass" where
  "pass_grace obs trigger s =
     (case sup_grace_deadline s of
        Some g \<Rightarrow>
          if g \<le> obs_now_grace obs
          then force_join_terminal (obs_force obs) trigger (on_ledger record_grace_expired s)
          else (Inr (), s)
      | None \<Rightarrow> (Inr (), s))"

definition pass_stop :: "request \<Rightarrow> observation \<Rightarrow> unit pass" where
  "pass_stop req obs s =
     (case sup_selected s of
        None \<Rightarrow> (Inr (), s)
      | Some trigger \<Rightarrow>
          if \<not> upload_complete (sup_phase s) then force_join_terminal (obs_force obs) trigger s
          else s_bind
            (\<lambda>s. if \<not> sup_cancel_written s \<and> \<not> sup_cancel_queued s \<and> upload_queued (sup_phase s)
                 then if \<not> obs_send_cancel obs then force_join_result (obs_force obs) WF_Protocol s
                   else (Inr (), s\<lparr>sup_commands := sup_commands s @ [WC_Cancel (req_id req)],
                           sup_cancel_queued := True,
                           sup_grace_deadline := Some (obs_now_queued obs + req_grace req)\<rparr>)
                 else (Inr (), s))
            (\<lambda>_. pass_grace obs trigger) s)"

definition supervise_pass :: "request \<Rightarrow> observation \<Rightarrow> unit pass" where
  "supervise_pass req obs =
     s_bind (pass_select req obs) (\<lambda>_.
     s_bind (pass_write_event req obs) (\<lambda>_.
     s_bind (pass_read req obs) (\<lambda>_.
     s_bind (pass_wait req obs) (\<lambda>_.
     pass_stop req obs))))"

text \<open>A run over the passes seen so far: \<open>Inr ()\<close> while the loop has not returned.\<close>

fun supervise_loop :: "request \<Rightarrow> observation list \<Rightarrow> unit pass" where
  "supervise_loop req [] s = (Inr (), s)"
| "supervise_loop req (obs # rest) s =
     (case supervise_pass req obs s of
        (Inl t, s) \<Rightarrow> (Inl t, s)
      | (Inr _, s) \<Rightarrow> supervise_loop req rest s)"

section \<open>Launch\<close>

text \<open>What each step of the launch answers, in the order of the source.\<close>

record launch =
  la_cancelled :: bool
  la_lease :: "SketchExecutionError option"
  la_stop_cancelled :: bool
  la_stop_now :: nat
  la_cleanup_started :: bool
  la_output_granted :: bool
  la_spawned :: bool
  la_pipes :: bool
  la_counter :: u64
  la_force :: bool
  la_hello_sent :: bool

definition supervisor_start :: "u64 \<Rightarrow> WorkerExecutionLedger \<Rightarrow> supervisor" where
  "supervisor_start i l =
     \<lparr>sup_phase = phase_new i, sup_cancel_written = False, sup_cancel_queued = False,
      sup_selected = None, sup_grace_deadline = None, sup_ledger = l, sup_commands = [],
      sup_owned = True\<rparr>"

text \<open>
  The launch up to the loop: a terminal, or the request id with which the loop starts. The
  second component is the supervisor once a worker exists.
\<close>

definition supervise_launch :: "launch \<Rightarrow> nat \<Rightarrow> nat \<Rightarrow> WorkerExecutionLedger
    \<Rightarrow> (SketchWorkerTerminal + u64) \<times> supervisor option \<times> WorkerExecutionLedger" where
  "supervise_launch la module_bytes deadline l =
     (if la_cancelled la then (Inl (WT_Stopped Stop_Cancelled), None, l)
      else case validate_worker_module_len module_bytes of
        Inl _ \<Rightarrow> (Inl (WT_Failure WF_InvalidConfiguration), None, l)
      | Inr _ \<Rightarrow>
      (case la_lease la of
         Some error \<Rightarrow> (Inl (WT_Execution error), None, l)
       | None \<Rightarrow>
      (case select_stop (la_stop_cancelled la) (deadline \<le> la_stop_now la) of
         Some trigger \<Rightarrow> (Inl (WT_Stopped trigger), None, l)
       | None \<Rightarrow>
      if \<not> la_cleanup_started la then (Inl (WT_Failure WF_Launch), None, l)
      else if \<not> la_output_granted la then (Inl (WT_Failure WF_OutputGrant), None, l)
      else if \<not> la_spawned la then (Inl (WT_Failure WF_Launch), None, l)
      else let l = record_spawned l; s = supervisor_start 0 l;
        failed = (\<lambda>p :: unit pass. case p s of (r, s) \<Rightarrow> (Inl (projl r), Some s, sup_ledger s)) in
      if \<not> la_pipes la then failed (force_pre_protocol (la_force la) WF_Protocol)
      else case fst (next_request_id (la_counter la)) of
        None \<Rightarrow> failed (force_pre_protocol (la_force la) WF_Protocol)
      | Some i \<Rightarrow>
          if \<not> la_hello_sent la then failed (force_join_result (la_force la) WF_Protocol)
          else (Inr i, Some (supervisor_start i l\<lparr>sup_commands := [WC_Hello i]\<rparr>), l))))"

section \<open>Publication of staged output\<close>

text \<open>
  What the file system and the stop check answer while staged output is finalised: is the
  staged path a regular file, did the flush, the replacement and the removal of the staging
  directory succeed.
\<close>

record staging =
  st_regular :: bool
  st_flush :: bool
  st_replace :: bool
  st_cleanup :: bool
  st_stop_before :: "SketchWorkerStopReason option"
  st_stop_publish :: "SketchWorkerStopReason option"

text \<open>\<^verbatim>\<open>StagedOutput::commit\<close>: an I/O error, or the stop and the cleanup result; and whether
  the destination was replaced.\<close>

definition staged_commit :: "staging \<Rightarrow> (unit + SketchWorkerStopReason option \<times> bool) \<times> bool" where
  "staged_commit st =
     (if \<not> st_regular st then (Inl (), False)
      else if \<not> st_flush st then (Inl (), False)
      else case st_stop_publish st of
        Some reason \<Rightarrow> (Inr (Some reason, st_cleanup st), False)
      | None \<Rightarrow>
          if \<not> st_replace st then (Inl (), False)
          else (Inr (None, st_cleanup st), True))"

definition is_completed :: "SketchWorkerTerminal \<Rightarrow> bool" where
  "is_completed t = (case t of WT_Completed _ \<Rightarrow> True | _ \<Rightarrow> False)"

text \<open>The second component says whether the destination was replaced.\<close>

definition finish_output :: "staging option \<Rightarrow> SketchWorkerTerminal \<Rightarrow> SketchWorkerTerminal \<times> bool" where
  "finish_output output t =
     (case output of
        None \<Rightarrow> (t, False)
      | Some st \<Rightarrow>
          let t = (if is_completed t then stopped_or t (st_stop_before st) else t) in
          if is_completed t then
            (case staged_commit st of
               (Inr (stop, cleanup), published) \<Rightarrow>
                 (if cleanup then stopped_or t stop
                  else if stop \<noteq> None then WT_Failure WF_OutputCleanup
                  else WT_Failure WF_OutputCommittedCleanup, published)
             | (Inl _, published) \<Rightarrow> (WT_Failure WF_OutputCommit, published))
          else if \<not> st_cleanup st then (WT_Failure WF_OutputCleanup, False)
          else (t, False))"

text \<open>The whole supervision: launch, loop, and the output that is still owned.\<close>

definition supervise :: "launch \<Rightarrow> request \<Rightarrow> observation list \<Rightarrow> staging option
    \<Rightarrow> WorkerExecutionLedger \<Rightarrow> (SketchWorkerTerminal \<times> bool) option \<times> WorkerExecutionLedger" where
  "supervise la req passes output l =
     (case supervise_launch la (length (req_source req)) (req_deadline req) l of
        (Inl t, None, l) \<Rightarrow> (Some (t, False), l)
      | (Inl t, Some s, l) \<Rightarrow>
          (Some (finish_output (if sup_owned s then output else None) t), l)
      | (Inr i, Some s, l) \<Rightarrow>
          (case supervise_loop (req\<lparr>req_id := i\<rparr>) passes s of
             (Inl t, s) \<Rightarrow>
               (Some (finish_output (if sup_owned s then output else None) t), sup_ledger s)
           | (Inr _, s) \<Rightarrow> (None, sup_ledger s))
      | (Inr i, None, l) \<Rightarrow> (None, l))"

section \<open>The receive phase is ordered\<close>

definition phase_inv :: "ParentReceivePhase \<Rightarrow> bool" where
  "phase_inv p \<longleftrightarrow>
     (upload_queued p \<longrightarrow> hello_acked p) \<and> (upload_complete p \<longrightarrow> upload_queued p)
     \<and> (execute_ack_deferred p \<longrightarrow> upload_queued p)
     \<and> (execute_acked p \<longrightarrow> upload_complete p)
     \<and> (execute_ack_deferred p \<and> upload_complete p \<longrightarrow> execute_acked p)
     \<and> (trace_received p \<longrightarrow> execute_acked p)"

lemma phase_new_inv: "phase_inv (phase_new i)"
  by (simp add: phase_inv_def phase_new_def)

lemma phase_inv_updates:
  "phase_inv p \<Longrightarrow> hello_acked p \<Longrightarrow> upload_queued p \<Longrightarrow> \<not> execute_ack_deferred p \<Longrightarrow>
     phase_inv (p\<lparr>upload_complete := True\<rparr>)"
  "phase_inv p \<Longrightarrow> hello_acked p \<Longrightarrow> upload_queued p \<Longrightarrow>
     phase_inv (p\<lparr>upload_complete := True, execute_acked := True\<rparr>)"
  "phase_inv p \<Longrightarrow> execute_acked p \<Longrightarrow> phase_inv (p\<lparr>trace_received := True\<rparr>)"
  "phase_inv p \<Longrightarrow> phase_inv (p\<lparr>hello_acked := True\<rparr>)"
  "phase_inv p \<Longrightarrow> upload_queued p \<Longrightarrow> upload_complete p \<Longrightarrow> phase_inv (p\<lparr>execute_acked := True\<rparr>)"
  "phase_inv p \<Longrightarrow> upload_queued p \<Longrightarrow> \<not> upload_complete p \<Longrightarrow>
     phase_inv (p\<lparr>execute_ack_deferred := True\<rparr>)"
  "phase_inv p \<Longrightarrow> hello_acked p \<Longrightarrow> phase_inv (phase_upload_queued p)"
  by (auto simp: phase_inv_def phase_upload_queued_def)

lemma phase_upload_inv:
  "phase_upload ok p = (r, p') \<Longrightarrow> phase_inv p \<Longrightarrow>
   phase_inv p' \<and> ph_request_id p' = ph_request_id p \<and> upload_queued p' = upload_queued p"
  by (auto simp: phase_upload_def Let_def phase_inv_updates split: if_splits)

lemma receive_inv:
  "receive m p = (r, p') \<Longrightarrow> phase_inv p \<Longrightarrow>
   phase_inv p' \<and> ph_request_id p' = ph_request_id p \<and> upload_queued p' = upload_queued p"
  by (cases m) (auto simp: receive_def phase_inv_updates split: if_splits)

lemma receive_terminal:
  "receive m p = (Inr (Action_Terminal m'), p') \<Longrightarrow> m' = m \<and> p' = p \<and> execute_acked p"
  by (cases m) (auto simp: receive_def split: if_splits)

lemma receive_hello_acked:
  "receive m p = (Inr QueueUpload, p') \<Longrightarrow> \<not> hello_acked p \<and> hello_acked p'"
  by (cases m) (auto simp: receive_def split: if_splits)

lemma replay_events_inv:
  "phase_inv p \<Longrightarrow>
   phase_inv (snd (replay_events es p)) \<and> ph_request_id (snd (replay_events es p)) = ph_request_id p"
proof (induction es arbitrary: p)
  case Nil
  then show ?case by simp
next
  case (Cons e es)
  show ?case
  proof (cases e)
    case (WE_Upload ok)
    obtain r q where rq: "phase_upload ok p = (r, q)" by (cases "phase_upload ok p")
    with phase_upload_inv [OF rq] Cons.prems Cons.IH [of q] WE_Upload show ?thesis
      by (cases r) auto
  qed (use Cons in auto)
qed

lemma replay_reads_terminal:
  "replay_reads ms p = (Some m, p') \<Longrightarrow> phase_inv p \<Longrightarrow>
   Inr m \<in> set ms \<and> phase_inv p' \<and> execute_acked p' \<and> ph_request_id p' = ph_request_id p"
proof (induction ms arbitrary: p)
  case Nil
  then show ?case by simp
next
  case (Cons x ms)
  then obtain message where x: "x = Inr message" by (cases x) auto
  obtain r q where rq: "receive message p = (r, q)" by (cases "receive message p")
  note inv = receive_inv [OF rq Cons.prems(2)]
  show ?case
  proof (cases "\<exists>m'. r = Inr (Action_Terminal m')")
    case True
    then obtain m' where r: "r = Inr (Action_Terminal m')" ..
    from receive_terminal rq r have "m' = message" "q = p" "execute_acked p" by blast+
    with Cons.prems x rq r show ?thesis by simp
  next
    case False
    with Cons.prems(1) x rq have "replay_reads ms q = (Some m, p')"
      by (auto split: sum.splits ParentReceiveAction.splits)
    from Cons.IH [OF this] inv show ?thesis by simp
  qed
qed

section \<open>What a run can end in\<close>

text \<open>
  While the loop runs: the worker is owned and not yet reaped, an upload has been sent exactly
  when the phase says so, a cancellation at most once, and there is a grace deadline exactly
  once a cancellation is on its way.
\<close>

fun is_upload :: "WriterCommand \<Rightarrow> bool" where
  "is_upload (WC_Upload _ _ _) = True"
| "is_upload _ = False"

fun is_cancel :: "WriterCommand \<Rightarrow> bool" where
  "is_cancel (WC_Cancel _) = True"
| "is_cancel _ = False"

definition sent :: "(WriterCommand \<Rightarrow> bool) \<Rightarrow> supervisor \<Rightarrow> nat" where
  "sent f s = length (filter f (sup_commands s))"

definition running :: "request \<Rightarrow> u64 \<Rightarrow> supervisor \<Rightarrow> bool" where
  "running req reaped s \<longleftrightarrow>
     phase_inv (sup_phase s) \<and> ph_request_id (sup_phase s) = req_id req
     \<and> sup_owned s \<and> wl_reaped (sup_ledger s) = reaped
     \<and> sent is_upload s = of_bool (upload_queued (sup_phase s))
     \<and> sent is_cancel s = of_bool (sup_cancel_queued s)
     \<and> (sup_cancel_written s \<or> sup_cancel_queued s \<longleftrightarrow> sup_grace_deadline s \<noteq> None)"

text \<open>The worker delivered message \<open>m\<close> in this pass and exited cleanly.\<close>

definition delivered :: "observation \<Rightarrow> Message \<Rightarrow> bool" where
  "delivered obs m \<longleftrightarrow>
     (obs_read obs = Some (Inr m) \<or> Inr m \<in> set (obs_drained_reads obs))
     \<and> (obs_reap obs = Some Clean \<or> obs_wait obs = Inr (Some 0))"

definition contained :: "u64 \<Rightarrow> SketchWorkerTerminal \<Rightarrow> supervisor \<Rightarrow> bool" where
  "contained reaped t s \<longleftrightarrow>
     sent is_upload s \<le> 1 \<and> sent is_cancel s \<le> 1
     \<and> (sup_owned s \<and> wl_reaped (sup_ledger s) = reaped + 1
        \<or> \<not> sup_owned s \<and> wl_reaped (sup_ledger s) = reaped
          \<and> t = WT_Failure WF_ContainmentCleanup)"

definition justified :: "request \<Rightarrow> observation \<Rightarrow> SketchWorkerTerminal \<Rightarrow> supervisor \<Rightarrow> bool" where
  "justified req obs t s \<longleftrightarrow>
     (case t of
        WT_Completed outcome \<Rightarrow>
          sup_selected s = None \<and> execute_acked (sup_phase s) \<and> phase_inv (sup_phase s)
          \<and> sup_owned s
          \<and> (\<exists>m. delivered obs m \<and> map_terminal m (req_id req) = Inr (WT_Completed outcome))
      | WT_ForcedContainment r \<Rightarrow> sup_selected s = Some r \<and> sup_owned s
      | WT_Stopped r \<Rightarrow>
          execute_acked (sup_phase s) \<and>
          (sup_selected s = Some r
           \<or> sup_selected s = None
             \<and> (\<exists>m. delivered obs m \<and> map_terminal m (req_id req) = Inr (WT_Stopped r)))
      | WT_Execution e \<Rightarrow>
          sup_selected s = None
          \<and> (\<exists>m. delivered obs m \<and> map_terminal m (req_id req) = Inr (WT_Execution e))
      | WT_Failure _ \<Rightarrow> True)"

definition ended :: "request \<Rightarrow> u64 \<Rightarrow> observation \<Rightarrow> SketchWorkerTerminal \<Rightarrow> supervisor \<Rightarrow> bool" where
  "ended req reaped obs t s \<longleftrightarrow> contained reaped t s \<and> justified req obs t s"

text \<open>A step either keeps the run going or ends it as described.\<close>

definition outcome_ok :: "request \<Rightarrow> u64 \<Rightarrow> observation
    \<Rightarrow> (SketchWorkerTerminal + 'a) \<times> supervisor \<Rightarrow> bool" where
  "outcome_ok req reaped obs x \<longleftrightarrow>
     (case x of (Inr _, s) \<Rightarrow> running req reaped s | (Inl t, s) \<Rightarrow> ended req reaped obs t s)"

lemma outcome_ok_simps [simp]:
  "outcome_ok req reaped obs (Inr x, s) = running req reaped s"
  "outcome_ok req reaped obs (Inl t, s) = ended req reaped obs t s"
  by (simp_all add: outcome_ok_def)

lemmas ended_defs = ended_def contained_def justified_def running_def
lemmas containment_defs = force_result_def force_join_result_def force_join_terminal_def
  finish_def hand_off_def lanes_close_def on_ledger_def ledger_defs

text \<open>What the containment paths need of a state.\<close>

definition containable :: "u64 \<Rightarrow> supervisor \<Rightarrow> bool" where
  "containable reaped s \<longleftrightarrow>
     sup_owned s \<and> wl_reaped (sup_ledger s) = reaped \<and> sent is_upload s \<le> 1 \<and> sent is_cancel s \<le> 1"

lemma running_containable: "running req reaped s \<Longrightarrow> containable reaped s"
  by (simp add: running_def containable_def)

lemma containable_phase [simp]: "containable reaped (s\<lparr>sup_phase := p\<rparr>) = containable reaped s"
  by (simp add: containable_def sent_def)

lemma force_join_result_ended:
  "containable reaped s \<Longrightarrow> outcome_ok req reaped obs (force_join_result ok failure s)"
  by (auto simp: containment_defs ended_defs Let_def containable_def sent_def)

lemma force_join_terminal_ended:
  "containable reaped s \<Longrightarrow> sup_selected s = Some r \<Longrightarrow>
   outcome_ok req reaped obs (force_join_terminal ok r s)"
  by (auto simp: containment_defs ended_defs Let_def containable_def sent_def)

lemma map_terminal_not_forced: "map_terminal m i \<noteq> Inr (WT_ForcedContainment r)"
proof -
  have "map_terminal_kind k d \<noteq> Inr (WT_ForcedContainment r)" for k d
    by (cases k) (auto simp: Let_def ok_or_def split: RootOutcome.splits option.splits)
  then show ?thesis by (cases m) (auto simp: map_terminal_def)
qed

lemma mapped_justified:
  assumes "map_terminal m (req_id req) = Inr mapped" "delivered obs m"
    "execute_acked (sup_phase s)" "phase_inv (sup_phase s)" "sup_owned s"
  shows "justified req obs (stopped_or mapped (sup_selected s)) s"
proof (cases mapped)
  case (WT_ForcedContainment r)
  with assms(1) map_terminal_not_forced show ?thesis by blast
qed (use assms in \<open>auto simp: justified_def stopped_or_def split: option.splits\<close>)


lemma failure_justified [simp]: "justified req obs (WT_Failure f) s"
  by (simp add: justified_def)

lemma on_ledger_simps [simp]:
  "sup_phase (on_ledger f s) = sup_phase s" "sup_selected (on_ledger f s) = sup_selected s"
  "sup_owned (on_ledger f s) = sup_owned s" "sup_ledger (on_ledger f s) = f (sup_ledger s)"
  "sup_commands (on_ledger f s) = sup_commands s"
  "sup_grace_deadline (on_ledger f s) = sup_grace_deadline s"
  "sup_cancel_queued (on_ledger f s) = sup_cancel_queued s"
  "sup_cancel_written (on_ledger f s) = sup_cancel_written s"
  by (simp_all add: on_ledger_def)

lemma lanes_close_simps [simp]:
  "sup_phase (lanes_close s) = sup_phase s" "sup_selected (lanes_close s) = sup_selected s"
  "sup_owned (lanes_close s) = sup_owned s" "sup_ledger (lanes_close s) = sup_ledger s"
  by (simp_all add: lanes_close_def)

lemma record_reaped_count [simp]:
  "wl_reaped (record_reaped l) = wl_reaped l + 1"
  "wl_reaped (record_protocol_failure l) = wl_reaped l"
  "wl_reaped (record_cancel_sent l) = wl_reaped l"
  "wl_reaped (record_grace_expired l) = wl_reaped l"
  by (simp_all add: ledger_defs)

lemma sent_simps [simp]:
  "sent f (on_ledger g s) = sent f s" "sent f (s\<lparr>sup_phase := p\<rparr>) = sent f s"
  "sent is_upload (lanes_close s) = sent is_upload s" "sent is_cancel (lanes_close s) = sent is_cancel s"
  "sent f (s\<lparr>sup_selected := x\<rparr>) = sent f s"
  by (simp_all add: sent_def lanes_close_def on_ledger_def)

lemma ended_reaped:
  "sup_owned s \<Longrightarrow> wl_reaped (sup_ledger s) = reaped + 1 \<Longrightarrow> sent is_upload s \<le> 1 \<Longrightarrow>
   sent is_cancel s \<le> 1 \<Longrightarrow> justified req obs t s \<Longrightarrow> ended req reaped obs t s"
  by (simp add: ended_def contained_def)

lemma ended_closed:
  "containable reaped s \<Longrightarrow> justified req obs t (on_ledger record_reaped (lanes_close s)) \<Longrightarrow>
   ended req reaped obs t (on_ledger record_reaped (lanes_close s))"
  by (rule ended_reaped) (simp_all add: containable_def)

lemma containable_grace [simp]:
  "containable reaped (on_ledger record_grace_expired s) = containable reaped s"
  by (simp add: containable_def)

lemma exited_ended:
  assumes "running req reaped s"
    and clean: "clean \<Longrightarrow> obs_reap obs = Some Clean \<or> obs_wait obs = Inr (Some 0)"
  shows "outcome_ok req reaped obs (exited_join_result req obs clean s)"
proof -
  obtain b p where ev: "replay_events (obs_drained_events obs) (sup_phase s) = (b, p)"
    by (cases "replay_events (obs_drained_events obs) (sup_phase s)")
  obtain rep q where rd: "replay_reads (obs_drained_reads obs) p = (rep, q)"
    by (cases "replay_reads (obs_drained_reads obs) p")
  have inv: "phase_inv (sup_phase s)" and own: "sup_owned s" "wl_reaped (sup_ledger s) = reaped"
    "sent is_upload s \<le> 1" "sent is_cancel s \<le> 1"
    using assms(1) by (simp_all add: running_def)
  have p: "phase_inv p" using replay_events_inv [OF inv, of "obs_drained_events obs"] ev by simp
  let ?s = "on_ledger record_reaped (lanes_close s)\<lparr>sup_phase := p\<rparr>"
  show ?thesis
  proof (cases "b \<or> (if clean then rep else None) = None")
    case True
    with own show ?thesis
      by (auto simp: exited_join_result_def Let_def ev rd finish_def intro!: ended_reaped)
  next
    case False
    then obtain m where b: "\<not> b" "clean" "rep = Some m" by (auto split: if_splits)
    with rd have m: "Inr m \<in> set (obs_drained_reads obs)" "phase_inv q" "execute_acked q"
      using replay_reads_terminal [OF _ p] by blast+
    with clean b have del: "delivered obs m" by (simp add: delivered_def)
    show ?thesis
    proof (cases "map_terminal m (req_id req)")
      case (Inl f)
      with own b show ?thesis
        by (auto simp: exited_join_result_def Let_def ev rd finish_def intro!: ended_reaped)
    next
      case (Inr mapped)
      have "justified req obs (stopped_or mapped sel) t"
        if "sup_phase t = q" "sup_owned t" "sup_selected t = sel" for t sel
        using mapped_justified [OF Inr del, of t] m that by simp
      with own b Inr show ?thesis
        by (auto simp: exited_join_result_def Let_def ev rd finish_def intro!: ended_reaped)
    qed
  qed
qed

lemma pipe_failure_ended:
  "running req reaped s \<Longrightarrow> outcome_ok req reaped obs (pipe_failure_result req obs s)"
  by (auto simp: pipe_failure_result_def running_containable split: option.splits
      intro!: force_join_result_ended exited_ended)

lemmas endings = force_join_result_ended force_join_terminal_ended exited_ended pipe_failure_ended

lemma running_unchanged:
  "running req reaped s \<Longrightarrow> sup_phase s' = sup_phase s \<Longrightarrow> sup_owned s' = sup_owned s \<Longrightarrow>
   wl_reaped (sup_ledger s') = wl_reaped (sup_ledger s) \<Longrightarrow> sup_commands s' = sup_commands s \<Longrightarrow>
   sup_cancel_queued s' = sup_cancel_queued s \<Longrightarrow>
   sup_cancel_written s' \<or> sup_cancel_queued s' \<longleftrightarrow> sup_grace_deadline s' \<noteq> None \<Longrightarrow>
   running req reaped s'"
  by (auto simp: running_def sent_def)

lemma phase_upload_queued_simps [simp]:
  "upload_queued (phase_upload_queued p)"
  "ph_request_id (phase_upload_queued p) = ph_request_id p"
  by (simp_all add: phase_upload_queued_def)

lemma running_queue_upload:
  "running req reaped (s\<lparr>sup_phase := p\<rparr>) \<Longrightarrow> hello_acked p \<Longrightarrow> \<not> upload_queued p \<Longrightarrow>
   running req reaped (s\<lparr>sup_commands := sup_commands s @ [WC_Upload i src md],
                         sup_phase := phase_upload_queued p\<rparr>)"
  by (simp add: running_def sent_def phase_inv_updates)

lemma running_queue_cancel:
  "running req reaped s \<Longrightarrow> \<not> sup_cancel_queued s \<Longrightarrow>
   running req reaped (s\<lparr>sup_commands := sup_commands s @ [WC_Cancel i],
                         sup_cancel_queued := True, sup_grace_deadline := Some g\<rparr>)"
  by (simp add: running_def sent_def)

lemma pass_select_ok:
  assumes "running req reaped s"
  shows "outcome_ok req reaped obs (pass_select req obs s)"
proof -
  define s' where "s' = (if sup_selected s = None
    then s\<lparr>sup_selected := select_stop (obs_cancelled obs) (req_deadline req \<le> obs_now_stop obs)\<rparr> else s)"
  have "running req reaped s'" using assms by (simp add: s'_def running_def)
  then show ?thesis
    by (auto simp: pass_select_def Let_def s'_def [symmetric] running_containable split: option.splits
        intro!: endings)
qed

lemma pass_write_event_ok:
  assumes "running req reaped s"
  shows "outcome_ok req reaped obs (pass_write_event req obs s)"
proof (cases "\<exists>ok. obs_write_event obs = Some (WE_Upload ok)")
  case True
  then obtain ok where ok: "obs_write_event obs = Some (WE_Upload ok)" ..
  obtain r p where rp: "phase_upload ok (sup_phase s) = (r, p)"
    by (cases "phase_upload ok (sup_phase s)")
  have "running req reaped (s\<lparr>sup_phase := p\<rparr>)"
    using phase_upload_inv [OF rp] assms by (simp add: running_def)
  with ok rp show ?thesis
    by (cases r)
      (auto simp: pass_write_event_def Let_def running_containable [OF assms] intro!: endings)
next
  case False
  with assms show ?thesis
    by (auto simp: pass_write_event_def split: option.splits WriterEvent.splits bool.splits
        intro!: endings intro: running_unchanged)
qed

lemma pass_terminal_ok:
  assumes "running req reaped s" "execute_acked (sup_phase s)" "obs_read obs = Some (Inr m)"
  shows "outcome_ok req reaped obs (pass_terminal req obs m s)"
proof (cases "map_terminal m (req_id req)")
  case (Inl e)
  with assms(1) show ?thesis by (auto simp: pass_terminal_def running_containable intro!: endings)
next
  case (Inr mapped)
  define s' where "s' = (if mapped = WT_Failure WF_Protocol
    then on_ledger record_protocol_failure s else s)"
  have s': "running req reaped s'" "execute_acked (sup_phase s')" "sup_selected s' = sup_selected s"
    using assms by (simp_all add: s'_def running_def)
  show ?thesis
  proof (cases "obs_reap obs")
    case None
    with Inr s' show ?thesis
      by (auto simp: pass_terminal_def s'_def [symmetric] running_containable intro!: endings)
  next
    case (Some reap)
    have "justified req obs (stopped_or mapped (sup_selected s'))
        (on_ledger record_reaped (lanes_close s'))" if "reap = Clean"
      using mapped_justified [OF Inr, of obs "on_ledger record_reaped (lanes_close s')"] s' assms(3)
        that Some by (simp add: delivered_def running_def)
    with Inr s' Some show ?thesis
      by (cases reap)
        (auto simp: pass_terminal_def s'_def [symmetric] running_containable finish_def Let_def
          intro!: ended_closed)
  qed
qed

lemma pass_read_ok:
  assumes "running req reaped s"
  shows "outcome_ok req reaped obs (pass_read req obs s)"
proof (cases "\<exists>m. obs_read obs = Some (Inr m)")
  case True
  then obtain m where m: "obs_read obs = Some (Inr m)" ..
  obtain r p where rp: "receive m (sup_phase s) = (r, p)" by (cases "receive m (sup_phase s)")
  have run: "running req reaped (s\<lparr>sup_phase := p\<rparr>)"
    using receive_inv [OF rp] assms by (simp add: running_def)
  show ?thesis
  proof (cases r)
    case (Inl f)
    with m rp run show ?thesis
      by (auto simp: pass_read_def running_containable [OF assms] intro!: endings)
  next
    case (Inr action)
    show ?thesis
    proof (cases action)
      case QueueUpload
      then have "hello_acked p" "\<not> hello_acked (sup_phase s)"
        using receive_hello_acked rp Inr by blast+
      moreover from this assms have "\<not> upload_queued p"
        using receive_inv [OF rp] by (auto simp: running_def phase_inv_def)
      ultimately show ?thesis
        using m rp Inr QueueUpload run
        by (auto simp: pass_read_def Let_def running_containable [OF assms]
            intro!: endings running_queue_upload)
    next
      case (Action_Terminal m')
      then have "m' = m" "execute_acked p" using receive_terminal rp Inr by blast+
      with m rp Inr Action_Terminal run show ?thesis
        by (auto simp: pass_read_def Let_def intro!: pass_terminal_ok)
    qed (use m rp Inr run in \<open>simp_all add: pass_read_def Let_def\<close>)
  qed
next
  case False
  with assms show ?thesis
    by (auto simp: pass_read_def split: option.splits sum.splits intro!: endings)
qed

lemma pass_wait_ok:
  "running req reaped s \<Longrightarrow> outcome_ok req reaped obs (pass_wait req obs s)"
  by (auto simp: pass_wait_def running_containable split: sum.splits option.splits intro!: endings)

lemma pass_grace_ok:
  "running req reaped s \<Longrightarrow> sup_selected s = Some r \<Longrightarrow>
   outcome_ok req reaped obs (pass_grace obs r s)"
  by (auto simp: pass_grace_def running_containable split: option.splits intro!: endings)

lemma pass_stop_ok:
  assumes "running req reaped s"
  shows "outcome_ok req reaped obs (pass_stop req obs s)"
proof (cases "sup_selected s")
  case None
  with assms show ?thesis by (simp add: pass_stop_def)
next
  case (Some r)
  define s' where "s' = s\<lparr>sup_commands := sup_commands s @ [WC_Cancel (req_id req)],
      sup_cancel_queued := True, sup_grace_deadline := Some (obs_now_queued obs + req_grace req)\<rparr>"
  have "outcome_ok req reaped obs (pass_grace obs r s)"
       "\<not> sup_cancel_queued s \<Longrightarrow> outcome_ok req reaped obs (pass_grace obs r s')"
    using Some by (auto simp: s'_def intro!: pass_grace_ok running_queue_cancel intro: assms)
  moreover have "outcome_ok req reaped obs (force_join_result (obs_force obs) WF_Protocol s :: (_ + unit) \<times> _)"
    and "outcome_ok req reaped obs (force_join_terminal (obs_force obs) r s)"
    using assms Some by (auto simp: running_containable intro!: endings)
  moreover have "fst (force_join_result (obs_force obs) WF_Protocol s :: (_ + unit) \<times> _)
      = Inl (projl (fst (force_join_result (obs_force obs) WF_Protocol s :: (_ + unit) \<times> _)))"
    by (auto simp: force_join_result_def finish_def split: prod.splits)
  ultimately show ?thesis
    using Some by (auto simp: pass_stop_def s_bind_def s'_def [symmetric] split: prod.splits sum.splits)
qed

lemma outcome_ok_bind:
  assumes "outcome_ok req reaped obs (m s)"
    and "\<And>x s. running req reaped s \<Longrightarrow> outcome_ok req reaped obs (f x s)"
  shows "outcome_ok req reaped obs (s_bind m f s)"
proof (cases "m s")
  case (Pair r s')
  with assms(1) assms(2) [of s'] show ?thesis by (cases r) (auto simp: s_bind_def)
qed

lemma supervise_pass_ok:
  "running req reaped s \<Longrightarrow> outcome_ok req reaped obs (supervise_pass req obs s)"
  unfolding supervise_pass_def
  by (intro outcome_ok_bind pass_select_ok pass_write_event_ok pass_read_ok pass_wait_ok pass_stop_ok)

lemma supervise_loop_ok:
  assumes "running req reaped s" "supervise_loop req passes s = (r, s')"
  shows "case r of Inr _ \<Rightarrow> running req reaped s' | Inl t \<Rightarrow> \<exists>obs \<in> set passes. ended req reaped obs t s'"
  using assms
proof (induction passes arbitrary: s)
  case Nil
  then show ?case by auto
next
  case (Cons obs passes)
  obtain x u where x: "supervise_pass req obs s = (x, u)" by (cases "supervise_pass req obs s")
  with supervise_pass_ok [OF Cons.prems(1), of obs] have "outcome_ok req reaped obs (x, u)" by simp
  with Cons.IH [of u] Cons.prems(2) x show ?case
    by (cases x) (auto split: sum.splits)
qed

lemma supervisor_start_running: "running (req\<lparr>req_id := i\<rparr>) (wl_reaped l) (supervisor_start i l)"
  by (simp add: running_def supervisor_start_def phase_new_inv sent_def) (simp add: phase_new_def)


lemma exited_not_Inr [simp]: "exited_join_result req obs c s \<noteq> (Inr x, s')"
  by (auto simp: exited_join_result_def finish_def Let_def split: prod.splits option.splits sum.splits)

lemma force_not_Inr [simp]:
  "force_join_result ok f s \<noteq> (Inr x, s')" "force_join_terminal ok r s \<noteq> (Inr x, s')"
  by (auto simp: force_join_result_def force_join_terminal_def finish_def split: prod.splits)

lemma pipe_failure_not_Inr [simp]: "pipe_failure_result req obs s \<noteq> (Inr x, s')"
  by (auto simp: pipe_failure_result_def split: option.splits)

lemma pass_terminal_not_Inr [simp]: "pass_terminal req obs m s \<noteq> (Inr x, s')"
  by (auto simp: pass_terminal_def finish_def Let_def split: option.splits sum.splits WorkerNormalReap.splits)

lemma pass_select_Inr:
  "pass_select req obs s = (Inr (), s') \<Longrightarrow> sup_selected s = Some r \<Longrightarrow> s' = s"
  by (simp add: pass_select_def Let_def split: if_splits)

lemma pass_grace_Inr:
  "pass_grace obs r s = (Inr (), s') \<longleftrightarrow>
   s' = s \<and> (case sup_grace_deadline s of None \<Rightarrow> True | Some g \<Rightarrow> obs_now_grace obs < g)"
  by (auto simp: pass_grace_def split: option.splits)

lemma pass_stop_grace:
  assumes run: "running req reaped s" and stop: "pass_stop req obs s = (Inr (), s')"
  shows "sup_selected s' = sup_selected s"
    and "sup_selected s \<noteq> None \<Longrightarrow> sup_grace_deadline s' \<noteq> None"
    and "sup_selected s \<noteq> None \<Longrightarrow> sup_grace_deadline s = Some g \<Longrightarrow> obs_now_grace obs < g"
proof -
  have "sup_selected s' = sup_selected s
      \<and> (sup_selected s \<noteq> None \<longrightarrow> sup_grace_deadline s' \<noteq> None)
      \<and> (sup_selected s \<noteq> None \<longrightarrow> sup_grace_deadline s = Some g \<longrightarrow> obs_now_grace obs < g)"
  proof (cases "sup_selected s")
    case None
    with stop show ?thesis by (simp add: pass_stop_def)
  next
    case (Some r)
    have "upload_complete (sup_phase s)"
      using stop Some by (simp add: pass_stop_def split: if_splits)
    then have up: "upload_queued (sup_phase s)" using run by (simp add: running_def phase_inv_def)
    show ?thesis
    proof (cases "\<not> sup_cancel_written s \<and> \<not> sup_cancel_queued s")
      case True
      then have "sup_grace_deadline s = None" using run by (simp add: running_def)
      with True stop Some up \<open>upload_complete (sup_phase s)\<close> show ?thesis
        by (auto simp: pass_stop_def s_bind_Inr_iff pass_grace_Inr split: if_splits)
    next
      case False
      then have "sup_grace_deadline s \<noteq> None" using run by (auto simp: running_def)
      with False stop Some \<open>upload_complete (sup_phase s)\<close> show ?thesis
        by (auto simp: pass_stop_def s_bind_Inr_iff pass_grace_Inr)
    qed
  qed
  then show "sup_selected s' = sup_selected s"
    and "sup_selected s \<noteq> None \<Longrightarrow> sup_grace_deadline s' \<noteq> None"
    and "sup_selected s \<noteq> None \<Longrightarrow> sup_grace_deadline s = Some g \<Longrightarrow> obs_now_grace obs < g"
    by simp_all
qed

lemma pass_read_Inr:
  "pass_read req obs s = (Inr (), s') \<Longrightarrow>
   sup_selected s' = sup_selected s \<and> sup_grace_deadline s' = sup_grace_deadline s"
  by (auto simp: pass_read_def Let_def
      split: option.splits sum.splits prod.splits if_splits ParentReceiveAction.splits)

lemma pass_wait_Inr: "pass_wait req obs s = (Inr (), s') \<Longrightarrow> s' = s"
  by (auto simp: pass_wait_def split: option.splits sum.splits)

lemma supervise_pass_split:
  assumes "running req reaped s" "supervise_pass req obs s = (Inr (), s')"
  obtains a b c where "pass_select req obs s = (Inr (), a)" "pass_write_event req obs a = (Inr (), b)"
    "pass_read req obs b = (Inr (), c)" "pass_wait req obs c = (Inr (), c)" "running req reaped c"
    "pass_stop req obs c = (Inr (), s')"
proof -
  from assms(2) obtain a b c d where
    a: "pass_select req obs s = (Inr (), a)" and b: "pass_write_event req obs a = (Inr (), b)" and
    c: "pass_read req obs b = (Inr (), c)" and d: "pass_wait req obs c = (Inr (), d)" and
    e: "pass_stop req obs d = (Inr (), s')"
    unfolding supervise_pass_def s_bind_Inr_iff by auto
  have "running req reaped a" using pass_select_ok [OF assms(1), of obs] a by simp
  then have "running req reaped b" using pass_write_event_ok [of req reaped a obs] b by simp
  then have "running req reaped c" using pass_read_ok [of req reaped b obs] c by simp
  with pass_wait_Inr [OF d] a b c d e that show thesis by blast
qed

lemma supervise_pass_grace:
  assumes "running req reaped s" "supervise_pass req obs s = (Inr (), s')" "sup_selected s' \<noteq> None"
  shows "sup_grace_deadline s' \<noteq> None"
  using assms(1,2)
proof (rule supervise_pass_split)
  fix a b c assume "running req reaped c" "pass_stop req obs c = (Inr (), s')"
  with assms(3) show ?thesis using pass_stop_grace(1,2) by metis
qed

lemma supervise_pass_expired:
  assumes "running req reaped s" "sup_selected s = Some r" "sup_grace_deadline s = Some g"
    "obs_write_event obs = None" "g \<le> obs_now_grace obs"
  shows "\<exists>t. fst (supervise_pass req obs s) = Inl t"
proof (rule ccontr)
  assume "\<not> (\<exists>t. fst (supervise_pass req obs s) = Inl t)"
  then have "supervise_pass req obs s = (Inr (), snd (supervise_pass req obs s))"
    by (cases "supervise_pass req obs s", cases "fst (supervise_pass req obs s)") auto
  with assms(1) show False
  proof (rule supervise_pass_split)
    fix a b c assume a: "pass_select req obs s = (Inr (), a)"
      and b: "pass_write_event req obs a = (Inr (), b)"
      and c: "pass_read req obs b = (Inr (), c)" "running req reaped c"
      and d: "pass_stop req obs c = (Inr (), snd (supervise_pass req obs s))"
    have "a = s" using pass_select_Inr a assms(2) by blast
    moreover from this b assms(4) have "b = s" by (simp add: pass_write_event_def)
    ultimately have "sup_selected c = Some r" "sup_grace_deadline c = Some g"
      using pass_read_Inr [OF c(1)] assms(2,3) by auto
    with pass_stop_grace(3) [OF c(2) d, of g] assms(5) show False by simp
  qed
qed

section \<open>Properties of supervision\<close>

definition launched :: "u64 \<Rightarrow> WorkerExecutionLedger \<Rightarrow> supervisor" where
  "launched i l = supervisor_start i l\<lparr>sup_commands := [WC_Hello i]\<rparr>"

lemma launched_running: "req_id req = i \<Longrightarrow> running req (wl_reaped l) (launched i l)"
  by (simp add: launched_def running_def supervisor_start_def phase_new_inv sent_def)
    (simp add: phase_new_def)

lemma loop_ended:
  assumes "supervise_loop req passes (launched (req_id req) l) = (Inl t, s)"
  obtains obs where "obs \<in> set passes" "ended req (wl_reaped l) obs t s"
  using supervise_loop_ok [OF launched_running [OF refl] assms] by auto

lemma supervise_loop_grace:
  assumes "running req reaped s" "supervise_loop req passes s = (Inr (), s')"
    "sup_selected s \<noteq> None \<longrightarrow> sup_grace_deadline s \<noteq> None"
  shows "running req reaped s' \<and> (sup_selected s' \<noteq> None \<longrightarrow> sup_grace_deadline s' \<noteq> None)"
  using assms
proof (induction passes arbitrary: s)
  case Nil
  then show ?case by simp
next
  case (Cons obs passes)
  obtain x u where x: "supervise_pass req obs s = (x, u)" by (cases "supervise_pass req obs s")
  with Cons.prems(2) have x': "x = Inr ()" by (cases x) auto
  with supervise_pass_ok [OF Cons.prems(1), of obs] x have "running req reaped u" by simp
  moreover have "sup_selected u \<noteq> None \<longrightarrow> sup_grace_deadline u \<noteq> None"
    using supervise_pass_grace [OF Cons.prems(1)] x x' by blast
  ultimately show ?case using Cons.IH [of u] Cons.prems(2) x x' by simp
qed

text \<open>The staged file gets through its publication: no stop is seen before or during it, it is a
  regular file, and flushing and replacing succeed.\<close>

definition publishable :: "staging \<Rightarrow> bool" where
  "publishable st \<longleftrightarrow> st_stop_before st = None \<and> st_regular st \<and> st_flush st
     \<and> st_stop_publish st = None \<and> st_replace st"

lemma finish_output_cases:
  assumes "finish_output output t = (t', published)"
  shows "published \<longleftrightarrow> is_completed t \<and> (\<exists>st. output = Some st \<and> publishable st)"
    and "published \<Longrightarrow> t' = t \<or> t' = WT_Failure WF_OutputCommittedCleanup"
    and "is_completed t' \<Longrightarrow> t' = t \<and> (output \<noteq> None \<longrightarrow> published)"
  using assms
  by (auto simp: finish_output_def staged_commit_def stopped_or_def is_completed_def publishable_def Let_def
      split: option.splits if_splits SketchWorkerTerminal.splits)

lemma launch_failure:
  "supervise_launch la n d l = (Inl t, x, l') \<Longrightarrow> \<not> is_completed t"
  by (auto simp: supervise_launch_def is_completed_def force_pre_protocol_def force_join_result_def
      force_result_def finish_def Let_def split: if_splits option.splits sum.splits prod.splits)

lemma launch_success:
  "supervise_launch la n d l = (Inr i, x, l') \<Longrightarrow>
   x = Some (launched i l') \<and> l' = record_spawned l"
  by (auto simp: supervise_launch_def launched_def Let_def
      split: if_splits option.splits sum.splits prod.splits)

text \<open>A short exchange for the witnesses: acknowledgement, upload, report.\<close>

definition sample_request :: request where
  "sample_request = \<lparr>req_id = 7, req_deadline = 1000, req_grace = 5, req_source = [1, 2],
     req_config = SketchCompilerConfig_default, req_policy = sample_policy,
     req_webview_url = None, req_staged = None\<rparr>"

definition idle_pass :: observation where
  "idle_pass = \<lparr>obs_cancelled = False, obs_now_stop = 0, obs_write_event = None,
     obs_now_cancel_written = 0, obs_read = None, obs_now_metadata = 0, obs_send_upload = True,
     obs_send_cancel = True, obs_wait = Inr None, obs_reap = Some Clean, obs_force = True,
     obs_now_queued = 10, obs_now_grace = 10, obs_drained_events = [], obs_drained_reads = []\<rparr>"

definition sample_uploaded :: "observation list" where
  "sample_uploaded =
     [idle_pass\<lparr>obs_read := Some (Inr (Msg_HelloAck 7))\<rparr>,
      idle_pass\<lparr>obs_write_event := Some (WE_Upload True), obs_read := Some (Inr (Msg_ExecuteAck 7))\<rparr>]"

definition sample_report :: observation where
  "sample_report = idle_pass\<lparr>obs_read := Some (Inr (Msg_Terminal 7 TK_Completed
     (TerminalDetail_none\<lparr>root_outcome := RO_Started\<rparr>) [] zero_counters))\<rparr>"

definition ledger_zero :: WorkerExecutionLedger where
  "ledger_zero = \<lparr>wl_spawned = 0, wl_cancel_sent = 0, wl_grace_expired = 0, wl_forced = 0,
     wl_reaped = 0, wl_protocol_failures = 0\<rparr>"

lemmas sample_simps = sample_request_def idle_pass_def sample_uploaded_def sample_report_def
  launched_def supervisor_start_def phase_new_def supervise_pass_def pass_select_def select_stop_def
  pass_write_event_def pass_read_def pass_wait_def pass_stop_def pass_grace_def pass_terminal_def
  receive_def phase_upload_def phase_upload_queued_def map_terminal_def TerminalDetail_none_def
  s_bind_def finish_def force_join_terminal_def force_result_def Let_def stopped_or_def

text \<open>C25: when the supervision loop returns, the worker has been reaped exactly once, or it could not
  be contained and the complete owner was handed to the cleanup thread, which is reported as
  a containment failure. The module is uploaded at most once and cancellation is requested at
  most once, whatever the worker, the clock and the helper threads do.\<close>

theorem worker_reaped_once:
  assumes "supervise_loop req passes (launched (req_id req) l) = (Inl t, s)"
  shows "(sup_owned s \<and> wl_reaped (sup_ledger s) = wl_reaped l + 1
          \<or> \<not> sup_owned s \<and> wl_reaped (sup_ledger s) = wl_reaped l
            \<and> t = WT_Failure WF_ContainmentCleanup)
       \<and> sent is_upload s \<le> 1 \<and> sent is_cancel s \<le> 1"
  using assms by (rule loop_ended) (auto simp: ended_def contained_def)

theorem worker_reaped_once_witness:
  "\<exists>t s. supervise_loop sample_request [idle_pass\<lparr>obs_cancelled := True\<rparr>]
      (launched (req_id sample_request) ledger_zero) = (Inl t, s)
   \<and> (sup_owned s \<and> wl_reaped (sup_ledger s) = wl_reaped ledger_zero + 1
      \<or> \<not> sup_owned s \<and> wl_reaped (sup_ledger s) = wl_reaped ledger_zero
        \<and> t = WT_Failure WF_ContainmentCleanup)
   \<and> sent is_upload s \<le> 1 \<and> sent is_cancel s \<le> 1"
proof -
  obtain s where s: "supervise_loop sample_request [idle_pass\<lparr>obs_cancelled := True\<rparr>]
      (launched (req_id sample_request) ledger_zero) = (Inl (WT_ForcedContainment Stop_Cancelled), s)"
    by (simp add: sample_simps)
  from s worker_reaped_once [OF s] show ?thesis by blast
qed

text \<open>C24: a completed outcome is reported only when no stop was selected, the upload was confirmed
  and acknowledged, and the worker delivered that very outcome for this request with all its
  counters at zero and then exited cleanly.\<close>

theorem completion_is_earned:
  assumes "supervise_loop req passes (launched (req_id req) l) = (Inl (WT_Completed outcome), s)"
  shows "sup_selected s = None \<and> upload_complete (sup_phase s) \<and> execute_acked (sup_phase s)
       \<and> (\<exists>obs \<in> set passes. \<exists>m. delivered obs m
            \<and> map_terminal m (req_id req) = Inr (WT_Completed outcome))"
  using assms by (rule loop_ended) (auto simp: ended_def justified_def phase_inv_def)

theorem completion_is_earned_witness:
  "\<exists>s. supervise_loop sample_request (sample_uploaded @ [sample_report])
      (launched (req_id sample_request) ledger_zero) = (Inl (WT_Completed Started), s)
   \<and> sup_selected s = None \<and> upload_complete (sup_phase s) \<and> execute_acked (sup_phase s)
   \<and> (\<exists>obs \<in> set (sample_uploaded @ [sample_report]). \<exists>m. delivered obs m
        \<and> map_terminal m (req_id sample_request) = Inr (WT_Completed Started))"
proof -
  obtain s where s: "supervise_loop sample_request (sample_uploaded @ [sample_report])
      (launched (req_id sample_request) ledger_zero) = (Inl (WT_Completed Started), s)"
    by (simp add: sample_simps)
  from s completion_is_earned [OF s] show ?thesis by blast
qed

text \<open>C27: once a stop has been selected, the run carries a grace deadline, and the first pass after
  it in which the writer reports nothing new ends the run.\<close>

theorem stop_is_bounded:
  assumes "supervise_loop req passes (launched (req_id req) l) = (Inr (), s)"
    and "sup_selected s = Some r"
  shows "\<exists>g. sup_grace_deadline s = Some g
           \<and> (\<forall>obs. obs_write_event obs = None \<and> g \<le> obs_now_grace obs
                \<longrightarrow> (\<exists>t. fst (supervise_pass req obs s) = Inl t))"
proof -
  have "sup_selected (launched (req_id req) l) = None"
    by (simp add: launched_def supervisor_start_def)
  with supervise_loop_grace [OF launched_running [OF refl] assms(1)] assms(2)
  have "running req (wl_reaped l) s" "sup_grace_deadline s \<noteq> None" by auto
  with assms(2) show ?thesis by (auto intro: supervise_pass_expired)
qed

theorem stop_is_bounded_witness:
  "\<exists>s. supervise_loop sample_request (sample_uploaded @ [idle_pass\<lparr>obs_cancelled := True\<rparr>])
      (launched (req_id sample_request) ledger_zero) = (Inr (), s)
   \<and> (\<exists>g. sup_grace_deadline s = Some g
       \<and> (\<forall>obs. obs_write_event obs = None \<and> g \<le> obs_now_grace obs
            \<longrightarrow> (\<exists>t. fst (supervise_pass sample_request obs s) = Inl t)))"
proof -
  obtain s where s: "supervise_loop sample_request (sample_uploaded @ [idle_pass\<lparr>obs_cancelled := True\<rparr>])
      (launched (req_id sample_request) ledger_zero) = (Inr (), s)"
    and r: "sup_selected s = Some Stop_Cancelled"
    by (simp add: sample_simps)
  from s stop_is_bounded [OF s r] show ?thesis by blast
qed

text \<open>C26: a supervision that ends has replaced the destination exactly when its worker was launched,
  its loop ended in a completed outcome, and the caller staged an output file that gets through
  its publication (no stop before or during it, a regular file, flushing and replacing succeed).
  By then the one worker was reaped and had delivered a report of the launched request with a
  completed outcome, and the caller is told this outcome or, when the clean-up of the staging
  directory failed, that only the clean-up failed.  A caller that staged an output and is told of a
  completion has its destination replaced.\<close>

theorem output_published_on_completion:
  assumes "supervise la req passes output l = (Some (t, published), l')"
  shows "(published \<longleftrightarrow>
            (\<exists>i outcome s st. fst (supervise_launch la (length (req_source req)) (req_deadline req) l) = Inr i
               \<and> supervise_loop (req\<lparr>req_id := i\<rparr>) passes (launched i (record_spawned l))
                   = (Inl (WT_Completed outcome), s)
               \<and> output = Some st \<and> publishable st))
       \<and> (published \<longrightarrow>
            (\<exists>i. fst (supervise_launch la (length (req_source req)) (req_deadline req) l) = Inr i
               \<and> wl_reaped l' = wl_reaped l + 1
               \<and> (\<exists>obs \<in> set passes. \<exists>m outcome. delivered obs m
                   \<and> map_terminal m i = Inr (WT_Completed outcome)
                   \<and> (t = WT_Completed outcome \<or> t = WT_Failure WF_OutputCommittedCleanup))))
       \<and> (is_completed t \<and> output \<noteq> None \<longrightarrow> published)"
proof -
  obtain r x l1 where la: "supervise_launch la (length (req_source req)) (req_deadline req) l = (r, x, l1)"
    by (cases "supervise_launch la (length (req_source req)) (req_deadline req) l")
  show ?thesis
  proof (cases r)
    case (Inl t0)
    with la have t0: "\<not> is_completed t0" by (simp add: launch_failure)
    from assms la Inl t0 have "\<not> published \<and> \<not> is_completed t"
    proof (cases x)
      case (Some s)
      with assms la Inl
      have "finish_output (if sup_owned s then output else None) t0 = (t, published)"
        by (simp add: supervise_def)
      from finish_output_cases [OF this] t0 show ?thesis by auto
    qed (simp add: supervise_def)
    with la Inl show ?thesis by simp
  next
    case (Inr i)
    with la have x: "x = Some (launched i l1)" and l1: "l1 = record_spawned l"
      by (simp_all add: launch_success)
    let ?req = "req\<lparr>req_id := i\<rparr>"
    obtain r0 s where loop: "supervise_loop ?req passes (launched i l1) = (r0, s)"
      by (cases "supervise_loop ?req passes (launched i l1)")
    with assms la Inr x obtain t0 where r0: "r0 = Inl t0"
      and fin: "finish_output (if sup_owned s then output else None) t0 = (t, published)"
      and l': "l' = sup_ledger s"
      by (cases r0) (auto simp: supervise_def)
    obtain obs where obs: "obs \<in> set passes" "ended ?req (wl_reaped l1) obs t0 s"
      using loop_ended [of ?req passes l1 t0 s] loop r0 by auto
    have earned: "sup_owned s \<and> wl_reaped l' = wl_reaped l + 1
        \<and> (\<exists>m outcome. delivered obs m \<and> map_terminal m i = Inr t0 \<and> t0 = WT_Completed outcome)"
      if "is_completed t0"
      using obs(2) that l' l1
      by (auto simp: ended_def contained_def justified_def is_completed_def record_spawned_def
          split: SketchWorkerTerminal.splits)
    note cases = finish_output_cases [OF fin]
    have iff: "published \<longleftrightarrow> is_completed t0 \<and> (\<exists>st. output = Some st \<and> publishable st)"
      using cases(1) earned by auto
    have "published \<longleftrightarrow> (\<exists>outcome st. t0 = WT_Completed outcome \<and> output = Some st \<and> publishable st)"
      unfolding iff by (auto simp: is_completed_def split: SketchWorkerTerminal.splits)
    moreover have "\<exists>obs \<in> set passes. \<exists>m outcome. delivered obs m
        \<and> map_terminal m i = Inr (WT_Completed outcome)
        \<and> (t = WT_Completed outcome \<or> t = WT_Failure WF_OutputCommittedCleanup)"
      "wl_reaped l' = wl_reaped l + 1" if published
      using earned obs(1) cases(2) that iff by auto
    moreover have "is_completed t \<and> output \<noteq> None \<longrightarrow> published"
      using cases(3) earned by auto
    ultimately show ?thesis using la Inr loop r0 l1 by auto
  qed
qed

definition sample_launch :: launch where
  "sample_launch = \<lparr>la_cancelled = False, la_lease = None, la_stop_cancelled = False,
     la_stop_now = 0, la_cleanup_started = True, la_output_granted = True, la_spawned = True,
     la_pipes = True, la_counter = 7, la_force = True, la_hello_sent = True\<rparr>"

definition sample_staging :: staging where
  "sample_staging = \<lparr>st_regular = True, st_flush = True, st_replace = True, st_cleanup = True,
     st_stop_before = None, st_stop_publish = None\<rparr>"

theorem output_published_on_completion_witness:
  "\<exists>l'. supervise sample_launch sample_request (sample_uploaded @ [sample_report])
      (Some sample_staging) ledger_zero = (Some (WT_Completed Started, True), l')
   \<and> wl_reaped l' = wl_reaped ledger_zero + 1
   \<and> (\<exists>i outcome s. supervise_loop (sample_request\<lparr>req_id := i\<rparr>) (sample_uploaded @ [sample_report])
         (launched i (record_spawned ledger_zero)) = (Inl (WT_Completed outcome), s))"
proof -
  obtain l' where l': "supervise sample_launch sample_request (sample_uploaded @ [sample_report])
      (Some sample_staging) ledger_zero = (Some (WT_Completed Started, True), l')"
    by (simp add: sample_simps supervise_def supervise_launch_def sample_launch_def
        validate_worker_module_len_def WORKER_PROTOCOL_MAX_MODULE_BYTES_def next_request_id_def
        finish_output_def sample_staging_def staged_commit_def is_completed_def
        lanes_close_def on_ledger_def)
  from l' output_published_on_completion [OF l'] show ?thesis by blast
qed

end
