(* ===== verification/Hub_State.thy ===== *)
theory Hub_State
  imports Sketch_Limits
begin

text \<open>
  The operation hub (\<^verbatim>\<open>src/src/wasm/operations.rs\<close>), part one: its data. A hub owns the
  resources and the pending operations of one logical sketch. Tokens, stores, slots and
  generations are natural numbers with their machine bounds written out where the code checks
  them; kinds and rights are bytes.

  A \<^verbatim>\<open>Notify\<close> belongs to one operation and a progress reporter to one resource, so
  both are named by the token they belong to; what the code does to them (waking a waiter,
  firing a cancellation source, reporting progress) is an event appended to the log of the
  hub. A cancellation source that is still held is a flag of the slot that holds it. The
  counter behind new tokens is process-wide in the code and a field of the model. Jobs handed
  to the runtime are recorded in the order of their launch_job.
\<close>

section \<open>Constants\<close>

type_synonym token = nat
type_synonym store_id = nat

text \<open>An absolute path is the list of its components; the root is the empty list.\<close>

type_synonym hub_path = "u8 list list"

definition MAX_CLOSED_TOMBSTONES :: nat where "MAX_CLOSED_TOMBSTONES = 128"
definition MAX_WIRE_TOKEN :: nat where "MAX_WIRE_TOKEN = 2 ^ 56 - 1"

definition OP_SYNTHETIC_YIELD :: nat where "OP_SYNTHETIC_YIELD = 1"
definition OP_SYNTHETIC_RESOURCE_CREATE :: nat where "OP_SYNTHETIC_RESOURCE_CREATE = 2"
definition OP_SYNTHETIC_RESOURCE_USE :: nat where "OP_SYNTHETIC_RESOURCE_USE = 3"
definition OP_SYNTHETIC_RESOURCE_CLOSE :: nat where "OP_SYNTHETIC_RESOURCE_CLOSE = 4"
definition OP_BLOB_CREATE :: nat where "OP_BLOB_CREATE = 5"
definition OP_BLOB_READ :: nat where "OP_BLOB_READ = 7"
definition OP_BLOB_SEAL :: nat where "OP_BLOB_SEAL = 9"
definition OP_OUTPUT_COMMIT :: nat where "OP_OUTPUT_COMMIT = 10"
definition OP_CLOCK_SLEEP :: nat where "OP_CLOCK_SLEEP = 12"

definition MAX_PROCESS_OUTPUT_CHUNK :: nat where "MAX_PROCESS_OUTPUT_CHUNK = 64 * 1024"

definition SYNTHETIC_RESOURCE_KIND :: u8 where "SYNTHETIC_RESOURCE_KIND = 1"
definition EXTERNAL_WEBVIEW_RESOURCE_KIND :: u8 where "EXTERNAL_WEBVIEW_RESOURCE_KIND = 2"
definition EXTERNAL_WEBVIEW_RIGHT_LOAD :: u8 where "EXTERNAL_WEBVIEW_RIGHT_LOAD = 1"
definition EXTERNAL_WEBVIEW_RIGHT_CAPTURE :: u8 where "EXTERNAL_WEBVIEW_RIGHT_CAPTURE = 2"
definition EXTERNAL_WEBVIEW_RIGHT_WINDOW :: u8 where "EXTERNAL_WEBVIEW_RIGHT_WINDOW = 4"
definition EXTERNAL_WEBVIEW_RIGHT_NAVIGATE :: u8 where "EXTERNAL_WEBVIEW_RIGHT_NAVIGATE = 8"
definition BLOB_RESOURCE_KIND :: u8 where "BLOB_RESOURCE_KIND = 3"
definition BLOB_RIGHT_READ :: u8 where "BLOB_RIGHT_READ = 1"
definition BLOB_RIGHT_WRITE :: u8 where "BLOB_RIGHT_WRITE = 2"
definition OUTPUT_RESOURCE_KIND :: u8 where "OUTPUT_RESOURCE_KIND = 4"
definition OUTPUT_RIGHT_COMMIT :: u8 where "OUTPUT_RIGHT_COMMIT = 1"
definition WEBVIEW_URL_RESOURCE_KIND :: u8 where "WEBVIEW_URL_RESOURCE_KIND = 5"
definition WEBVIEW_URL_RIGHT_OPEN :: u8 where "WEBVIEW_URL_RIGHT_OPEN = 1"

section \<open>Terminal results and errors\<close>

datatype Terminal =
  T_Completed | T_Cancelled | T_TimedOut | T_Trapped | T_OwnerExited | T_Closed | T_Rejected

record TerminalResult =
  tr_terminal :: Terminal
  tr_resource :: "token option"

datatype HubError = Quota | Invalid | Stale | WrongKind | WrongRights | Closed | Exhausted

section \<open>Resources\<close>

record ResourceIdentity =
  id_scope :: nat
  id_slot :: nat
  id_generation :: nat
  id_kind :: u8
  id_rights :: u8

text \<open>
  A \<^verbatim>\<open>VecDeque\<close> is its contents and the capacity of its allocation. A
  \<^verbatim>\<open>Vec\<close> of the hub is always allocated to its length, so its length is its capacity.
\<close>

record vec_deque =
  dq_bytes :: "u8 list"
  dq_capacity :: nat

definition vec_deque_new :: vec_deque where
  "vec_deque_new = \<lparr>dq_bytes = [], dq_capacity = 0\<rparr>"

text \<open>
  The parts of a command description the hub reads or sets; the rest (arguments, environment,
  priority) is carried along.
\<close>

datatype StreamMode = Inherit | Piped | Null

datatype LifetimeOwner = Spawner | OwnerProcess nat

record SpawnSpec =
  sp_program :: "u8 list"
  sp_current_dir :: "u8 list option"
  sp_clear_env :: bool
  sp_stdin :: StreamMode
  sp_stdout :: StreamMode
  sp_stderr :: StreamMode
  sp_lifetime_owner :: "LifetimeOwner option"

text \<open>
  A grant to run one compiler command, which is taken when the grant is used. A running
  compiler is its native session (named by a number), once published, and the accounting of
  its output.
\<close>

record CompilerGrant =
  cg_spec :: "SpawnSpec option"
  cg_deadline :: duration
  cg_cache :: "(u8 list \<times> bool) option"

record CompilerProcess =
  cp_session :: "nat option"
  cp_output_busy :: bool
  cp_output_bytes :: nat
  cp_output_limit :: nat

text \<open>The value behind a resource; a hasher is the bytes it has absorbed.\<close>

datatype ResourceValue =
    CompilerGrant CompilerGrant
  | CompilerProcess CompilerProcess
  | Blake3 "u8 list"
  | Synthetic
  | ExternalWebview
  | WebviewUrl utf8_string
  | Blob vec_deque bool
  | ExactOutput hub_path

record ResourceSlot =
  rs_identity :: ResourceIdentity
  rs_store :: store_id
  rs_shareable :: bool
  rs_value :: ResourceValue
  rs_reserved :: bool
  rs_committing :: bool

section \<open>Operations\<close>

datatype CompilerScalarKind = Wait | Close

text \<open>A \<^verbatim>\<open>Vec<u8>\<close> whose allocation is looked at.\<close>

record byte_vec =
  vec_bytes :: "u8 list"
  vec_capacity :: nat

datatype ProcessOutputChunk = Stdout byte_vec | Stderr byte_vec

datatype ProcessOutputFault = ProcessOutputFault nat utf8_string "i32 option"

datatype ProcessOutputCompletion =
    StdoutEof | StderrEof | StdoutAbandoned | StderrAbandoned
  | StdoutError ProcessOutputFault | StderrError ProcessOutputFault

datatype ProcessOutputEvent = Chunk ProcessOutputChunk | Completion ProcessOutputCompletion

record ProcessSessionExit =
  exit_code :: "i32 option"
  exit_signal :: "i32 option"
  native_status :: u32

record DeferredCompletion =
  dc_result :: TerminalResult
  dc_revoke :: "token option"

record OperationSlot =
  op_compiler_scalar :: "CompilerScalarKind option"
  op_compiler_exit :: "ProcessSessionExit option"
  op_is_compiler_read :: bool
  op_compiler_output :: "ProcessOutputEvent option option"
  op_is_compiler_spawn :: bool
  op_is_hash_operation :: bool
  op_store :: store_id
  op_resource :: "token option"
  op_required_rights :: u8
  op_terminal :: "TerminalResult option"
  op_deferred_completion :: "DeferredCompletion option"
  op_suspended :: bool
  op_created_resource :: "token option"
  op_pending_blob_write :: "u8 list option"
  op_pending_blob_read :: "nat option"
  op_is_blob_read :: bool
  op_is_blob_write :: bool
  op_blob_read_result :: "u8 list option"
  op_producer_cancel :: bool
  op_progress_timeout_cancel :: bool

definition new_operation :: "store_id \<Rightarrow> token option \<Rightarrow> u8 \<Rightarrow> OperationSlot" where
  "new_operation store resource required_rights =
     \<lparr>op_compiler_scalar = None, op_compiler_exit = None, op_is_compiler_read = False,
      op_compiler_output = None, op_is_compiler_spawn = False, op_is_hash_operation = False,
      op_store = store, op_resource = resource, op_required_rights = required_rights,
      op_terminal = None, op_deferred_completion = None, op_suspended = False,
      op_created_resource = None, op_pending_blob_write = None, op_pending_blob_read = None,
      op_is_blob_read = False, op_is_blob_write = False, op_blob_read_result = None,
      op_producer_cancel = False, op_progress_timeout_cancel = False\<rparr>"

section \<open>The hub\<close>

datatype hub_event =
    Notified token
  | ProducerCancelled token
  | IdleTimerCancelled token
  | Progressed token
  | IdleWindowRestarted token
  | ProcessCancelled token

text \<open>Work handed to the runtime, with the arguments it captured.\<close>

datatype hub_job =
    CompleteAfterSuspend token TerminalResult "token option"
  | ClockSleep token nat
  | IdleTimeout token token
  | OutputJob store_id token token token
  | SuperviseCompiler SpawnSpec token token duration
  | ObserveExit store_id token token
  | ObserveCleanup token token
  | ReceiveOutput token token

text \<open>
  A task the hub keeps a handle of, named by the operation that launched it. It has ended
  well, or with an error or a panic.
\<close>

datatype task_status = Running | Ended bool

type_synonym tracked_jobs = "(token \<times> task_status) list"

text \<open>How the reaping of a compiler ended: still pending, acknowledged, or failed.\<close>

datatype cleanup_result = Cleanup_Pending | Cleanup_Done | Cleanup_Failed

record hub_config =
  hc_scope :: nat
  hc_maximum_operations :: nat
  hc_maximum_resources :: nat
  hc_blob_limits :: BlobLimits
  hc_try_reserve :: "nat \<Rightarrow> bool"

text \<open>\<open>hc_try_reserve\<close> says which buffer sizes the allocator can provide.\<close>

record hub =
  hub_reserved_native_process_output_bytes :: nat
  hub_reserved_process_output_bytes :: nat
  hub_process_jobs :: tracked_jobs
  hub_process_io_jobs :: tracked_jobs
  hub_process_job_failed :: bool
  hub_output_jobs :: tracked_jobs
  hub_cleanups :: "(token, cleanup_result) bt_map"
  hub_resources :: "(token, ResourceSlot) bt_map"
  hub_operations :: "(token, OperationSlot) bt_map"
  hub_next_resource_slot :: nat
  hub_resource_generations :: "(nat, nat) bt_map"
  hub_free_resource_slots :: "nat list"
  hub_closed_resources :: "token set"
  hub_closed_resource_order :: "token list"
  hub_suspends :: nat
  hub_resumes :: nat
  hub_buffered_blob_bytes :: nat
  hub_peak_buffered_blob_bytes :: nat
  hub_peak_retained_transfer_capacity :: nat
  hub_native_transfer_capacity :: nat
  hub_closed :: bool
  hub_output_job_failed :: bool
  hub_output_job_count :: nat
  hub_native_capture_count :: nat
  hub_native_open_count :: nat
  hub_clock_count :: nat
  hub_next_opaque_token :: nat
  hub_jobs :: "hub_job list"
  hub_log :: "hub_event list"

text \<open>\<^verbatim>\<open>OperationHub::new_with_blob_limits\<close>, at the value the token counter has then.\<close>

definition hub_new :: "nat \<Rightarrow> hub" where
  "hub_new counter =
     \<lparr>hub_reserved_native_process_output_bytes = 0, hub_reserved_process_output_bytes = 0,
      hub_process_jobs = [], hub_process_io_jobs = [], hub_process_job_failed = False,
      hub_output_jobs = [], hub_cleanups = [], hub_resources = [], hub_operations = [], hub_next_resource_slot = 0,
      hub_resource_generations = [], hub_free_resource_slots = [], hub_closed_resources = {},
      hub_closed_resource_order = [], hub_suspends = 0, hub_resumes = 0,
      hub_buffered_blob_bytes = 0, hub_peak_buffered_blob_bytes = 0,
      hub_peak_retained_transfer_capacity = 0, hub_native_transfer_capacity = 0,
      hub_closed = False, hub_output_job_failed = False, hub_output_job_count = 0,
      hub_native_capture_count = 0, hub_native_open_count = 0, hub_clock_count = 0,
      hub_next_opaque_token = counter, hub_jobs = [], hub_log = []\<rparr>"

type_synonym 'a hub_result = "(hub, HubError, 'a) state_result"

definition notify_one :: "token \<Rightarrow> hub \<Rightarrow> hub" where
  "notify_one t h = h\<lparr>hub_log := hub_log h @ [Notified t]\<rparr>"

definition notify_all :: "token list \<Rightarrow> hub \<Rightarrow> hub" where
  "notify_all ts h = h\<lparr>hub_log := hub_log h @ map Notified ts\<rparr>"

definition notify_option :: "token option \<Rightarrow> hub \<Rightarrow> hub" where
  "notify_option t = (case t of None \<Rightarrow> id | Some t \<Rightarrow> notify_one t)"

definition report_progress :: "token \<Rightarrow> hub \<Rightarrow> hub" where
  "report_progress blob h = h\<lparr>hub_log := hub_log h @ [Progressed blob]\<rparr>"

definition report_all_progress :: "token list \<Rightarrow> hub \<Rightarrow> hub" where
  "report_all_progress blobs h = h\<lparr>hub_log := hub_log h @ map Progressed blobs\<rparr>"

definition launch_job :: "hub_job \<Rightarrow> hub \<Rightarrow> hub" where
  "launch_job j h = h\<lparr>hub_jobs := hub_jobs h @ [j]\<rparr>"

section \<open>Tokens\<close>

definition hub_next :: "nat hub_result" where
  "hub_next h =
     (case checked_add (hub_next_opaque_token h) 1 of
        None \<Rightarrow> (Inl Exhausted, h)
      | Some _ \<Rightarrow> (Inr (hub_next_opaque_token h + 1),
                  h\<lparr>hub_next_opaque_token := hub_next_opaque_token h + 1\<rparr>))"

definition next_token :: "token hub_result" where
  "next_token =
     s_bind hub_next (\<lambda>v. if MAX_WIRE_TOKEN < v then s_lift (Inl Exhausted) else s_return v)"

section \<open>Status words\<close>

definition STATUS_PENDING :: u8 where "STATUS_PENDING = 0"
definition STATUS_ERROR :: u8 where "STATUS_ERROR = 0x80"

fun status :: "Terminal \<Rightarrow> u8" where
  "status T_Completed = 1"
| "status T_Cancelled = 2"
| "status T_TimedOut = 3"
| "status T_Trapped = 4"
| "status T_OwnerExited = 5"
| "status T_Closed = 6"
| "status T_Rejected = 7"

definition pack :: "u8 \<Rightarrow> token option \<Rightarrow> u64" where
  "pack st payload =
     push_bit 8 (of_nat (case payload of None \<Rightarrow> 0 | Some t \<Rightarrow> t)) OR ucast st"

section \<open>Dropping resources\<close>

text \<open>Dropping a \<^verbatim>\<open>CompilerProcess\<close> signals the supervisor of its process.\<close>

definition drop_events :: "token \<Rightarrow> ResourceSlot \<Rightarrow> hub_event list" where
  "drop_events t r = (case rs_value r of CompilerProcess _ \<Rightarrow> [ProcessCancelled t] | _ \<Rightarrow> [])"

section \<open>Retained capacity\<close>

fun is_blob :: "ResourceValue \<Rightarrow> bool" where
  "is_blob (Blob _ _) = True"
| "is_blob _ = False"

fun blob_capacity :: "ResourceValue \<Rightarrow> nat" where
  "blob_capacity (Blob buffer _) = dq_capacity buffer"
| "blob_capacity _ = 0"

fun blob_length :: "ResourceValue \<Rightarrow> nat" where
  "blob_length (Blob buffer _) = length (dq_bytes buffer)"
| "blob_length _ = 0"

definition option_length :: "'a list option \<Rightarrow> nat" where
  "option_length x = (case x of None \<Rightarrow> 0 | Some xs \<Rightarrow> length xs)"

definition operation_capacity :: "OperationSlot \<Rightarrow> nat" where
  "operation_capacity op =
     saturating_add
       (saturating_add (option_length (op_pending_blob_write op))
          (option_length (op_blob_read_result op)))
       (if op_compiler_output op \<noteq> None then MAX_PROCESS_OUTPUT_CHUNK else 0)"

definition transfer_capacity :: "hub \<Rightarrow> nat" where
  "transfer_capacity h =
     foldl saturating_add
       (saturating_add
          (saturating_add (hub_native_transfer_capacity h) (hub_reserved_process_output_bytes h))
          (hub_reserved_native_process_output_bytes h))
       (map (\<lambda>r. blob_capacity (rs_value r)) (bt_values (hub_resources h))
        @ map operation_capacity (bt_values (hub_operations h)))"

definition record_transfer_capacity :: "hub \<Rightarrow> hub" where
  "record_transfer_capacity h =
     h\<lparr>hub_peak_retained_transfer_capacity :=
         max (hub_peak_retained_transfer_capacity h) (transfer_capacity h)\<rparr>"

end
