(* ===== verification/Hub_Core.thy ===== *)
theory Hub_Core
  imports Hub_State
begin

text \<open>
  The operation hub, part two: the functions that run while the mutex of the hub is held
  (\<^verbatim>\<open>validate_resource\<close>, \<^verbatim>\<open>create_resource_value_locked\<close>,
  \<^verbatim>\<open>submit_locked\<close>, \<^verbatim>\<open>terminal_locked\<close>,
  \<^verbatim>\<open>close_resource_with_terminal_locked\<close>, \<^verbatim>\<open>close_locked\<close>) and
  the methods made of one such section. Waking a waiter means returning the token of its
  operation; the section that ran the function appends the wakes to the log when it releases
  the mutex.
\<close>

section \<open>Authority checks\<close>

definition validate_resource_owner :: "ResourceSlot \<Rightarrow> store_id \<Rightarrow> u8 \<Rightarrow> u8 \<Rightarrow> HubError + unit" where
  "validate_resource_owner resource store kind rights =
     (if id_kind (rs_identity resource) \<noteq> kind then Inl WrongKind
      else if id_rights (rs_identity resource) AND rights \<noteq> rights then Inl WrongRights
      else if rs_store resource \<noteq> store \<and> \<not> rs_shareable resource then Inl WrongRights
      else Inr ())"

definition validate_resource :: "ResourceSlot \<Rightarrow> store_id \<Rightarrow> u8 \<Rightarrow> u8 \<Rightarrow> HubError + unit" where
  "validate_resource resource store kind rights =
     (if rs_reserved resource then Inl Closed
      else validate_resource_owner resource store kind rights)"

section \<open>Creating resources\<close>

definition take_resource_slot :: "nat hub_result" where
  "take_resource_slot h =
     (if hub_free_resource_slots h \<noteq> []
      then (Inr (last (hub_free_resource_slots h)),
            h\<lparr>hub_free_resource_slots := butlast (hub_free_resource_slots h)\<rparr>)
      else case checked_add_u32 (hub_next_resource_slot h) 1 of
             None \<Rightarrow> (Inl Exhausted, h)
           | Some slot \<Rightarrow> (Inr slot, h\<lparr>hub_next_resource_slot := slot\<rparr>))"

definition next_generation :: "nat \<Rightarrow> nat hub_result" where
  "next_generation slot h =
     (case checked_add_u32
             (case bt_get (hub_resource_generations h) slot of None \<Rightarrow> 0 | Some g \<Rightarrow> g) 1 of
        None \<Rightarrow> (Inl Exhausted, h)
      | Some generation \<Rightarrow>
          (Inr generation,
           h\<lparr>hub_resource_generations :=
               bt_insert slot generation (hub_resource_generations h)\<rparr>))"

definition insert_resource :: "token \<Rightarrow> ResourceSlot \<Rightarrow> hub \<Rightarrow> hub" where
  "insert_resource t r h = h\<lparr>hub_resources := bt_insert t r (hub_resources h)\<rparr>"

definition live_blobs :: "hub \<Rightarrow> nat" where
  "live_blobs h = bt_count (\<lambda>r. is_blob (rs_value r)) (hub_resources h)"

definition create_resource_value_locked :: "hub_config \<Rightarrow> store_id \<Rightarrow> u8 \<Rightarrow> u8 \<Rightarrow> bool \<Rightarrow>
    ResourceValue \<Rightarrow> token hub_result" where
  "create_resource_value_locked c store kind rights shareable v h =
     (if hub_closed h then (Inl Closed, h)
      else if hc_maximum_resources c \<le> length (hub_resources h) then (Inl Quota, h)
      else if is_blob v \<and> maximum_live_blobs (hc_blob_limits c) \<le> live_blobs h
        then (Inl Quota, h)
      else s_bind take_resource_slot (\<lambda>slot.
             s_bind (next_generation slot) (\<lambda>generation.
               s_bind next_token (\<lambda>token h.
                 (Inr token, insert_resource token
                    \<lparr>rs_identity = \<lparr>id_scope = hc_scope c, id_slot = slot,
                       id_generation = generation, id_kind = kind, id_rights = rights\<rparr>,
                     rs_store = store, rs_shareable = shareable, rs_value = v,
                     rs_reserved = True, rs_committing = False\<rparr> h)))) h)"

definition create_resource_value :: "hub_config \<Rightarrow> store_id \<Rightarrow> u8 \<Rightarrow> u8 \<Rightarrow> bool \<Rightarrow>
    ResourceValue \<Rightarrow> token hub_result" where
  "create_resource_value = create_resource_value_locked"

definition create_resource :: "hub_config \<Rightarrow> store_id \<Rightarrow> u8 \<Rightarrow> u8 \<Rightarrow> bool \<Rightarrow> token hub_result" where
  "create_resource c store kind rights shareable =
     create_resource_value c store kind rights shareable Synthetic"

definition update_resource :: "token \<Rightarrow> (ResourceSlot \<Rightarrow> ResourceSlot) \<Rightarrow> hub \<Rightarrow> hub" where
  "update_resource t f h = h\<lparr>hub_resources := bt_modify t f (hub_resources h)\<rparr>"

definition update_operation :: "token \<Rightarrow> (OperationSlot \<Rightarrow> OperationSlot) \<Rightarrow> hub \<Rightarrow> hub" where
  "update_operation t f h = h\<lparr>hub_operations := bt_modify t f (hub_operations h)\<rparr>"

definition remove_operation :: "token \<Rightarrow> hub \<Rightarrow> hub" where
  "remove_operation t h = h\<lparr>hub_operations := bt_remove t (hub_operations h)\<rparr>"

text \<open>\<^verbatim>\<open>resources.get_mut(&token).ok_or(e)?.reserved = false\<close>.\<close>

definition publish_resource :: "HubError \<Rightarrow> token \<Rightarrow> unit hub_result" where
  "publish_resource e t h =
     (case bt_get (hub_resources h) t of
        None \<Rightarrow> (Inl e, h)
      | Some _ \<Rightarrow> (Inr (), update_resource t (rs_reserved_update (\<lambda>_. False)) h))"

section \<open>Submitting operations\<close>

definition check_borrow :: "hub_config \<Rightarrow> store_id \<Rightarrow> ResourceSlot \<Rightarrow> u8 \<Rightarrow> u8 \<Rightarrow> HubError + unit" where
  "check_borrow c store slot kind required_rights =
     (if rs_committing slot then Inl WrongRights
      else if rs_reserved slot then Inl Closed
      else if id_scope (rs_identity slot) \<noteq> hc_scope c then Inl Stale
      else if id_kind (rs_identity slot) \<noteq> kind then Inl WrongKind
      else if id_rights (rs_identity slot) AND required_rights \<noteq> required_rights
        then Inl WrongRights
      else if rs_store slot \<noteq> store \<and> \<not> rs_shareable slot then Inl WrongRights
      else Inr ())"

definition submit_locked :: "hub_config \<Rightarrow> store_id \<Rightarrow> token option \<Rightarrow> u8 \<Rightarrow> u8 \<Rightarrow> token hub_result" where
  "submit_locked c store resource kind required_rights h =
     (if hub_closed h then (Inl Closed, h)
      else if hc_maximum_operations c \<le> length (hub_operations h) then (Inl Quota, h)
      else case (case resource of
                   None \<Rightarrow> Inr ()
                 | Some t \<Rightarrow>
                     (case bt_get (hub_resources h) t of
                        None \<Rightarrow> Inl Invalid
                      | Some slot \<Rightarrow> check_borrow c store slot kind required_rights)) of
          Inl e \<Rightarrow> (Inl e, h)
        | Inr _ \<Rightarrow>
            s_bind next_token (\<lambda>token h.
              (Inr token, h\<lparr>hub_operations :=
                 bt_insert token (new_operation store resource required_rights)
                   (hub_operations h)\<rparr>)) h)"

definition submit :: "hub_config \<Rightarrow> store_id \<Rightarrow> token option \<Rightarrow> u8 \<Rightarrow> u8 \<Rightarrow> token hub_result" where
  "submit = submit_locked"

section \<open>Terminal results\<close>

text \<open>
  A compiler read or wait keeps its result until it is collected, so it may still be
  revoked after it completed.
\<close>

definition ready_read :: "OperationSlot \<Rightarrow> bool" where
  "ready_read op \<longleftrightarrow>
     (op_is_compiler_read op \<or> op_compiler_scalar op = Some Wait)
     \<and> (case op_terminal op of None \<Rightarrow> False | Some old \<Rightarrow> tr_terminal old = T_Completed)"

definition cancel_events :: "token \<Rightarrow> OperationSlot \<Rightarrow> hub_event list" where
  "cancel_events t op =
     (if op_producer_cancel op then [ProducerCancelled t] else [])
     @ (if op_progress_timeout_cancel op then [IdleTimerCancelled t] else [])"

definition terminate_slot :: "TerminalResult \<Rightarrow> OperationSlot \<Rightarrow> OperationSlot" where
  "terminate_slot result op =
     (let op = (if tr_terminal result \<noteq> T_Completed
                then op\<lparr>op_compiler_output := None, op_compiler_exit := None\<rparr> else op) in
      op\<lparr>op_terminal := Some result, op_producer_cancel := False,
         op_progress_timeout_cancel := False, op_pending_blob_write := None,
         op_pending_blob_read := None\<rparr>)"

definition release_reservation :: "token \<Rightarrow> hub \<Rightarrow> hub" where
  "release_reservation t h =
     (case bt_get (hub_resources h) t of
        None \<Rightarrow> h
      | Some r \<Rightarrow>
          h\<lparr>hub_resources := bt_remove t (hub_resources h),
            hub_buffered_blob_bytes :=
              saturating_sub (hub_buffered_blob_bytes h) (blob_length (rs_value r)),
            hub_free_resource_slots := hub_free_resource_slots h @ [id_slot (rs_identity r)],
            hub_log := hub_log h @ drop_events t r\<rparr>)"

definition terminal_locked :: "token \<Rightarrow> TerminalResult \<Rightarrow> token option hub_result" where
  "terminal_locked token result h =
     (case bt_get (hub_operations h) token of
        None \<Rightarrow> (Inl Invalid, h)
      | Some op \<Rightarrow>
          let replace_ready = ready_read op \<and> tr_terminal result \<noteq> T_Completed in
          if op_terminal op \<noteq> None \<and> \<not> replace_ready then (Inr None, h)
          else
            let h = update_operation token (terminate_slot result) h;
                h = h\<lparr>hub_log := hub_log h @ cancel_events token op\<rparr> in
            (Inr (Some token),
             case op_created_resource op of
               None \<Rightarrow> h
             | Some r \<Rightarrow>
                 if tr_terminal result = T_Completed
                 then update_resource r (rs_reserved_update (\<lambda>_. False)) h
                 else release_reservation r h))"

definition terminal :: "token \<Rightarrow> TerminalResult \<Rightarrow> unit hub_result" where
  "terminal token result =
     s_bind (terminal_locked token result) (\<lambda>notify h. (Inr (), notify_option notify h))"

primrec terminal_each :: "token list \<Rightarrow> TerminalResult \<Rightarrow> token list hub_result" where
  "terminal_each [] result = s_return []"
| "terminal_each (t # ts) result =
     s_bind (terminal_locked t result) (\<lambda>notify.
       s_bind (terminal_each ts result) (\<lambda>wakes.
         s_return (case notify of None \<Rightarrow> wakes | Some n \<Rightarrow> n # wakes)))"

section \<open>Closing\<close>

text \<open>The bounded queue of tombstones: the oldest are forgotten.\<close>

function expire_tombstones :: "hub \<Rightarrow> hub" where
  "expire_tombstones h =
     (if MAX_CLOSED_TOMBSTONES < length (hub_closed_resource_order h)
      then expire_tombstones
        (h\<lparr>hub_closed_resource_order := tl (hub_closed_resource_order h),
           hub_closed_resources :=
             hub_closed_resources h - {hd (hub_closed_resource_order h)}\<rparr>)
      else h)"
  by pat_completeness auto

termination
  by (relation "measure (\<lambda>h. length (hub_closed_resource_order h))") auto

declare expire_tombstones.simps [simp del]

text \<open>The operations a predicate selects, in token order.\<close>

definition select_operations :: "(OperationSlot \<Rightarrow> bool) \<Rightarrow> hub \<Rightarrow> token list" where
  "select_operations P h =
     filter (\<lambda>t. case bt_get (hub_operations h) t of None \<Rightarrow> False | Some op \<Rightarrow> P op)
       (bt_keys (hub_operations h))"

definition close_resource_with_terminal_locked :: "token \<Rightarrow> Terminal \<Rightarrow> token list hub_result" where
  "close_resource_with_terminal_locked token t h =
     (case bt_get (hub_resources h) token of
        None \<Rightarrow> (if token \<in> hub_closed_resources h then Inr [] else Inl Invalid, h)
      | Some resource \<Rightarrow>
          let h = h\<lparr>hub_resources := bt_remove token (hub_resources h),
                    hub_buffered_blob_bytes :=
                      saturating_sub (hub_buffered_blob_bytes h) (blob_length (rs_value resource)),
                    hub_closed_resources := insert token (hub_closed_resources h),
                    hub_closed_resource_order := hub_closed_resource_order h @ [token]\<rparr>;
              h = expire_tombstones h;
              h = h\<lparr>hub_free_resource_slots :=
                      hub_free_resource_slots h @ [id_slot (rs_identity resource)]\<rparr> in
          (case terminal_each
                  (select_operations
                     (\<lambda>op. op_resource op = Some token \<and> (op_terminal op = None \<or> ready_read op)) h)
                  \<lparr>tr_terminal = t, tr_resource = None\<rparr> h of
             (r, h) \<Rightarrow> (r, h\<lparr>hub_log := hub_log h @ drop_events token resource\<rparr>)))"

definition close_slot :: "Terminal \<Rightarrow> OperationSlot \<Rightarrow> OperationSlot" where
  "close_slot t op =
     (let op' = op\<lparr>op_producer_cancel := False, op_progress_timeout_cancel := False,
                   op_blob_read_result := None, op_compiler_output := None,
                   op_compiler_exit := None\<rparr> in
      if op_terminal op = None \<or> ready_read op
      then op'\<lparr>op_pending_blob_write := None, op_pending_blob_read := None,
               op_terminal := Some \<lparr>tr_terminal = t, tr_resource = None\<rparr>\<rparr>
      else op')"

definition close_locked :: "Terminal \<Rightarrow> hub \<Rightarrow> hub" where
  "close_locked t h =
     (let wakes = map fst (filter (\<lambda>(_, op). op_terminal op = None \<or> ready_read op)
                             (hub_operations h));
          h = h\<lparr>hub_closed := True, hub_resources := [], hub_buffered_blob_bytes := 0,
                hub_free_resource_slots := [],
                hub_operations := map (\<lambda>(k, op). (k, close_slot t op)) (hub_operations h),
                hub_log := hub_log h
                  @ concat (map (\<lambda>(k, r). drop_events k r) (hub_resources h))
                  @ concat (map (\<lambda>(k, op). cancel_events k op) (hub_operations h))\<rparr> in
      notify_all wakes h)"

definition close_all :: "Terminal \<Rightarrow> hub \<Rightarrow> hub" where
  "close_all = close_locked"

section \<open>Methods of one section\<close>

definition acquire_native_open :: "hub_config \<Rightarrow> unit hub_result" where
  "acquire_native_open c h =
     (if hub_closed h then (Inl Closed, h)
      else if hub_native_open_count h < min (hc_maximum_operations c) 4
        then (Inr (), h\<lparr>hub_native_open_count := hub_native_open_count h + 1\<rparr>)
      else (Inl Quota, h))"

definition drop_native_open :: "hub \<Rightarrow> hub" where
  "drop_native_open h = h\<lparr>hub_native_open_count := hub_native_open_count h - 1\<rparr>"

definition acquire_native_capture :: "hub_config \<Rightarrow> unit hub_result" where
  "acquire_native_capture c h =
     (if hub_closed h then (Inl Closed, h)
      else if hub_native_capture_count h < min (hc_maximum_operations c) 4
        then (Inr (), h\<lparr>hub_native_capture_count := hub_native_capture_count h + 1\<rparr>)
      else (Inl Quota, h))"

definition drop_native_capture :: "hub \<Rightarrow> hub" where
  "drop_native_capture h = h\<lparr>hub_native_capture_count := hub_native_capture_count h - 1\<rparr>"

definition validate_close :: "store_id \<Rightarrow> token \<Rightarrow> unit hub_result" where
  "validate_close store resource h =
     (case bt_get (hub_resources h) resource of
        None \<Rightarrow> Inl Invalid
      | Some slot \<Rightarrow>
          if rs_store slot \<noteq> store \<and> \<not> rs_shareable slot then Inl WrongRights else Inr (), h)"

definition resource_was_closed :: "token \<Rightarrow> hub \<Rightarrow> bool" where
  "resource_was_closed resource h \<longleftrightarrow> resource \<in> hub_closed_resources h"

definition take_owner :: "token \<Rightarrow> store_id \<Rightarrow> unit hub_result" where
  "take_owner operation store h =
     (case bt_get (hub_operations h) operation of
        None \<Rightarrow> Inl Invalid
      | Some slot \<Rightarrow> if op_store slot \<noteq> store then Inl Stale else Inr (), h)"

definition attach_created_resource :: "token \<Rightarrow> token \<Rightarrow> unit hub_result" where
  "attach_created_resource operation resource h =
     (case bt_get (hub_operations h) operation of
        Some slot \<Rightarrow>
          if op_terminal slot = None
          then (Inr (), update_operation operation
                  (op_created_resource_update (\<lambda>_. Some resource)) h)
          else (Inl Closed, release_reservation resource (remove_operation operation h))
      | None \<Rightarrow> (Inl Closed, release_reservation resource (remove_operation operation h)))"

definition take_terminal :: "token \<Rightarrow> store_id \<Rightarrow> TerminalResult option hub_result" where
  "take_terminal token store h =
     (case bt_get (hub_operations h) token of
        None \<Rightarrow> (Inl Invalid, h)
      | Some op \<Rightarrow>
          if op_store op \<noteq> store then (Inl Stale, h)
          else if op_is_compiler_read op \<or> op_compiler_scalar op = Some Wait
            then (Inl WrongKind, h)
          else if op_terminal op \<noteq> None
            then (Inr (op_terminal op),
                  remove_operation token
                    (h\<lparr>hub_resumes := saturating_add (hub_resumes h) 1\<rparr>))
          else (Inr None, h))"

definition bind_producer_cancellation :: "store_id \<Rightarrow> token \<Rightarrow> unit hub_result" where
  "bind_producer_cancellation store operation h =
     (case bt_get (hub_operations h) operation of
        None \<Rightarrow> (Inl Invalid, h)
      | Some slot \<Rightarrow>
          if op_store slot \<noteq> store then (Inl WrongRights, h)
          else if op_producer_cancel slot then (Inl Invalid, h)
          else if op_terminal slot \<noteq> None
            then (Inr (), h\<lparr>hub_log := hub_log h @ [ProducerCancelled operation]\<rparr>)
          else (Inr (), update_operation operation
                  (op_producer_cancel_update (\<lambda>_. True)) h))"

definition external_webview_wire :: "store_id \<Rightarrow> token \<Rightarrow> hub \<Rightarrow> bool" where
  "external_webview_wire store token h =
     (case bt_get (hub_resources h) token of
        None \<Rightarrow> False
      | Some resource \<Rightarrow>
          validate_resource resource store EXTERNAL_WEBVIEW_RESOURCE_KIND 0 = Inr ())"

definition finish_external_open :: "token \<Rightarrow> token \<Rightarrow> hub \<Rightarrow> bool \<times> hub" where
  "finish_external_open operation resource h =
     (if hub_closed h
         \<or> \<not> (case bt_get (hub_resources h) resource of
                None \<Rightarrow> False
              | Some slot \<Rightarrow> id_kind (rs_identity slot) = EXTERNAL_WEBVIEW_RESOURCE_KIND
                             \<and> rs_reserved slot)
         \<or> \<not> (case bt_get (hub_operations h) operation of
                None \<Rightarrow> False
              | Some slot \<Rightarrow> op_terminal slot = None
                             \<and> op_created_resource slot = Some resource)
      then (False, h)
      else case terminal_locked operation
                  \<lparr>tr_terminal = T_Completed, tr_resource = Some resource\<rparr> h of
             (Inl _, h) \<Rightarrow> (False, h)
           | (Inr wake, h) \<Rightarrow> (True, notify_option wake h))"

end
