(* ===== verification/Hub_Blob.thy ===== *)
theory Hub_Blob
  imports Hub_Core
begin

text \<open>
  The operation hub, part three: bulk data. Blobs are bounded byte queues inside the hub.
  A write waits in its operation until the blob, the sketch and the transfer budget have room;
  a read waits until the blob has bytes or is sealed. The two passes that complete such
  operations, the loop that alternates them, and the methods that submit, collect, seal,
  revoke and abandon transfers follow.
\<close>

section \<open>Capacity\<close>

definition transfer_maximum :: "hub_config \<Rightarrow> nat" where
  "transfer_maximum c =
     maximum_transfer_bytes (hc_blob_limits c) - maximum_chunk_bytes (hc_blob_limits c)"

definition retained_blob_capacity :: "hub \<Rightarrow> nat" where
  "retained_blob_capacity h =
     foldl (\<lambda>t r. saturating_add t (blob_capacity (rs_value r))) 0 (bt_values (hub_resources h))"

text \<open>\<^verbatim>\<open>VecDeque::try_reserve_exact\<close>: grows the allocation to what is needed, or fails.\<close>

definition try_reserve_exact :: "hub_config \<Rightarrow> nat \<Rightarrow> vec_deque \<Rightarrow> vec_deque option" where
  "try_reserve_exact c additional d =
     (let required = length (dq_bytes d) + additional in
      if required \<le> dq_capacity d then Some d
      else if hc_try_reserve c required then Some (d\<lparr>dq_capacity := required\<rparr>)
      else None)"

definition set_buffer :: "vec_deque \<Rightarrow> ResourceSlot \<Rightarrow> ResourceSlot" where
  "set_buffer d r =
     (case rs_value r of Blob _ sealed \<Rightarrow> r\<lparr>rs_value := Blob d sealed\<rparr> | _ \<Rightarrow> r)"

definition resource_value :: "hub \<Rightarrow> token \<Rightarrow> ResourceValue option" where
  "resource_value h t = map_option rs_value (bt_get (hub_resources h) t)"

definition reserve_blob_capacity :: "hub_config \<Rightarrow> token \<Rightarrow> nat \<Rightarrow> nat \<Rightarrow> nat \<Rightarrow> unit hub_result" where
  "reserve_blob_capacity c blob additional maximum transfer_max h =
     (let transfer_retained = transfer_capacity h; retained = retained_blob_capacity h in
      case resource_value h blob of
        None \<Rightarrow> (Inl Invalid, h)
      | Some (Blob buffer _) \<Rightarrow>
          (case checked_add (length (dq_bytes buffer)) additional of
             None \<Rightarrow> (Inl Quota, h)
           | Some required \<Rightarrow>
               let growth = saturating_sub required (dq_capacity buffer) in
               if maximum < saturating_add retained growth
                  \<or> transfer_max < saturating_add transfer_retained growth
               then (Inl Quota, h)
               else case try_reserve_exact c additional buffer of
                      None \<Rightarrow> (Inl Exhausted, h)
                    | Some buffer \<Rightarrow>
                        (Inr (), record_transfer_capacity
                           (update_resource blob (set_buffer buffer) h)))
      | Some _ \<Rightarrow> (Inl WrongKind, h))"

definition extend_slot :: "u8 list \<Rightarrow> ResourceSlot \<Rightarrow> ResourceSlot" where
  "extend_slot bytes r =
     (case rs_value r of
        Blob d sealed \<Rightarrow> r\<lparr>rs_value := Blob (d\<lparr>dq_bytes := dq_bytes d @ bytes\<rparr>) sealed\<rparr>
      | _ \<Rightarrow> r)"

text \<open>\<^verbatim>\<open>buffer.extend(bytes)\<close> with the byte ledger and its high-water mark.\<close>

definition append_blob :: "token \<Rightarrow> u8 list \<Rightarrow> hub \<Rightarrow> hub" where
  "append_blob blob bytes h =
     (let h = update_resource blob (extend_slot bytes) h;
          h = h\<lparr>hub_buffered_blob_bytes := hub_buffered_blob_bytes h + length bytes\<rparr> in
      h\<lparr>hub_peak_buffered_blob_bytes :=
          max (hub_peak_buffered_blob_bytes h) (hub_buffered_blob_bytes h)\<rparr>)"

definition drain_slot :: "nat \<Rightarrow> ResourceSlot \<Rightarrow> ResourceSlot" where
  "drain_slot count r =
     (case rs_value r of
        Blob d sealed \<Rightarrow>
          let rest = drop count (dq_bytes d) in
          r\<lparr>rs_value := Blob (if rest = [] then vec_deque_new else d\<lparr>dq_bytes := rest\<rparr>) sealed\<rparr>
      | _ \<Rightarrow> r)"

section \<open>Completing writes\<close>

definition pending_write :: "OperationSlot \<Rightarrow> bool" where
  "pending_write op \<longleftrightarrow> op_pending_blob_write op \<noteq> None \<and> op_terminal op = None"

definition pending_read :: "OperationSlot \<Rightarrow> bool" where
  "pending_read op \<longleftrightarrow> op_pending_blob_read op \<noteq> None \<and> op_terminal op = None"

text \<open>
  What one turn of a pass yields: the operations to wake and the blobs that progressed. A
  \<^verbatim>\<open>continue\<close> yields neither.
\<close>

definition finish_transfer :: "token \<Rightarrow> Terminal \<Rightarrow> token list \<Rightarrow> (token list \<times> token list) hub_result" where
  "finish_transfer token t progress =
     s_bind (terminal_locked token \<lparr>tr_terminal = t, tr_resource = None\<rparr>) (\<lambda>wake.
       s_return (case wake of None \<Rightarrow> [] | Some w \<Rightarrow> [w], progress))"

definition write_terminal :: "hub_config \<Rightarrow> token \<Rightarrow> nat \<Rightarrow> hub \<Rightarrow> Terminal option" where
  "write_terminal c resource count h =
     (case resource_value h resource of
        None \<Rightarrow> Some T_Closed
      | Some (Blob buffer sealed) \<Rightarrow>
          if sealed then Some T_Closed
          else if maximum_blob_bytes (hc_blob_limits c)
                    < saturating_add (length (dq_bytes buffer)) count
                  \<or> maximum_sketch_bytes (hc_blob_limits c)
                    < saturating_add (hub_buffered_blob_bytes h) count
            then None
          else Some T_Completed
      | Some _ \<Rightarrow> Some T_Rejected)"

definition complete_write :: "token \<Rightarrow> token \<Rightarrow> u8 list \<Rightarrow> (token list \<times> token list) hub_result" where
  "complete_write token resource bytes h =
     (let h = update_operation token (op_pending_blob_write_update (\<lambda>_. None)) h;
          h = append_blob resource bytes h in
      case bt_get (hub_resources h) resource of
        None \<Rightarrow> (Inl Invalid, h)
      | Some _ \<Rightarrow> finish_transfer token T_Completed [resource] h)"

definition write_turn :: "hub_config \<Rightarrow> token \<Rightarrow> (token list \<times> token list) hub_result" where
  "write_turn c token h =
     (case bt_get (hub_operations h) token of
        None \<Rightarrow> (Inl Invalid, h)
      | Some operation \<Rightarrow>
          (case (op_resource operation, op_pending_blob_write operation) of
             (Some resource, Some bytes) \<Rightarrow>
               (case write_terminal c resource (length bytes) h of
                  None \<Rightarrow> (Inr ([], []), h)
                | Some t \<Rightarrow>
                    if t = T_Completed
                    then (case reserve_blob_capacity c resource (length bytes)
                                 (maximum_sketch_bytes (hc_blob_limits c)) (transfer_maximum c) h of
                            (Inr _, h) \<Rightarrow> complete_write token resource bytes h
                          | (Inl e, h) \<Rightarrow>
                              if e = Quota then (Inr ([], []), h)
                              else finish_transfer token T_Rejected [] h)
                    else finish_transfer token t [] h)
           | _ \<Rightarrow> (Inl Invalid, h)))"

primrec pass_loop :: "(token \<Rightarrow> (token list \<times> token list) hub_result) \<Rightarrow> token list \<Rightarrow>
    (token list \<times> token list) hub_result" where
  "pass_loop turn [] = s_return ([], [])"
| "pass_loop turn (t # ts) =
     s_bind (turn t) (\<lambda>(wakes, progress).
       s_bind (pass_loop turn ts) (\<lambda>(wakes', progress').
         s_return (wakes @ wakes', progress @ progress')))"

text \<open>
  A pass as one section of the mutex: the turns, then, outside of it, the progress reports and
  the wakes. It answers whether an operation was completed.
\<close>

definition run_pass :: "(token \<Rightarrow> (token list \<times> token list) hub_result) \<Rightarrow>
    (OperationSlot \<Rightarrow> bool) \<Rightarrow> bool hub_result" where
  "run_pass turn P h =
     s_bind (pass_loop turn (select_operations P h)) (\<lambda>(wakes, progress) h.
       (Inr (wakes \<noteq> []), notify_all wakes (report_all_progress progress h))) h"

definition write_section :: "hub_config \<Rightarrow> bool hub_result" where
  "write_section c = run_pass (write_turn c) pending_write"

section \<open>Completing reads\<close>

definition completed_read_bytes :: "hub \<Rightarrow> nat" where
  "completed_read_bytes h = bt_total (\<lambda>op. option_length (op_blob_read_result op)) (hub_operations h)"

text \<open>The bytes move from the blob to the operation; an emptied buffer gives up its allocation.\<close>

definition read_out :: "token \<Rightarrow> token \<Rightarrow> nat \<Rightarrow> u8 list \<Rightarrow> hub \<Rightarrow> hub" where
  "read_out token resource count bytes h =
     (let h' = update_resource resource (drain_slot count) h;
          h' = h'\<lparr>hub_peak_retained_transfer_capacity :=
                  max (hub_peak_retained_transfer_capacity h')
                    (saturating_add (transfer_capacity h) count),
                hub_buffered_blob_bytes := hub_buffered_blob_bytes h' - count\<rparr> in
      update_operation token (op_blob_read_result_update (\<lambda>_. Some bytes)) h')"

definition read_turn :: "hub_config \<Rightarrow> token \<Rightarrow> (token list \<times> token list) hub_result" where
  "read_turn c token h =
     (case bt_get (hub_operations h) token of
        None \<Rightarrow> (Inl Invalid, h)
      | Some operation \<Rightarrow>
          (case (op_resource operation, op_pending_blob_read operation) of
             (Some resource, Some maximum) \<Rightarrow>
               (case resource_value h resource of
                  Some (Blob buffer sealed) \<Rightarrow>
                    let count = min maximum (length (dq_bytes buffer)) in
                    if dq_bytes buffer = [] \<and> \<not> sealed then (Inr ([], []), h)
                    else if maximum_sketch_bytes (hc_blob_limits c) < saturating_add (completed_read_bytes h) count
                       \<or> maximum_transfer_bytes (hc_blob_limits c)
                          < saturating_add (transfer_capacity h) count
                      then (Inr ([], []), h)
                    else
                      finish_transfer token T_Completed [resource]
                        (read_out token resource count (take count (dq_bytes buffer)) h)
                | _ \<Rightarrow> (Inr ([], []), h))
           | _ \<Rightarrow> (Inl Invalid, h)))"

definition drive_blob_read_pass :: "hub_config \<Rightarrow> bool hub_result" where
  "drive_blob_read_pass c = run_pass (read_turn c) pending_read"

definition drive_blob_reads :: "hub_config \<Rightarrow> unit hub_result" where
  "drive_blob_reads c = s_bind (drive_blob_read_pass c) (\<lambda>_. s_return ())"

definition drive_blob_write_pass :: "hub_config \<Rightarrow> bool hub_result" where
  "drive_blob_write_pass c =
     s_bind (write_section c) (\<lambda>progressed.
       s_bind (drive_blob_read_pass c) (\<lambda>read. s_return (read \<or> progressed)))"

section \<open>The loop ends\<close>

text \<open>Every pass that reports progress has completed an operation.\<close>

definition open_operations :: "hub \<Rightarrow> nat" where
  "open_operations h = bt_count (\<lambda>op. op_terminal op = None) (hub_operations h)"

lemma open_operations_update:
  "(\<And>op. op_terminal (f op) = None \<Longrightarrow> op_terminal op = None) \<Longrightarrow>
   open_operations (update_operation t f h) \<le> open_operations h"
  by (simp add: open_operations_def update_operation_def bt_count_modify_le)

lemma hub_operations_frame [simp]:
  "hub_operations (update_resource t g h) = hub_operations h"
  "hub_operations (release_reservation t h) = hub_operations h"
  "hub_operations (append_blob t bytes h) = hub_operations h"
  "hub_operations (record_transfer_capacity h) = hub_operations h"
  "hub_operations (notify_all ws h) = hub_operations h"
  "hub_operations (notify_one w h) = hub_operations h"
  "hub_operations (notify_option n h) = hub_operations h"
  "hub_operations (report_all_progress bs h) = hub_operations h"
  "hub_operations (report_progress b h) = hub_operations h"
  "hub_operations (update_operation t f h) = bt_modify t f (hub_operations h)"
  by (simp_all add: update_resource_def release_reservation_def append_blob_def
      record_transfer_capacity_def notify_all_def notify_one_def notify_option_def
      report_all_progress_def report_progress_def update_operation_def Let_def
      split: option.splits)

lemma op_terminal_terminate [simp]: "op_terminal (terminate_slot r op) = Some r"
  by (simp add: terminate_slot_def Let_def)

text \<open>The ways a terminal result is taken.\<close>

lemma terminal_locked_cases:
  obtains (missing) "bt_get (hub_operations h) t = None" "terminal_locked t r h = (Inl Invalid, h)"
  | (kept) op where "bt_get (hub_operations h) t = Some op" "op_terminal op \<noteq> None"
      "terminal_locked t r h = (Inr None, h)"
  | (taken) op h' where "bt_get (hub_operations h) t = Some op"
      "op_terminal op = None \<or> ready_read op \<and> tr_terminal r \<noteq> T_Completed"
      "terminal_locked t r h = (Inr (Some t), h')"
      "hub_operations h' = bt_modify t (terminate_slot r) (hub_operations h)"
proof (cases "bt_get (hub_operations h) t")
  case None
  then show thesis by (intro missing) (simp_all add: terminal_locked_def)
next
  case (Some op)
  show thesis
  proof (cases "op_terminal op = None \<or> ready_read op \<and> tr_terminal r \<noteq> T_Completed")
    case True
    have "\<exists>h'. terminal_locked t r h = (Inr (Some t), h')
        \<and> hub_operations h' = bt_modify t (terminate_slot r) (hub_operations h)"
      using True Some by (auto simp: terminal_locked_def Let_def split: option.splits)
    with True Some show thesis using taken by blast
  next
    case False
    with Some show thesis by (intro kept [of op]) (auto simp: terminal_locked_def)
  qed
qed

lemma open_operations_terminal:
  "open_operations (snd (terminal_locked t r h)) \<le> open_operations h"
  by (cases rule: terminal_locked_cases [where t = t and r = r and h = h])
    (auto simp: open_operations_def intro!: bt_count_modify_le)

lemma terminal_locked_progress:
  assumes "bt_get (hub_operations h) t = Some op" "op_terminal op = None"
  shows "\<exists>h'. terminal_locked t r h = (Inr (Some t), h') \<and> open_operations h' < open_operations h"
proof (cases rule: terminal_locked_cases [where t = t and r = r and h = h])
  case (taken op' h')
  have "bt_count (\<lambda>op. op_terminal op = None) (bt_modify t (terminate_slot r) (hub_operations h))
      < bt_count (\<lambda>op. op_terminal op = None) (hub_operations h)"
    by (rule bt_count_modify_less [of _ _ _ _ op]) (use assms in simp_all)
  with taken show ?thesis by (simp add: open_operations_def)
qed (use assms in simp_all)

lemma finish_transfer_le: "open_operations (snd (finish_transfer t r ps h)) \<le> open_operations h"
  using open_operations_terminal [of t "\<lparr>tr_terminal = r, tr_resource = None\<rparr>" h]
  by (auto simp: finish_transfer_def s_bind_def s_return_def split: prod.splits sum.splits)

lemma finish_transfer_progress:
  "bt_get (hub_operations h) t = Some op \<Longrightarrow> op_terminal op = None \<Longrightarrow>
   \<exists>h'. finish_transfer t r ps h = (Inr ([t], ps), h') \<and> open_operations h' < open_operations h"
  using terminal_locked_progress [of h t op "\<lparr>tr_terminal = r, tr_resource = None\<rparr>"]
  by (auto simp: finish_transfer_def s_bind_def s_return_def)

lemma reserve_operations [simp]:
  "hub_operations (snd (reserve_blob_capacity c b n m x h)) = hub_operations h"
  by (auto simp: reserve_blob_capacity_def Let_def split: option.splits ResourceValue.splits)

lemma open_operations_congs [simp]:
  "open_operations (append_blob b bytes h) = open_operations h"
  "open_operations (update_resource b g h) = open_operations h"
  by (simp_all add: open_operations_def)

lemma complete_write_le: "open_operations (snd (complete_write t b bytes h)) \<le> open_operations h"
proof -
  let ?h = "append_blob b bytes (update_operation t (op_pending_blob_write_update (\<lambda>_. None)) h)"
  have le: "open_operations ?h \<le> open_operations h"
    by (auto intro: open_operations_update)
  then show ?thesis
    using finish_transfer_le [of t T_Completed "[b]" ?h]
    by (auto simp: complete_write_def Let_def split: option.splits)
qed

lemma complete_write_progress:
  assumes "bt_get (hub_operations h) t = Some op" "op_terminal op = None"
    "complete_write t b bytes h = (Inr r, h')"
  shows "open_operations h' < open_operations h"
proof -
  let ?h = "append_blob b bytes (update_operation t (op_pending_blob_write_update (\<lambda>_. None)) h)"
  have le: "open_operations ?h \<le> open_operations h"
    by (auto intro: open_operations_update)
  obtain h'' where h'': "finish_transfer t T_Completed [b] ?h = (Inr ([t], [b]), h'')"
    "open_operations h'' < open_operations ?h"
    using finish_transfer_progress [of ?h t "op\<lparr>op_pending_blob_write := None\<rparr>" T_Completed "[b]"]
      assms(1,2) by auto
  with le assms(3) show ?thesis
    by (auto simp: complete_write_def Let_def split: option.splits)
qed

text \<open>
  The contract a pass relies on: a turn never reopens an operation, and a turn on an open
  operation either leaves all operations as they are or completes one.
\<close>

locale transfer_pass =
  fixes turn :: "token \<Rightarrow> (token list \<times> token list) hub_result"
  assumes turn_le: "open_operations (snd (turn t h)) \<le> open_operations h"
    and turn_progress: "bt_get (hub_operations h) t = Some op \<Longrightarrow> op_terminal op = None \<Longrightarrow>
      turn t h = (Inr (ws, ps), h') \<Longrightarrow>
      ws = [] \<and> hub_operations h' = hub_operations h \<or> open_operations h' < open_operations h"
begin

lemma loop_le: "open_operations (snd (pass_loop turn ts h)) \<le> open_operations h"
proof (induction ts arbitrary: h)
  case Nil
  then show ?case by (simp add: s_return_def)
next
  case (Cons t ts)
  show ?case
  proof (cases "turn t h")
    case (Pair r h1)
    with turn_le [of t h] have "open_operations h1 \<le> open_operations h" by simp
    with Pair Cons.IH [of h1] show ?thesis
      by (auto simp: s_bind_def s_return_def split: sum.splits prod.splits)
  qed
qed

lemma loop_progress:
  assumes "\<forall>t\<in>set ts. \<exists>op. bt_get (hub_operations h) t = Some op \<and> op_terminal op = None"
    and "pass_loop turn ts h = (Inr (ws, ps), h')" and "ws \<noteq> []"
  shows "open_operations h' < open_operations h"
  using assms
proof (induction ts arbitrary: h ws ps)
  case Nil
  then show ?case by (simp add: s_return_def)
next
  case (Cons t ts)
  obtain op where op: "bt_get (hub_operations h) t = Some op" "op_terminal op = None"
    using Cons.prems(1) by auto
  obtain w1 p1 h1 w2 p2 where t: "turn t h = (Inr (w1, p1), h1)"
    and l: "pass_loop turn ts h1 = (Inr (w2, p2), h')" and w: "ws = w1 @ w2"
    using Cons.prems(2) by (auto simp: s_Inr_iffs split: prod.splits)
  from turn_progress [OF op t] show ?case
  proof
    assume "w1 = [] \<and> hub_operations h1 = hub_operations h"
    with Cons.IH [OF _ l] Cons.prems(1,3) w show ?thesis
      by (auto simp: open_operations_def)
  next
    assume "open_operations h1 < open_operations h"
    with loop_le [of ts h1] l show ?thesis by simp
  qed
qed

lemma pass_le: "open_operations (snd (run_pass turn P h)) \<le> open_operations h"
  using loop_le [of "select_operations P h" h]
  by (auto simp: run_pass_def s_bind_def open_operations_def split: prod.splits sum.splits)

lemma pass_progress:
  assumes "run_pass turn P h = (Inr True, h')" and P: "\<And>op. P op \<Longrightarrow> op_terminal op = None"
  shows "open_operations h' < open_operations h"
proof -
  obtain ws ps h1 where l: "pass_loop turn (select_operations P h) h = (Inr (ws, ps), h1)"
    and "ws \<noteq> []" and h': "hub_operations h' = hub_operations h1"
    using assms(1) by (auto simp: run_pass_def s_Inr_iffs split: prod.splits)
  moreover have "\<forall>t\<in>set (select_operations P h).
      \<exists>op. bt_get (hub_operations h) t = Some op \<and> op_terminal op = None"
    using P by (auto simp: select_operations_def split: option.splits)
  ultimately show ?thesis using loop_progress by (simp add: open_operations_def)
qed

end

lemma reserve_open:
  "reserve_blob_capacity c b n m x h = (r, h') \<Longrightarrow> hub_operations h' = hub_operations h"
  using reserve_operations [of c b n m x h] by simp

text \<open>The ways a turn of the write pass goes.\<close>

lemma write_turn_cases:
  obtains (failed) "write_turn c t h = (Inl Invalid, h)"
  | (skipped) h1 where "write_turn c t h = (Inr ([], []), h1)" "hub_operations h1 = hub_operations h"
  | (ended) r h1 where "write_turn c t h = finish_transfer t r [] h1"
      "hub_operations h1 = hub_operations h"
  | (written) b bytes h1 where "write_turn c t h = complete_write t b bytes h1"
      "hub_operations h1 = hub_operations h"
proof (cases "bt_get (hub_operations h) t")
  case None
  then show thesis by (intro failed) (simp add: write_turn_def)
next
  case (Some op)
  show thesis
  proof (cases "op_resource op \<noteq> None \<and> op_pending_blob_write op \<noteq> None")
    case False
    with Some show thesis
      by (intro failed) (auto simp: write_turn_def split: option.splits)
  next
    case True
    then obtain b bytes where ob: "op_resource op = Some b" "op_pending_blob_write op = Some bytes"
      by auto
    let ?t = "write_terminal c b (length bytes) h"
    let ?r = "reserve_blob_capacity c b (length bytes) (maximum_sketch_bytes (hc_blob_limits c))
      (transfer_maximum c) h"
    obtain x h1 where x: "?r = (x, h1)" by (cases ?r)
    consider "?t = None" | r where "?t = Some r" "r \<noteq> T_Completed"
      | e h1 where "?t = Some T_Completed" "?r = (Inl e, h1)" "e = Quota"
      | e h1 where "?t = Some T_Completed" "?r = (Inl e, h1)" "e \<noteq> Quota"
      | u h1 where "?t = Some T_Completed" "?r = (Inr u, h1)"
      using x by (metis option.exhaust sum.exhaust)
    then show thesis
    proof cases
      case 1
      with Some ob show ?thesis by (intro skipped [of h]) (simp_all add: write_turn_def)
    next
      case 2
      with Some ob show ?thesis by (intro ended [of r h]) (simp_all add: write_turn_def)
    next
      case 3
      with Some ob show ?thesis
        by (intro skipped [of h1]) (simp_all add: write_turn_def reserve_open)
    next
      case 4
      with Some ob show ?thesis
        by (intro ended [of T_Rejected h1]) (simp_all add: write_turn_def reserve_open)
    next
      case 5
      with Some ob show ?thesis
        by (intro written [of b bytes h1]) (simp_all add: write_turn_def reserve_open)
    qed
  qed
qed

lemma write_turn_le: "open_operations (snd (write_turn c t h)) \<le> open_operations h"
proof (cases rule: write_turn_cases [of c t h])
  case (ended r h1)
  with finish_transfer_le [of t r "[]" h1] show ?thesis by (simp add: open_operations_def)
next
  case (written b bytes h1)
  with complete_write_le [of t b bytes h1] show ?thesis by (simp add: open_operations_def)
qed (simp_all add: open_operations_def)

lemma write_turn_progress:
  assumes op: "bt_get (hub_operations h) t = Some op" "op_terminal op = None"
    and turn: "write_turn c t h = (Inr (ws, ps), h')"
  shows "ws = [] \<and> hub_operations h' = hub_operations h \<or> open_operations h' < open_operations h"
proof (cases rule: write_turn_cases [of c t h])
  case (ended r h1)
  with op turn finish_transfer_progress [of h1 t op r "[]"] show ?thesis
    by (auto simp: open_operations_def)
next
  case (written b bytes h1)
  with op turn complete_write_progress [of h1 t op b bytes "(ws, ps)" h'] show ?thesis
    by (auto simp: open_operations_def)
qed (use turn in auto)

interpretation write_pass: transfer_pass "write_turn c" for c
  by unfold_locales (rule write_turn_le, rule write_turn_progress)

text \<open>The ways a turn of the read pass goes.\<close>

lemma read_turn_cases:
  obtains (failed) "read_turn c t h = (Inl Invalid, h)"
      "\<And>op. bt_get (hub_operations h) t = Some op \<Longrightarrow> op_resource op = None \<or> op_pending_blob_read op = None"
  | (skipped) "read_turn c t h = (Inr ([], []), h)"
  | (read) op b d sealed maximum where "bt_get (hub_operations h) t = Some op"
      "op_resource op = Some b" "op_pending_blob_read op = Some maximum"
      "resource_value h b = Some (Blob d sealed)"
      "dq_bytes d \<noteq> [] \<or> sealed"
      "saturating_add (completed_read_bytes h) (min maximum (length (dq_bytes d)))
         \<le> maximum_sketch_bytes (hc_blob_limits c)"
      "saturating_add (transfer_capacity h) (min maximum (length (dq_bytes d)))
         \<le> maximum_transfer_bytes (hc_blob_limits c)"
      "read_turn c t h = finish_transfer t T_Completed [b]
         (read_out t b (min maximum (length (dq_bytes d)))
            (take (min maximum (length (dq_bytes d))) (dq_bytes d)) h)"
proof (cases "bt_get (hub_operations h) t")
  case None
  then show thesis by (intro failed) (simp_all add: read_turn_def)
next
  case (Some op)
  show thesis
  proof (cases "op_resource op \<noteq> None \<and> op_pending_blob_read op \<noteq> None")
    case False
    with Some show thesis
      by (intro failed) (auto simp: read_turn_def split: option.splits)
  next
    case True
    then obtain b n where ob: "op_resource op = Some b" "op_pending_blob_read op = Some n"
      by auto
    show thesis
    proof (cases "\<exists>d sealed. resource_value h b = Some (Blob d sealed)")
      case False
      with Some ob show thesis
        by (intro skipped) (auto simp: read_turn_def Let_def split: option.splits ResourceValue.splits)
    next
      case True
      then obtain d sealed where d: "resource_value h b = Some (Blob d sealed)"
        by blast
      let ?n = "min n (length (dq_bytes d))"
      consider "dq_bytes d = [] \<and> \<not> sealed
          \<or> maximum_sketch_bytes (hc_blob_limits c) < saturating_add (completed_read_bytes h) ?n
          \<or> maximum_transfer_bytes (hc_blob_limits c) < saturating_add (transfer_capacity h) ?n"
        | "dq_bytes d \<noteq> [] \<or> sealed"
          "saturating_add (completed_read_bytes h) ?n \<le> maximum_sketch_bytes (hc_blob_limits c)"
          "saturating_add (transfer_capacity h) ?n \<le> maximum_transfer_bytes (hc_blob_limits c)"
        by (meson not_le)
      then show thesis
      proof cases
        case 1
        with Some ob d show ?thesis
          by (intro skipped) (auto simp: read_turn_def Let_def)
      next
        case 2
        with Some ob d show ?thesis
          by (intro read [of op b n d sealed]) (auto simp: read_turn_def Let_def not_less)
      qed
    qed
  qed
qed

lemma open_operations_read_out [simp]:
  "open_operations (read_out t b n bytes h) \<le> open_operations h"
proof -
  let ?f = "op_blob_read_result_update (\<lambda>_. Some bytes)"
  have "open_operations (read_out t b n bytes h) = open_operations (update_operation t ?f h)"
    by (simp add: read_out_def open_operations_def Let_def)
  also have "\<dots> \<le> open_operations h" by (rule open_operations_update) simp
  finally show ?thesis .
qed

lemma hub_operations_read_out:
  "hub_operations (read_out t b n bytes h)
     = bt_modify t (op_blob_read_result_update (\<lambda>_. Some bytes)) (hub_operations h)"
  by (simp add: read_out_def Let_def)

lemma read_turn_le: "open_operations (snd (read_turn c t h)) \<le> open_operations h"
proof (cases rule: read_turn_cases [of c t h])
  case (read op b d sealed n)
  let ?h = "read_out t b (min n (length (dq_bytes d))) (take (min n (length (dq_bytes d))) (dq_bytes d)) h"
  have "open_operations (snd (read_turn c t h)) \<le> open_operations ?h"
    unfolding read by (rule finish_transfer_le)
  also have "\<dots> \<le> open_operations h" by simp
  finally show ?thesis .
qed simp_all

lemma read_turn_progress:
  assumes op: "bt_get (hub_operations h) t = Some op" "op_terminal op = None"
    and turn: "read_turn c t h = (Inr (ws, ps), h')"
  shows "ws = [] \<and> hub_operations h' = hub_operations h \<or> open_operations h' < open_operations h"
proof (cases rule: read_turn_cases [of c t h])
  case (read op' b d sealed n)
  let ?n = "min n (length (dq_bytes d))"
  let ?h = "read_out t b ?n (take ?n (dq_bytes d)) h"
  have "bt_get (hub_operations ?h) t = Some (op\<lparr>op_blob_read_result := Some (take ?n (dq_bytes d))\<rparr>)"
    using op by (simp add: hub_operations_read_out)
  from finish_transfer_progress [OF this, of T_Completed "[b]"] op(2) turn read(8)
  have "open_operations h' < open_operations ?h" by auto
  also have "\<dots> \<le> open_operations h" by simp
  finally show ?thesis by simp
qed (use turn in auto)

interpretation read_pass: transfer_pass "read_turn c" for c
  by unfold_locales (rule read_turn_le, rule read_turn_progress)

lemma drive_blob_write_pass_progress:
  assumes "drive_blob_write_pass c h = (Inr True, h')"
  shows "open_operations h' < open_operations h"
proof -
  obtain p h1 r where w: "write_section c h = (Inr p, h1)" and r: "drive_blob_read_pass c h1 = (Inr r, h')"
    and "r \<or> p"
    using assms by (auto simp: drive_blob_write_pass_def s_Inr_iffs)
  have "open_operations h1 \<le> open_operations h"
    using write_pass.pass_le [of c pending_write h] w by (simp add: write_section_def)
  moreover have "open_operations h' \<le> open_operations h1"
    using read_pass.pass_le [of c pending_read h1] r by (simp add: drive_blob_read_pass_def)
  moreover have "p \<Longrightarrow> open_operations h1 < open_operations h"
    using write_pass.pass_progress [of c pending_write h h1] w
    by (simp add: write_section_def pending_write_def)
  moreover have "r \<Longrightarrow> open_operations h' < open_operations h1"
    using read_pass.pass_progress [of c pending_read h1 h'] r
    by (simp add: drive_blob_read_pass_def pending_read_def)
  ultimately show ?thesis using \<open>r \<or> p\<close> by linarith
qed

text \<open>\<^verbatim>\<open>drive_blob_writes\<close>: alternate the passes until neither completes anything.\<close>

function drive_blob_writes :: "hub_config \<Rightarrow> unit hub_result" where
  "drive_blob_writes c h =
     (case drive_blob_write_pass c h of
        (Inl e, h') \<Rightarrow> (Inl e, h')
      | (Inr progressed, h') \<Rightarrow> if progressed then drive_blob_writes c h' else (Inr (), h'))"
  by pat_completeness auto

termination
  by (relation "measure (\<lambda>(c, h). open_operations h)")
    (auto dest: drive_blob_write_pass_progress [OF sym])

declare drive_blob_writes.simps [simp del]

end
