(* ===== verification/Hub_Transfer.thy ===== *)
theory Hub_Transfer
  imports Hub_Blob
begin

text \<open>
  The operation hub, part four: the methods on blobs. Each locked section of a method is a
  definition of its own, and the method runs its sections in the order of the code; between
  two sections other threads may run, which \<open>Hub_Machine\<close> makes explicit.
\<close>

section \<open>Closing a resource\<close>

definition close_resource_section :: "token \<Rightarrow> Terminal \<Rightarrow> unit hub_result" where
  "close_resource_section token t =
     s_bind (close_resource_with_terminal_locked token t)
       (\<lambda>notifications h. (Inr (), notify_all notifications h))"

definition close_resource_with_terminal :: "hub_config \<Rightarrow> token \<Rightarrow> Terminal \<Rightarrow> unit hub_result" where
  "close_resource_with_terminal c token t =
     s_bind (close_resource_section token t) (\<lambda>_. drive_blob_writes c)"

definition close_resource :: "hub_config \<Rightarrow> token \<Rightarrow> unit hub_result" where
  "close_resource c token = close_resource_with_terminal c token T_Closed"

definition revoke_external_resource :: "hub_config \<Rightarrow> token \<Rightarrow> Terminal \<Rightarrow> unit hub_result" where
  "revoke_external_resource c token t = close_resource_with_terminal c token t"

section \<open>Creating and sealing\<close>

definition create_blob :: "hub_config \<Rightarrow> store_id \<Rightarrow> token hub_result" where
  "create_blob c store =
     s_bind (create_resource_value c store BLOB_RESOURCE_KIND (BLOB_RIGHT_READ OR BLOB_RIGHT_WRITE)
               False (Blob vec_deque_new False)) (\<lambda>token.
       s_bind (publish_resource Invalid token) (\<lambda>_. s_return token))"

definition seal_slot :: "ResourceSlot \<Rightarrow> ResourceSlot" where
  "seal_slot r = (case rs_value r of Blob d _ \<Rightarrow> r\<lparr>rs_value := Blob d True\<rparr> | _ \<Rightarrow> r)"

definition seal_section :: "store_id \<Rightarrow> token \<Rightarrow> u8 \<Rightarrow> unit hub_result" where
  "seal_section store blob required_rights h =
     (case bt_get (hub_resources h) blob of
        None \<Rightarrow> (Inl Invalid, h)
      | Some resource \<Rightarrow>
          (case validate_resource resource store BLOB_RESOURCE_KIND required_rights of
             Inl e \<Rightarrow> (Inl e, h)
           | Inr _ \<Rightarrow>
               if is_blob (rs_value resource) then (Inr (), update_resource blob seal_slot h)
               else (Inl WrongKind, h)))"

definition seal_blob_checked :: "hub_config \<Rightarrow> store_id \<Rightarrow> token \<Rightarrow> u8 \<Rightarrow> unit hub_result" where
  "seal_blob_checked c store blob required_rights =
     s_bind (seal_section store blob required_rights) (\<lambda>_.
       s_bind (drive_blob_writes c) (\<lambda>_. drive_blob_reads c))"

definition seal_blob :: "hub_config \<Rightarrow> store_id \<Rightarrow> token \<Rightarrow> unit hub_result" where
  "seal_blob c store blob = seal_blob_checked c store blob BLOB_RIGHT_WRITE"

section \<open>Writing at once\<close>

definition check_blob_write :: "hub_config \<Rightarrow> store_id \<Rightarrow> token \<Rightarrow> nat \<Rightarrow> bool \<Rightarrow> hub \<Rightarrow> HubError + unit" where
  "check_blob_write c store blob count unpublished h =
     (if maximum_sketch_bytes (hc_blob_limits c)
           < saturating_add (hub_buffered_blob_bytes h) count then Inl Quota
      else and_then (ok_or Invalid (bt_get (hub_resources h) blob)) (\<lambda>resource.
        and_then
          (if unpublished
           then if \<not> rs_reserved resource then Inl WrongRights
                else validate_resource_owner resource store BLOB_RESOURCE_KIND BLOB_RIGHT_WRITE
           else validate_resource resource store BLOB_RESOURCE_KIND BLOB_RIGHT_WRITE) (\<lambda>_.
        case rs_value resource of
          Blob buffer sealed \<Rightarrow>
            if sealed then Inl Closed
            else if maximum_blob_bytes (hc_blob_limits c)
                      < saturating_add (length (dq_bytes buffer)) count then Inl Quota
            else Inr ()
        | _ \<Rightarrow> Inl WrongKind)))"

definition blob_write_section :: "hub_config \<Rightarrow> store_id \<Rightarrow> token \<Rightarrow> u8 list \<Rightarrow> bool \<Rightarrow> unit hub_result" where
  "blob_write_section c store blob bytes unpublished h =
     (case check_blob_write c store blob (length bytes) unpublished h of
        Inl e \<Rightarrow> (Inl e, h)
      | Inr _ \<Rightarrow>
          s_bind (reserve_blob_capacity c blob (length bytes)
                    (maximum_sketch_bytes (hc_blob_limits c)) (transfer_maximum c))
            (\<lambda>_ h. (Inr (), report_progress blob (append_blob blob bytes h))) h)"

definition blob_write_inner :: "hub_config \<Rightarrow> store_id \<Rightarrow> token \<Rightarrow> u8 list \<Rightarrow> bool \<Rightarrow> nat hub_result" where
  "blob_write_inner c store blob bytes unpublished =
     (if maximum_chunk_bytes (hc_blob_limits c) < length bytes then s_lift (Inl Quota)
      else s_bind (blob_write_section c store blob bytes unpublished) (\<lambda>_.
             s_bind (drive_blob_reads c) (\<lambda>_. s_return (length bytes))))"

definition blob_write :: "hub_config \<Rightarrow> store_id \<Rightarrow> token \<Rightarrow> u8 list \<Rightarrow> nat hub_result" where
  "blob_write c store blob bytes = blob_write_inner c store blob bytes False"

section \<open>Reading at once\<close>

record NativeBlobChunk =
  nc_bytes :: "u8 list"
  nc_progress :: token

text \<open>
  A native reader borrows the bytes; their allocation stays charged until the chunk is dropped.
\<close>

definition read_chunk_section :: "hub_config \<Rightarrow> store_id \<Rightarrow> token \<Rightarrow> nat \<Rightarrow> bool \<Rightarrow> NativeBlobChunk hub_result" where
  "read_chunk_section c store blob maximum_bytes committing h =
     (case bt_get (hub_resources h) blob of
        None \<Rightarrow> (Inl Invalid, h)
      | Some resource \<Rightarrow>
          if rs_committing resource \<noteq> committing then (Inl WrongRights, h)
          else case validate_resource resource store BLOB_RESOURCE_KIND BLOB_RIGHT_READ of
            Inl e \<Rightarrow> (Inl e, h)
          | Inr _ \<Rightarrow>
              (case rs_value resource of
                 Blob buffer _ \<Rightarrow>
                   let count = min maximum_bytes (length (dq_bytes buffer)) in
                   if maximum_transfer_bytes (hc_blob_limits c)
                        < saturating_add (transfer_capacity h) count then (Inl Quota, h)
                   else
                     (Inr \<lparr>nc_bytes = take count (dq_bytes buffer), nc_progress = blob\<rparr>,
                      (update_resource blob (drain_slot count) h)
                        \<lparr>hub_peak_retained_transfer_capacity :=
                           max (hub_peak_retained_transfer_capacity h)
                             (saturating_add (transfer_capacity h) count),
                         hub_buffered_blob_bytes :=
                           saturating_sub (hub_buffered_blob_bytes h) count,
                         hub_native_transfer_capacity := hub_native_transfer_capacity h + count\<rparr>)
               | _ \<Rightarrow> (Inl WrongKind, h)))"

definition release_chunk_section :: "NativeBlobChunk \<Rightarrow> hub \<Rightarrow> hub" where
  "release_chunk_section chunk h =
     (let h = h\<lparr>hub_native_transfer_capacity :=
                  saturating_sub (hub_native_transfer_capacity h) (length (nc_bytes chunk))\<rparr> in
      if nc_bytes chunk \<noteq> [] then report_progress (nc_progress chunk) h else h)"

definition drop_native_blob_chunk :: "hub_config \<Rightarrow> NativeBlobChunk \<Rightarrow> hub \<Rightarrow> hub" where
  "drop_native_blob_chunk c chunk h =
     s_ignore (drive_blob_reads c) (s_ignore (drive_blob_writes c) (release_chunk_section chunk h))"

definition read_blob_chunk :: "hub_config \<Rightarrow> store_id \<Rightarrow> token \<Rightarrow> nat \<Rightarrow> bool \<Rightarrow> NativeBlobChunk hub_result" where
  "read_blob_chunk c store blob maximum_bytes committing =
     (if maximum_chunk_bytes (hc_blob_limits c) < maximum_bytes then s_lift (Inl Quota)
      else s_bind (read_chunk_section c store blob maximum_bytes committing) (\<lambda>chunk.
             s_catch (drive_blob_writes c)
               (\<lambda>e h. (Inl e, drop_native_blob_chunk c chunk h))
               (\<lambda>_. s_return chunk)))"

section \<open>Capacity-awaited writes\<close>

definition pending_write_bytes :: "hub \<Rightarrow> nat" where
  "pending_write_bytes h = bt_total (\<lambda>op. option_length (op_pending_blob_write op)) (hub_operations h)"

definition pending_write_count :: "hub \<Rightarrow> nat" where
  "pending_write_count h = bt_count (\<lambda>op. op_pending_blob_write op \<noteq> None) (hub_operations h)"

definition pending_read_count :: "hub \<Rightarrow> nat" where
  "pending_read_count h = bt_count (\<lambda>op. op_pending_blob_read op \<noteq> None) (hub_operations h)"

definition queue_write_section :: "hub_config \<Rightarrow> token \<Rightarrow> nat \<Rightarrow> u8 list \<Rightarrow> unit hub_result" where
  "queue_write_section c operation count copy h =
     (if maximum_pending_writes (hc_blob_limits c) \<le> pending_write_count h
         \<or> maximum_sketch_bytes (hc_blob_limits c) < saturating_add (pending_write_bytes h) count
         \<or> transfer_maximum c < saturating_add (transfer_capacity h) count
      then (Inl Quota, remove_operation operation h)
      else case bt_get (hub_operations h) operation of
          None \<Rightarrow> (Inl Invalid, h)
        | Some slot \<Rightarrow>
            let h = update_operation operation (op_is_blob_write_update (\<lambda>_. True)) h in
            (Inr (),
             if op_terminal slot = None
             then record_transfer_capacity
               (update_operation operation (op_pending_blob_write_update (\<lambda>_. Some copy)) h)
             else h))"

definition submit_blob_write_checked :: "hub_config \<Rightarrow> store_id \<Rightarrow> token \<Rightarrow> nat \<Rightarrow> u8 \<Rightarrow> u8 list \<Rightarrow> token hub_result" where
  "submit_blob_write_checked c store blob count required_rights copy =
     (if maximum_chunk_bytes (hc_blob_limits c) < count then s_lift (Inl Quota)
      else s_bind (submit c store (Some blob) BLOB_RESOURCE_KIND required_rights) (\<lambda>operation.
             s_bind (queue_write_section c operation count copy) (\<lambda>_.
               s_bind (drive_blob_writes c) (\<lambda>_. s_return operation))))"

definition submit_blob_write_from :: "hub_config \<Rightarrow> store_id \<Rightarrow> token \<Rightarrow> nat \<Rightarrow> u8 list \<Rightarrow> token hub_result" where
  "submit_blob_write_from c store blob count copy =
     submit_blob_write_checked c store blob count BLOB_RIGHT_WRITE copy"

definition submit_blob_write :: "hub_config \<Rightarrow> store_id \<Rightarrow> token \<Rightarrow> u8 list \<Rightarrow> token hub_result" where
  "submit_blob_write c store blob bytes = submit_blob_write_from c store blob (length bytes) bytes"

section \<open>Reads that wait for data\<close>

definition queue_read_section :: "hub_config \<Rightarrow> token \<Rightarrow> nat \<Rightarrow> unit hub_result" where
  "queue_read_section c token maximum h =
     (if maximum_pending_reads (hc_blob_limits c) \<le> pending_read_count h
      then (Inl Quota, remove_operation token h)
      else case bt_get (hub_operations h) token of
          None \<Rightarrow> (Inl Invalid, h)
        | Some operation \<Rightarrow>
            (Inr (), update_operation token (\<lambda>op.
               (if op_terminal op = None then op\<lparr>op_pending_blob_read := Some maximum\<rparr> else op)
                 \<lparr>op_is_blob_read := True\<rparr>) h))"

definition submit_blob_read :: "hub_config \<Rightarrow> store_id \<Rightarrow> token \<Rightarrow> nat \<Rightarrow> token hub_result" where
  "submit_blob_read c store blob maximum =
     (if maximum = 0 \<or> maximum_chunk_bytes (hc_blob_limits c) < maximum then s_lift (Inl Quota)
      else s_bind (submit c store (Some blob) BLOB_RESOURCE_KIND BLOB_RIGHT_READ) (\<lambda>token.
             s_bind (queue_read_section c token maximum) (\<lambda>_.
               s_bind (drive_blob_reads c) (\<lambda>_.
                 s_bind (drive_blob_writes c) (\<lambda>_. s_return token)))))"

text \<open>
  The result of a collection: the packed status word and, when the operation completed, the
  bytes handed to the copy into guest memory. \<open>None\<close> is a read that is still pending.
\<close>

definition collect_section :: "store_id \<Rightarrow> token \<Rightarrow> nat \<Rightarrow> (u64 \<times> u8 list option) option hub_result" where
  "collect_section store token capacity h =
     (if hub_closed h then (Inl Closed, h)
      else case bt_get (hub_operations h) token of
        None \<Rightarrow> (Inl Invalid, h)
      | Some operation \<Rightarrow>
          if op_store operation \<noteq> store then (Inl Stale, h)
          else if \<not> op_is_blob_read operation then (Inl WrongKind, h)
          else case op_terminal operation of
            None \<Rightarrow> (Inr None, h)
          | Some result \<Rightarrow>
              let bytes = (case op_blob_read_result operation of None \<Rightarrow> [] | Some bs \<Rightarrow> bs) in
              if capacity < length bytes then (Inl Quota, h)
              else
                (Inr (Some (push_bit 8 (of_nat (length bytes)) OR ucast (status (tr_terminal result)),
                            if tr_terminal result = T_Completed then Some bytes else None)),
                 (remove_operation token h)
                   \<lparr>hub_resumes := saturating_add (hub_resumes h) 1\<rparr>))"

definition collect_blob_read_wire :: "hub_config \<Rightarrow> store_id \<Rightarrow> token \<Rightarrow> nat \<Rightarrow> (u64 \<times> u8 list option) hub_result" where
  "collect_blob_read_wire c store token capacity =
     s_bind (collect_section store token capacity) (\<lambda>collected.
       case collected of
         None \<Rightarrow> s_return (0, None)
       | Some packed \<Rightarrow>
           s_bind (drive_blob_writes c) (\<lambda>_.
             s_bind (drive_blob_reads c) (\<lambda>_. s_return packed)))"

section \<open>Abandoning\<close>

definition abandon_transfer_section :: "store_id \<Rightarrow> token \<Rightarrow> unit hub_result" where
  "abandon_transfer_section store token h =
     (case bt_get (hub_operations h) token of
        None \<Rightarrow> (Inl Invalid, h)
      | Some operation \<Rightarrow>
          if op_store operation \<noteq> store then (Inl Stale, h)
          else if \<not> op_is_blob_read operation \<and> \<not> op_is_blob_write operation
            then (Inl WrongKind, h)
          else
            let h = remove_operation token h;
                h = (if op_producer_cancel operation
                     then h\<lparr>hub_log := hub_log h @ [ProducerCancelled token]\<rparr> else h) in
            (Inr (), notify_one token h))"

definition abandon_transfer_wire :: "hub_config \<Rightarrow> store_id \<Rightarrow> token \<Rightarrow> unit hub_result" where
  "abandon_transfer_wire c store token =
     s_bind (abandon_transfer_section store token) (\<lambda>_.
       s_bind (drive_blob_writes c) (\<lambda>_. drive_blob_reads c))"

definition abandon_blob_section :: "store_id \<Rightarrow> token \<Rightarrow> unit hub_result" where
  "abandon_blob_section store token h =
     (case bt_get (hub_resources h) token of
        None \<Rightarrow> (Inl Invalid, h)
      | Some resource \<Rightarrow>
          if rs_store resource \<noteq> store then (Inl WrongRights, h)
          else if id_kind (rs_identity resource) \<noteq> BLOB_RESOURCE_KIND then (Inl WrongKind, h)
          else close_resource_section token T_Closed h)"

definition abandon_blob_wire :: "hub_config \<Rightarrow> store_id \<Rightarrow> token \<Rightarrow> unit hub_result" where
  "abandon_blob_wire c store token =
     s_bind (abandon_blob_section store token) (\<lambda>_. drive_blob_writes c)"

end
