(* ===== verification/Hub_Wire.thy ===== *)
theory Hub_Wire
  imports Hub_Transfer
begin

text \<open>
  The operation hub, part five: suspending and completing guest operations, the closed request
  type and its dispatcher, the webview operations, clocks, and the scalar adapters the
  generated imports call (\<^verbatim>\<open>submit_wire\<close>, \<^verbatim>\<open>poll_wire\<close>,
  \<^verbatim>\<open>suspend_stream_wire\<close>, \<^verbatim>\<open>cancel_wire\<close>).
\<close>

section \<open>Suspension\<close>

text \<open>
  What the first section of \<^verbatim>\<open>suspend\<close> leaves to do: nothing when the result is
  already there, otherwise the completion that was held back until the guest parked.
\<close>

definition suspend_section :: "token \<Rightarrow> store_id \<Rightarrow> DeferredCompletion option hub_result" where
  "suspend_section token store h =
     (case bt_get (hub_operations h) token of
        None \<Rightarrow> (Inl Invalid, h)
      | Some operation \<Rightarrow>
          if op_store operation \<noteq> store then (Inl Stale, h)
          else if op_terminal operation \<noteq> None
            then (Inr None,
                  notify_one token (h\<lparr>hub_suspends := saturating_add (hub_suspends h) 1\<rparr>))
          else
            (Inr (op_deferred_completion operation),
             (update_operation token
                (\<lambda>op. op\<lparr>op_suspended := True, op_deferred_completion := None\<rparr>) h)
               \<lparr>hub_suspends := saturating_add (hub_suspends h) 1\<rparr>))"

definition finish_deferred_section :: "token \<Rightarrow> DeferredCompletion \<Rightarrow> bool hub_result" where
  "finish_deferred_section token deferred h =
     (case bt_get (hub_operations h) token of
        None \<Rightarrow> (Inl Invalid, h)
      | Some operation \<Rightarrow>
          if op_terminal operation \<noteq> None then (Inr False, h)
          else
            s_bind (case dc_revoke deferred of
                      None \<Rightarrow> s_return []
                    | Some resource \<Rightarrow> close_resource_with_terminal_locked resource T_Closed)
              (\<lambda>notifications.
                s_bind (terminal_locked token (dc_result deferred)) (\<lambda>notify h.
                  (Inr True, notify_all
                     (notifications @ (case notify of None \<Rightarrow> [] | Some n \<Rightarrow> [n])) h))) h)"

definition finish_deferred_completion :: "hub_config \<Rightarrow> token \<Rightarrow> DeferredCompletion \<Rightarrow> unit hub_result" where
  "finish_deferred_completion c token deferred =
     s_bind (finish_deferred_section token deferred) (\<lambda>finished.
       if finished then drive_blob_writes c else s_return ())"

definition suspend :: "hub_config \<Rightarrow> token \<Rightarrow> store_id \<Rightarrow> unit hub_result" where
  "suspend c token store =
     s_bind (suspend_section token store) (\<lambda>deferred.
       case deferred of
         None \<Rightarrow> s_return ()
       | Some d \<Rightarrow> finish_deferred_completion c token d)"

definition suspend_wire :: "hub_config \<Rightarrow> store_id \<Rightarrow> token \<Rightarrow> unit hub_result" where
  "suspend_wire c store operation = suspend c operation store"

definition wait_external_operation :: "hub_config \<Rightarrow> store_id \<Rightarrow> token \<Rightarrow> unit hub_result" where
  "wait_external_operation c store operation = suspend c operation store"

text \<open>The job of a dispatched request: held back until the guest has parked.\<close>

definition complete_section :: "token \<Rightarrow> DeferredCompletion \<Rightarrow> bool hub_result" where
  "complete_section token deferred h =
     (case bt_get (hub_operations h) token of
        None \<Rightarrow> (Inl Invalid, h)
      | Some operation \<Rightarrow>
          if op_terminal operation \<noteq> None then (Inr False, h)
          else if \<not> op_suspended operation
            then (Inr False, update_operation token
                    (op_deferred_completion_update (\<lambda>_. Some deferred)) h)
          else (Inr True, h))"

definition complete_after_suspend :: "hub_config \<Rightarrow> token \<Rightarrow> TerminalResult \<Rightarrow> token option \<Rightarrow> unit hub_result" where
  "complete_after_suspend c token result revoke =
     (let deferred = \<lparr>dc_result = result, dc_revoke = revoke\<rparr> in
      s_bind (complete_section token deferred) (\<lambda>ready.
        if ready then finish_deferred_completion c token deferred else s_return ()))"

section \<open>Requests\<close>

datatype Request =
    BlobCreate
  | SyntheticYield
  | SyntheticCreate u8 u8 bool
  | SyntheticUse token u8 u8
  | CloseRequest token

text \<open>The plan of a request: borrowed resource, created resource, revocation, kind, rights.\<close>

definition prepare_request :: "hub_config \<Rightarrow> store_id \<Rightarrow> Request \<Rightarrow>
    (token option \<times> token option \<times> token option \<times> u8 \<times> u8) hub_result" where
  "prepare_request c store request =
     (case request of
        BlobCreate \<Rightarrow>
          s_bind (create_resource_value c store BLOB_RESOURCE_KIND
                    (BLOB_RIGHT_READ OR BLOB_RIGHT_WRITE) False (Blob vec_deque_new False))
            (\<lambda>resource. s_return (None, Some resource, None, BLOB_RESOURCE_KIND,
                          BLOB_RIGHT_READ OR BLOB_RIGHT_WRITE))
      | SyntheticYield \<Rightarrow> s_return (None, None, None, 0, 0)
      | SyntheticCreate kind rights shareable \<Rightarrow>
          s_bind (create_resource c store kind rights shareable)
            (\<lambda>resource. s_return (None, Some resource, None, kind, rights))
      | SyntheticUse resource kind rights \<Rightarrow> s_return (Some resource, None, None, kind, rights)
      | CloseRequest resource \<Rightarrow>
          s_bind (validate_close store resource)
            (\<lambda>_. s_return (None, None, Some resource, 0, 0)))"

text \<open>Submit an operation for a reserved resource, giving the reservation back when refused.\<close>

definition submit_or_close :: "hub_config \<Rightarrow> store_id \<Rightarrow> token option \<Rightarrow> u8 \<Rightarrow> u8 \<Rightarrow> token option \<Rightarrow> token hub_result" where
  "submit_or_close c store borrowed kind rights created =
     s_catch (submit c store borrowed kind rights)
       (\<lambda>e h. (Inl e, case created of None \<Rightarrow> h | Some r \<Rightarrow> s_ignore (close_resource c r) h))
       s_return"

definition dispatch :: "hub_config \<Rightarrow> store_id \<Rightarrow> Request \<Rightarrow> token hub_result" where
  "dispatch c store request =
     s_bind (prepare_request c store request) (\<lambda>(borrowed, created, close_after, kind, rights).
       s_bind (submit_or_close c store borrowed kind rights created) (\<lambda>operation.
         s_bind (case created of
                   None \<Rightarrow> s_return ()
                 | Some resource \<Rightarrow> attach_created_resource operation resource) (\<lambda>_ h.
           (Inr operation,
            launch_job (CompleteAfterSuspend operation
                      \<lparr>tr_terminal = T_Completed, tr_resource = created\<rparr> close_after) h))))"

section \<open>Webviews\<close>

definition EXTERNAL_WEBVIEW_RIGHTS :: u8 where
  "EXTERNAL_WEBVIEW_RIGHTS =
     EXTERNAL_WEBVIEW_RIGHT_LOAD OR EXTERNAL_WEBVIEW_RIGHT_CAPTURE
       OR EXTERNAL_WEBVIEW_RIGHT_WINDOW OR EXTERNAL_WEBVIEW_RIGHT_NAVIGATE"

definition begin_external_webview_open :: "hub_config \<Rightarrow> store_id \<Rightarrow> (token \<times> token) hub_result" where
  "begin_external_webview_open c store =
     s_bind (create_resource_value c store EXTERNAL_WEBVIEW_RESOURCE_KIND EXTERNAL_WEBVIEW_RIGHTS
               False ExternalWebview) (\<lambda>resource.
       s_bind (submit_or_close c store None 0 0 (Some resource)) (\<lambda>operation.
         s_bind (attach_created_resource operation resource) (\<lambda>_.
           s_return (resource, operation))))"

definition grant_webview_url :: "hub_config \<Rightarrow> store_id \<Rightarrow> utf8_string \<Rightarrow> token hub_result" where
  "grant_webview_url c store url =
     (if url = [] \<or> MAX_WEBVIEW_URL_BYTES < length url then s_lift (Inl Quota)
      else s_bind (create_resource_value c store WEBVIEW_URL_RESOURCE_KIND WEBVIEW_URL_RIGHT_OPEN
                     False (WebviewUrl url)) (\<lambda>resource.
             s_bind (publish_resource Closed resource) (\<lambda>_. s_return resource)))"

definition granted_url :: "store_id \<Rightarrow> token \<Rightarrow> utf8_string hub_result" where
  "granted_url store grant h =
     (case bt_get (hub_resources h) grant of
        None \<Rightarrow> Inl Invalid
      | Some slot \<Rightarrow>
          and_then (validate_resource slot store WEBVIEW_URL_RESOURCE_KIND WEBVIEW_URL_RIGHT_OPEN)
            (\<lambda>_. case rs_value slot of WebviewUrl url \<Rightarrow> Inr url | _ \<Rightarrow> Inl WrongKind), h)"

definition begin_granted_webview_open :: "hub_config \<Rightarrow> store_id \<Rightarrow> token \<Rightarrow>
    (token \<times> token \<times> utf8_string) hub_result" where
  "begin_granted_webview_open c store grant =
     s_bind (granted_url store grant) (\<lambda>url.
       s_bind (create_resource_value c store EXTERNAL_WEBVIEW_RESOURCE_KIND
                 EXTERNAL_WEBVIEW_RIGHTS False ExternalWebview) (\<lambda>resource.
         s_bind (submit_or_close c store (Some grant) WEBVIEW_URL_RESOURCE_KIND
                   WEBVIEW_URL_RIGHT_OPEN (Some resource)) (\<lambda>operation.
           s_bind (attach_created_resource operation resource) (\<lambda>_.
             s_return (resource, operation, url)))))"

text \<open>A handle that was revoked a short while ago is reported as closed, not as malformed.\<close>

definition begin_external_webview_operation :: "hub_config \<Rightarrow> store_id \<Rightarrow> token \<Rightarrow> u8 \<Rightarrow> token hub_result" where
  "begin_external_webview_operation c store resource required_rights =
     s_catch (submit c store (Some resource) EXTERNAL_WEBVIEW_RESOURCE_KIND required_rights)
       (\<lambda>e h. (Inl (if e = Invalid \<and> resource_was_closed resource h then Closed else e), h))
       s_return"

definition begin_external_webview_wait :: "hub_config \<Rightarrow> store_id \<Rightarrow> token \<Rightarrow> token hub_result" where
  "begin_external_webview_wait c store resource =
     begin_external_webview_operation c store resource EXTERNAL_WEBVIEW_RIGHT_LOAD"

definition begin_external_webview_capture :: "hub_config \<Rightarrow> store_id \<Rightarrow> token \<Rightarrow> token hub_result" where
  "begin_external_webview_capture c store resource =
     begin_external_webview_operation c store resource EXTERNAL_WEBVIEW_RIGHT_CAPTURE"

definition begin_external_webview_window :: "hub_config \<Rightarrow> store_id \<Rightarrow> token \<Rightarrow> token hub_result" where
  "begin_external_webview_window c store resource =
     begin_external_webview_operation c store resource EXTERNAL_WEBVIEW_RIGHT_WINDOW"

definition begin_external_webview_navigate :: "hub_config \<Rightarrow> store_id \<Rightarrow> token \<Rightarrow> token hub_result" where
  "begin_external_webview_navigate c store resource =
     begin_external_webview_operation c store resource EXTERNAL_WEBVIEW_RIGHT_NAVIGATE"

definition begin_external_webview_close :: "hub_config \<Rightarrow> store_id \<Rightarrow> token \<Rightarrow> token hub_result" where
  "begin_external_webview_close c store resource =
     s_bind (validate_close store resource) (\<lambda>_.
       submit c store (Some resource) EXTERNAL_WEBVIEW_RESOURCE_KIND 0)"

definition finish_external_operation :: "hub_config \<Rightarrow> token \<Rightarrow> Terminal \<Rightarrow> hub \<Rightarrow> hub" where
  "finish_external_operation c operation t h =
     s_ignore (drive_blob_reads c)
       (s_ignore (drive_blob_writes c)
         (s_ignore (terminal operation \<lparr>tr_terminal = t, tr_resource = None\<rparr>) h))"

section \<open>Clocks\<close>

definition acquire_clock :: "hub_config \<Rightarrow> unit hub_result" where
  "acquire_clock c h =
     (if hub_clock_count h < hc_maximum_operations c
      then (Inr (), h\<lparr>hub_clock_count := hub_clock_count h + 1\<rparr>)
      else (Inl Quota, h))"

definition drop_clock_lease :: "hub \<Rightarrow> hub" where
  "drop_clock_lease h = h\<lparr>hub_clock_count := hub_clock_count h - 1\<rparr>"

definition submit_clock_sleep :: "hub_config \<Rightarrow> store_id \<Rightarrow> nat \<Rightarrow> token hub_result" where
  "submit_clock_sleep c store milliseconds =
     s_bind (acquire_clock c) (\<lambda>_.
       s_catch (submit c store None 0 0)
         (\<lambda>e h. (Inl e, drop_clock_lease h))
         (\<lambda>operation.
           s_catch (bind_producer_cancellation store operation)
             (\<lambda>e h. (Inl e, drop_clock_lease h))
             (\<lambda>_ h. (Inr operation, launch_job (ClockSleep operation milliseconds) h))))"

text \<open>The timer job: it completes the operation unless it was cancelled first.\<close>

definition clock_sleep_job :: "token \<Rightarrow> bool \<Rightarrow> hub \<Rightarrow> hub" where
  "clock_sleep_job operation elapsed h =
     drop_clock_lease
       (if elapsed
        then s_ignore (terminal operation \<lparr>tr_terminal = T_Completed, tr_resource = None\<rparr>) h
        else h)"

section \<open>The scalar adapters\<close>

definition u64_max :: nat where
  "u64_max = 2 ^ 64 - 1"

definition wire_rights :: "nat \<Rightarrow> HubError + u8" where
  "wire_rights arg = (if arg \<le> 255 then Inr (of_nat arg) else Inl WrongRights)"

definition wire_request :: "nat \<Rightarrow> nat \<Rightarrow> nat \<Rightarrow> HubError + Request" where
  "wire_request kind arg0 arg1 =
     (if kind = OP_BLOB_CREATE \<and> arg0 = 0 \<and> arg1 = 0 then Inr BlobCreate
      else if kind = OP_SYNTHETIC_YIELD then Inr SyntheticYield
      else if kind = OP_SYNTHETIC_RESOURCE_CREATE then
        and_then (wire_rights arg1) (\<lambda>rights.
          if arg0 = 0 then Inr (SyntheticCreate SYNTHETIC_RESOURCE_KIND rights False)
          else if arg0 = 1 then Inr (SyntheticCreate SYNTHETIC_RESOURCE_KIND rights True)
          else Inl Invalid)
      else if kind = OP_SYNTHETIC_RESOURCE_USE then
        and_then (wire_rights arg1) (\<lambda>rights.
          Inr (SyntheticUse arg0 SYNTHETIC_RESOURCE_KIND rights))
      else if kind = OP_SYNTHETIC_RESOURCE_CLOSE then Inr (CloseRequest arg0)
      else Inl Invalid)"

definition seal_wire :: "hub_config \<Rightarrow> store_id \<Rightarrow> token \<Rightarrow> token hub_result" where
  "seal_wire c store blob =
     s_bind (submit c store (Some blob) BLOB_RESOURCE_KIND BLOB_RIGHT_WRITE) (\<lambda>operation.
       s_bind (s_catch (seal_blob c store blob)
                 (\<lambda>_. s_return T_Rejected) (\<lambda>_. s_return T_Completed)) (\<lambda>t.
         s_bind (terminal operation \<lparr>tr_terminal = t, tr_resource = None\<rparr>) (\<lambda>_.
           s_return operation)))"

section \<open>Polling\<close>

definition poll_wire :: "store_id \<Rightarrow> token \<Rightarrow> hub \<Rightarrow> u64 \<times> hub" where
  "poll_wire store operation h =
     (if (case bt_get (hub_operations h) operation of None \<Rightarrow> False | Some op \<Rightarrow> op_is_blob_read op)
      then (pack STATUS_ERROR None, h)
      else case take_terminal operation store h of
             (Inr None, h) \<Rightarrow> (pack STATUS_PENDING None, h)
           | (Inr (Some result), h) \<Rightarrow> (pack (status (tr_terminal result)) (tr_resource result), h)
           | (Inl _, h) \<Rightarrow> (pack STATUS_ERROR None, h))"

section \<open>Idle budgets\<close>

definition arm_idle_section :: "store_id \<Rightarrow> token \<Rightarrow> token option hub_result" where
  "arm_idle_section store token h =
     (case bt_get (hub_operations h) token of
        None \<Rightarrow> (Inl Invalid, h)
      | Some operation \<Rightarrow>
          if \<not> (op_store operation = store \<and> op_terminal operation = None
                 \<and> (op_is_blob_read operation \<or> op_is_blob_write operation)
                 \<and> \<not> op_progress_timeout_cancel operation)
          then (Inr None, h)
          else (case op_resource operation of
                  None \<Rightarrow> (Inl Invalid, h)
                | Some resource \<Rightarrow>
                    (case bt_get (hub_resources h) resource of
                       None \<Rightarrow> (Inl Invalid, h)
                     | Some _ \<Rightarrow>
                         (Inr (Some resource),
                          update_operation token
                            (op_progress_timeout_cancel_update (\<lambda>_. True)) h))))"

definition suspend_stream_wire :: "hub_config \<Rightarrow> store_id \<Rightarrow> token \<Rightarrow> unit hub_result" where
  "suspend_stream_wire c store operation =
     s_bind (suspend c operation store) (\<lambda>_.
       s_bind (arm_idle_section store operation) (\<lambda>armed h.
         (Inr (), case armed of
                    None \<Rightarrow> h
                  | Some resource \<Rightarrow>
                      launch_job (IdleTimeout operation resource)
                        (h\<lparr>hub_log := hub_log h @ [IdleWindowRestarted resource]\<rparr>))))"

text \<open>The idle timer: a stalled transfer times out; a cancelled timer does nothing.\<close>

definition idle_timeout_job :: "token \<Rightarrow> bool \<Rightarrow> hub \<Rightarrow> hub" where
  "idle_timeout_job operation stalled h =
     (if stalled
      then s_ignore (terminal operation \<lparr>tr_terminal = T_TimedOut, tr_resource = None\<rparr>) h
      else h)"

section \<open>Draining clocks and output jobs\<close>

text \<open>
  \<^verbatim>\<open>join_output_jobs\<close>: only after the hub was closed; the tasks are taken and awaited,
  so each has ended. Any that failed, or a lease dropped by a panic, is an error.
\<close>

definition take_output_jobs :: "tracked_jobs hub_result" where
  "take_output_jobs h =
     (if \<not> hub_closed h then (Inl WrongRights, h)
      else (Inr (hub_output_jobs h), h\<lparr>hub_output_jobs := []\<rparr>))"

definition joined_output_jobs :: "bool list \<Rightarrow> unit hub_result" where
  "joined_output_jobs ended h =
     (if list_ex Not ended \<or> hub_output_job_failed h then (Inl Closed, h) else (Inr (), h))"

section \<open>Snapshots\<close>

record HubSnapshot =
  hs_scope :: nat
  hs_pending_operations :: nat
  hs_live_resources :: nat
  hs_live_blobs :: nat
  hs_pending_blob_reads :: nat
  hs_pending_blob_writes :: nat
  hs_suspends :: nat
  hs_resumes :: nat
  hs_buffered_blob_bytes :: nat
  hs_peak_buffered_blob_bytes :: nat
  hs_pending_write_bytes :: nat
  hs_completed_read_bytes :: nat
  hs_retained_transfer_capacity :: nat
  hs_peak_retained_transfer_capacity :: nat
  hs_native_transfer_capacity :: nat
  hs_reserved_process_output_bytes :: nat
  hs_reserved_native_process_output_bytes :: nat
  hs_active_output_jobs :: nat
  hs_retained_process_jobs :: nat
  hs_active_native_captures :: nat
  hs_active_native_opens :: nat
  hs_active_clocks :: nat

definition saturating_mul :: "nat \<Rightarrow> nat \<Rightarrow> nat" where
  "saturating_mul a b = min (a * b) usize_max"

definition snapshot :: "hub_config \<Rightarrow> hub \<Rightarrow> HubSnapshot" where
  "snapshot c h =
     \<lparr>hs_scope = hc_scope c,
      hs_pending_operations = open_operations h,
      hs_live_resources = length (hub_resources h),
      hs_live_blobs = live_blobs h,
      hs_pending_blob_reads = pending_read_count h,
      hs_pending_blob_writes = pending_write_count h,
      hs_suspends = hub_suspends h,
      hs_resumes = hub_resumes h,
      hs_buffered_blob_bytes = hub_buffered_blob_bytes h,
      hs_peak_buffered_blob_bytes = hub_peak_buffered_blob_bytes h,
      hs_pending_write_bytes = pending_write_bytes h,
      hs_completed_read_bytes = completed_read_bytes h,
      hs_retained_transfer_capacity = transfer_capacity h,
      hs_peak_retained_transfer_capacity = hub_peak_retained_transfer_capacity h,
      hs_native_transfer_capacity = hub_native_transfer_capacity h,
      hs_reserved_process_output_bytes =
        saturating_add (hub_reserved_process_output_bytes h)
          (saturating_mul (bt_count (\<lambda>op. op_compiler_output op \<noteq> None) (hub_operations h))
             MAX_PROCESS_OUTPUT_CHUNK),
      hs_reserved_native_process_output_bytes = hub_reserved_native_process_output_bytes h,
      hs_active_output_jobs = hub_output_job_count h,
      hs_retained_process_jobs = length (hub_process_jobs h) + length (hub_process_io_jobs h),
      hs_active_native_captures = hub_native_capture_count h,
      hs_active_native_opens = hub_native_open_count h,
      hs_active_clocks = hub_clock_count h\<rparr>"

end
