(* ===== verification/Hub_Process.thy ===== *)
theory Hub_Process
  imports Hub_Wire
begin

text \<open>
  The operation hub, part six: compiler processes (\<^verbatim>\<open>process_resource.rs\<close>,
  \<^verbatim>\<open>process_output.rs\<close>, \<^verbatim>\<open>process_output_wire.rs\<close> and
  \<^verbatim>\<open>process_scalar.rs\<close>). A grant holds one command; using it reserves an
  operation, a process resource and an allowance for native output buffers, and launches a
  supervisor that publishes the session, waits for revocation or the deadline, and reaps the
  child. Output is read one event at a time against a reserved 64 KiB, exits and cleanup are
  observed by jobs of their own. What the operating system answers (whether a spawn succeeds,
  what a pipe yields, whether a deadline passed) are arguments.
\<close>

definition GRANT_KIND :: u8 where "GRANT_KIND = 10"
definition PROCESS_KIND :: u8 where "PROCESS_KIND = 11"
definition PROCESS_RIGHT :: u8 where "PROCESS_RIGHT = 1"
definition MAX_PROCESS_JOBS :: nat where "MAX_PROCESS_JOBS = 4"
definition MAX_PROCESS_OUTPUT_BYTES :: nat where "MAX_PROCESS_OUTPUT_BYTES = 64 * 1024 * 1024"
definition NATIVE_PROCESS_OUTPUT_ALLOWANCE :: nat where
  "NATIVE_PROCESS_OUTPUT_ALLOWANCE = 7 * MAX_PROCESS_OUTPUT_CHUNK"

section \<open>Grants\<close>

text \<open>\<^verbatim>\<open>Path::is_absolute\<close> on Unix.\<close>

definition is_absolute :: "u8 list \<Rightarrow> bool" where
  "is_absolute p \<longleftrightarrow> p \<noteq> [] \<and> hd p = 0x2F"

definition grant_allowed :: "SpawnSpec \<Rightarrow> duration \<Rightarrow> bool" where
  "grant_allowed spec deadline \<longleftrightarrow>
     is_absolute (sp_program spec)
     \<and> (case sp_current_dir spec of None \<Rightarrow> False | Some dir \<Rightarrow> is_absolute dir)
     \<and> sp_clear_env spec
     \<and> (case sp_lifetime_owner spec of None \<Rightarrow> True | Some owner \<Rightarrow> owner = Spawner)
     \<and> deadline \<noteq> 0 \<and> deadline \<le> 300 * 1000000000"

definition compiler_spec :: "SpawnSpec \<Rightarrow> SpawnSpec" where
  "compiler_spec spec =
     spec\<lparr>sp_stdin := Null, sp_stdout := Piped, sp_stderr := Piped,
          sp_lifetime_owner := Some Spawner\<rparr>"

definition grant_compiler_with_cache :: "hub_config \<Rightarrow> store_id \<Rightarrow> SpawnSpec \<Rightarrow> duration \<Rightarrow>
    (u8 list \<times> bool) option \<Rightarrow> token hub_result" where
  "grant_compiler_with_cache c store spec deadline cache =
     (if \<not> grant_allowed spec deadline then s_lift (Inl Invalid)
      else s_bind (create_resource_value_locked c store GRANT_KIND PROCESS_RIGHT False
                     (CompilerGrant \<lparr>cg_spec = Some (compiler_spec spec), cg_deadline = deadline,
                        cg_cache = cache\<rparr>)) (\<lambda>token.
             s_bind (publish_resource Closed token) (\<lambda>_. s_return token)))"

definition grant_compiler :: "hub_config \<Rightarrow> store_id \<Rightarrow> SpawnSpec \<Rightarrow> duration \<Rightarrow> token hub_result" where
  "grant_compiler c store spec deadline = grant_compiler_with_cache c store spec deadline None"

definition compiler_cache_status :: "store_id \<Rightarrow> token \<Rightarrow> u8 list \<Rightarrow> bool hub_result" where
  "compiler_cache_status store grant key h =
     (case bt_get (hub_resources h) grant of
        None \<Rightarrow> Inl Invalid
      | Some slot \<Rightarrow>
          and_then (validate_resource slot store GRANT_KIND PROCESS_RIGHT) (\<lambda>_.
            case rs_value slot of
              CompilerGrant g \<Rightarrow>
                (case cg_cache g of
                   None \<Rightarrow> Inl Invalid
                 | Some (expected, hit) \<Rightarrow> if key \<noteq> expected then Inl Invalid else Inr hit)
            | _ \<Rightarrow> Inl Invalid), h)"

section \<open>Tracked jobs\<close>

text \<open>
  \<^verbatim>\<open>poll_process_jobs\<close>: tasks that ended are forgotten; one that ended badly is
  remembered in the failure flag.
\<close>

definition still_running :: "tracked_jobs \<Rightarrow> tracked_jobs" where
  "still_running jobs = filter (\<lambda>(_, st). st = Running) jobs"

definition some_failed :: "tracked_jobs \<Rightarrow> bool" where
  "some_failed jobs \<longleftrightarrow> list_ex (\<lambda>(_, st). st = Ended False) jobs"

definition poll_process_jobs :: "hub \<Rightarrow> hub" where
  "poll_process_jobs h =
     h\<lparr>hub_process_jobs := still_running (hub_process_jobs h),
       hub_process_io_jobs := still_running (hub_process_io_jobs h),
       hub_process_job_failed := (hub_process_job_failed h
         \<or> some_failed (hub_process_jobs h) \<or> some_failed (hub_process_io_jobs h))\<rparr>"

text \<open>The runtime ends a task.\<close>

definition end_task :: "token \<Rightarrow> bool \<Rightarrow> tracked_jobs \<Rightarrow> tracked_jobs" where
  "end_task t ok jobs = map (\<lambda>(k, st). (k, if k = t \<and> st = Running then Ended ok else st)) jobs"

text \<open>One poll of \<^verbatim>\<open>join_process_jobs\<close>; \<open>None\<close> is \<^verbatim>\<open>Poll::Pending\<close>.\<close>

definition join_process_jobs_poll :: "hub \<Rightarrow> (HubError + unit) option \<times> hub" where
  "join_process_jobs_poll h =
     (if \<not> hub_closed h then (Some (Inl WrongRights), h)
      else let h = poll_process_jobs h in
        if hub_process_jobs h \<noteq> [] \<or> hub_process_io_jobs h \<noteq> [] then (None, h)
        else (Some (if hub_process_job_failed h then Inl Closed else Inr ()), h))"

section \<open>Starting a compiler\<close>

text \<open>The state of the cleanup observation; only the first result counts.\<close>

definition finish_cleanup :: "token \<Rightarrow> bool \<Rightarrow> hub \<Rightarrow> hub" where
  "finish_cleanup process ok h =
     h\<lparr>hub_cleanups := bt_modify process
         (\<lambda>r. if r = Cleanup_Pending then (if ok then Cleanup_Done else Cleanup_Failed) else r)
         (hub_cleanups h)\<rparr>"

definition check_compiler_spawn :: "hub_config \<Rightarrow> store_id \<Rightarrow> token \<Rightarrow> hub \<Rightarrow> HubError + unit" where
  "check_compiler_spawn c store grant h =
     (if hub_process_job_failed h then Inl Closed
      else if min MAX_PROCESS_JOBS (hc_maximum_resources c) \<le> length (hub_process_jobs h)
        then Inl Quota
      else and_then (ok_or Invalid (bt_get (hub_resources h) grant)) (\<lambda>slot.
        and_then (validate_resource slot store GRANT_KIND PROCESS_RIGHT) (\<lambda>_.
          if \<not> (case rs_value slot of CompilerGrant g \<Rightarrow> cg_spec g \<noteq> None | _ \<Rightarrow> False)
            then Inl Closed
          else if maximum_sketch_bytes (hc_blob_limits c)
                    < saturating_add (transfer_capacity h) NATIVE_PROCESS_OUTPUT_ALLOWANCE
            then Inl Quota
          else Inr ())))"

definition take_grant_spec :: "ResourceSlot \<Rightarrow> ResourceSlot" where
  "take_grant_spec r =
     (case rs_value r of
        CompilerGrant g \<Rightarrow> r\<lparr>rs_value := CompilerGrant (g\<lparr>cg_spec := None\<rparr>)\<rparr>
      | _ \<Rightarrow> r)"

definition consume_grant :: "token \<Rightarrow> (SpawnSpec \<times> duration) hub_result" where
  "consume_grant grant h =
     (case bt_get (hub_resources h) grant of
        None \<Rightarrow> (Inl Closed, h)
      | Some slot \<Rightarrow>
          (case rs_value slot of
             CompilerGrant g \<Rightarrow>
               (case cg_spec g of
                  None \<Rightarrow> (Inl Closed, h)
                | Some spec \<Rightarrow>
                    (Inr (spec, cg_deadline g), update_resource grant take_grant_spec h))
           | _ \<Rightarrow> (Inl WrongKind, h)))"

definition new_compiler_process :: ResourceValue where
  "new_compiler_process =
     CompilerProcess \<lparr>cp_session = None, cp_output_busy = False, cp_output_bytes = 0,
       cp_output_limit = MAX_PROCESS_OUTPUT_BYTES\<rparr>"

definition reserve_native_output :: "token \<Rightarrow> token \<Rightarrow> hub \<Rightarrow> hub" where
  "reserve_native_output operation process h =
     (let h = update_operation operation
                (\<lambda>op. op\<lparr>op_created_resource := Some process, op_is_compiler_spawn := True\<rparr>) h;
          h = h\<lparr>hub_reserved_native_process_output_bytes :=
                  hub_reserved_native_process_output_bytes h + NATIVE_PROCESS_OUTPUT_ALLOWANCE,
                hub_cleanups := bt_insert process Cleanup_Pending (hub_cleanups h)\<rparr> in
      record_transfer_capacity h)"

definition start_supervisor :: "token \<Rightarrow> token \<Rightarrow> SpawnSpec \<Rightarrow> duration \<Rightarrow> hub \<Rightarrow> hub" where
  "start_supervisor operation process spec deadline h =
     launch_job (SuperviseCompiler spec operation process deadline)
       (h\<lparr>hub_process_jobs := hub_process_jobs h @ [(operation, Running)]\<rparr>)"

definition submit_compiler_spawn :: "hub_config \<Rightarrow> store_id \<Rightarrow> token \<Rightarrow> token hub_result" where
  "submit_compiler_spawn c store grant h =
     (if hub_closed h then (Inl Closed, h)
      else
        let h = poll_process_jobs h in
        case check_compiler_spawn c store grant h of
          Inl e \<Rightarrow> (Inl e, h)
        | Inr _ \<Rightarrow>
            s_bind (submit_locked c store (Some grant) GRANT_KIND PROCESS_RIGHT) (\<lambda>operation.
              s_catch (create_resource_value_locked c store PROCESS_KIND PROCESS_RIGHT False
                         new_compiler_process)
                (\<lambda>e h. (Inl e, remove_operation operation h))
                (\<lambda>process h.
                  s_bind (consume_grant grant) (\<lambda>(spec, deadline) h.
                    (Inr operation, start_supervisor operation process spec deadline h))
                    (reserve_native_output operation process h))) h)"

section \<open>The supervisor\<close>

definition set_session :: "nat \<Rightarrow> ResourceSlot \<Rightarrow> ResourceSlot" where
  "set_session session r =
     (case rs_value r of
        CompilerProcess p \<Rightarrow> r\<lparr>rs_value := CompilerProcess (p\<lparr>cp_session := Some session\<rparr>)\<rparr>
      | _ \<Rightarrow> r)"

definition publish_compiler :: "token \<Rightarrow> token \<Rightarrow> nat \<Rightarrow> unit hub_result" where
  "publish_compiler operation process session h =
     (if hub_closed h
         \<or> (case bt_get (hub_operations h) operation of
              None \<Rightarrow> True | Some op \<Rightarrow> op_terminal op \<noteq> None)
      then (Inl Closed, h)
      else case bt_get (hub_resources h) process of
        None \<Rightarrow> (Inl Closed, h)
      | Some slot \<Rightarrow>
          (case rs_value slot of
             CompilerProcess _ \<Rightarrow>
               s_bind (terminal_locked operation
                         \<lparr>tr_terminal = T_Completed, tr_resource = Some process\<rparr>)
                 (\<lambda>notify h. (Inr (), notify_option notify h))
                 (update_resource process (set_session session) h)
           | _ \<Rightarrow> (Inl WrongKind, h)))"

text \<open>What the host answers to a supervisor.\<close>

record compiler_run =
  cr_cancelled :: bool
  cr_late :: bool
  cr_session :: "nat option"
  cr_late_after_spawn :: bool
  cr_deadline_reached :: bool
  cr_reaped :: bool

definition supervise_compiler :: "hub_config \<Rightarrow> compiler_run \<Rightarrow> token \<Rightarrow> token \<Rightarrow> unit hub_result" where
  "supervise_compiler c run operation process h =
     (let stop = (\<lambda>t. s_ignore (terminal operation \<lparr>tr_terminal = t, tr_resource = None\<rparr>)) in
      if cr_cancelled run then (Inr (), h)
      else if cr_late run then (Inr (), stop T_TimedOut h)
      else case cr_session run of
        None \<Rightarrow> (Inl Closed, stop T_Rejected h)
      | Some session \<Rightarrow>
          (case (if cr_late_after_spawn run then (Inl Closed, stop T_TimedOut h)
                 else publish_compiler operation process session h) of
             (published, h) \<Rightarrow>
               let h = (if published = Inr () \<and> cr_deadline_reached run
                        then s_ignore (revoke_external_resource c process T_TimedOut) h else h) in
               (if cr_reaped run then Inr () else Inl Closed, h)))"

definition release_native_section :: "unit hub_result" where
  "release_native_section h =
     (if NATIVE_PROCESS_OUTPUT_ALLOWANCE \<le> hub_reserved_native_process_output_bytes h
      then (Inr (), h\<lparr>hub_reserved_native_process_output_bytes :=
              hub_reserved_native_process_output_bytes h - NATIVE_PROCESS_OUTPUT_ALLOWANCE\<rparr>)
      else (Inl Closed, h))"

definition release_native_process_output :: "hub_config \<Rightarrow> unit hub_result" where
  "release_native_process_output c =
     s_bind release_native_section (\<lambda>_ h.
       (Inr (), s_ignore (drive_blob_reads c) (s_ignore (drive_blob_writes c) h)))"

text \<open>The whole job: the allowance is given back only after a clean reaping.\<close>

definition supervisor_job :: "hub_config \<Rightarrow> compiler_run \<Rightarrow> token \<Rightarrow> token \<Rightarrow> unit hub_result" where
  "supervisor_job c run operation process h =
     (case s_bind (supervise_compiler c run operation process)
             (\<lambda>_. release_native_process_output c) h of
        (result, h) \<Rightarrow> (result, finish_cleanup process (result = Inr ()) h))"

definition abandon_compiler_spawn :: "store_id \<Rightarrow> token \<Rightarrow> unit hub_result" where
  "abandon_compiler_spawn store operation h =
     (case bt_get (hub_operations h) operation of
        None \<Rightarrow> (Inl Invalid, h)
      | Some op \<Rightarrow>
          if op_store op \<noteq> store then (Inl Stale, h)
          else if \<not> op_is_compiler_spawn op then (Inl WrongKind, h)
          else case op_created_resource op of
            None \<Rightarrow> (Inl WrongKind, h)
          | Some process \<Rightarrow>
              s_bind (\<lambda>h. if bt_get (hub_resources h) process \<noteq> None
                          then close_resource_with_terminal_locked process T_Closed h
                          else (Inr [], h))
                (\<lambda>notifications h. (Inr (), notify_all (operation # notifications) h))
                (remove_operation operation h))"

section \<open>Closing and waiting\<close>

definition check_process :: "store_id \<Rightarrow> token \<Rightarrow> hub \<Rightarrow> HubError + CompilerProcess" where
  "check_process store process h =
     and_then (ok_or Closed (bt_get (hub_resources h) process)) (\<lambda>slot.
       and_then (validate_resource slot store PROCESS_KIND PROCESS_RIGHT) (\<lambda>_.
         case rs_value slot of CompilerProcess p \<Rightarrow> Inr p | _ \<Rightarrow> Inl WrongKind))"

definition close_compiler :: "store_id \<Rightarrow> token \<Rightarrow> token hub_result" where
  "close_compiler store process h =
     (case check_process store process h of
        Inl e \<Rightarrow> (Inl e, h)
      | Inr _ \<Rightarrow> s_bind (close_resource_section process T_Closed) (\<lambda>_. s_return process) h)"

text \<open>
  \<^verbatim>\<open>wait_compiler\<close>: the first section picks the session, the last one refuses the
  exit of a process that was revoked meanwhile.
\<close>

definition wait_compiler_session :: "store_id \<Rightarrow> token \<Rightarrow> hub \<Rightarrow> HubError + nat" where
  "wait_compiler_session store process h =
     and_then (check_process store process h) (\<lambda>p. ok_or Closed (cp_session p))"

definition wait_compiler_result :: "store_id \<Rightarrow> token \<Rightarrow> ProcessSessionExit option \<Rightarrow> hub \<Rightarrow>
    HubError + ProcessSessionExit" where
  "wait_compiler_result store process exit h =
     (case exit of
        None \<Rightarrow> Inl Closed
      | Some result \<Rightarrow>
          and_then (ok_or Closed (bt_get (hub_resources h) process)) (\<lambda>slot.
            and_then (validate_resource slot store PROCESS_KIND PROCESS_RIGHT) (\<lambda>_. Inr result)))"

definition admit_compiler_scalar :: "hub_config \<Rightarrow> unit hub_result" where
  "admit_compiler_scalar c h =
     (if hub_closed h then (Inl Closed, h)
      else let h = poll_process_jobs h in
        if hub_process_job_failed h then (Inl Closed, h)
        else if hc_maximum_operations c \<le> length (hub_process_io_jobs h) then (Inl Quota, h)
        else (Inr (), h))"

definition track_io_job :: "hub_job \<Rightarrow> token \<Rightarrow> hub \<Rightarrow> hub" where
  "track_io_job job operation h =
     launch_job job (h\<lparr>hub_process_io_jobs := hub_process_io_jobs h @ [(operation, Running)]\<rparr>)"

definition submit_compiler_wait :: "hub_config \<Rightarrow> store_id \<Rightarrow> token \<Rightarrow> token hub_result" where
  "submit_compiler_wait c store process =
     s_bind (admit_compiler_scalar c) (\<lambda>_.
       s_bind (submit_locked c store (Some process) PROCESS_KIND PROCESS_RIGHT) (\<lambda>operation h.
         (Inr operation,
          track_io_job (ObserveExit store operation process) operation
            (update_operation operation
               (\<lambda>op. op\<lparr>op_compiler_scalar := Some Wait, op_producer_cancel := True\<rparr>) h))))"

definition submit_compiler_close :: "hub_config \<Rightarrow> store_id \<Rightarrow> token \<Rightarrow> token hub_result" where
  "submit_compiler_close c store process =
     s_bind (admit_compiler_scalar c) (\<lambda>_.
       s_bind (\<lambda>h. (check_process store process h, h)) (\<lambda>_.
         s_bind (submit_locked c store None PROCESS_KIND PROCESS_RIGHT) (\<lambda>operation.
           s_bind (\<lambda>h. close_resource_with_terminal_locked process T_Closed
                     (update_operation operation
                        (\<lambda>op. op\<lparr>op_compiler_scalar := Some Close, op_producer_cancel := True\<rparr>) h))
             (\<lambda>notifications h.
               (Inr operation,
                notify_all notifications
                  (track_io_job (ObserveCleanup operation process) operation h))))))"

text \<open>The observer of an exit; a cancelled observer reports nothing itself.\<close>

definition drop_scalar_producer :: "token \<Rightarrow> hub \<Rightarrow> hub" where
  "drop_scalar_producer operation h =
     (case bt_get (hub_operations h) operation of
        None \<Rightarrow> h
      | Some slot \<Rightarrow>
          if op_terminal slot \<noteq> None then h
          else s_ignore (terminal operation \<lparr>tr_terminal = T_Closed, tr_resource = None\<rparr>) h)"

definition report_exit :: "token \<Rightarrow> HubError + ProcessSessionExit \<Rightarrow> hub \<Rightarrow> hub" where
  "report_exit operation result h =
     (case bt_get (hub_operations h) operation of
        None \<Rightarrow> h
      | Some slot \<Rightarrow>
          if op_terminal slot \<noteq> None then h
          else
            let exit = (case result of Inl _ \<Rightarrow> None | Inr e \<Rightarrow> Some e);
                h = update_operation operation (op_compiler_exit_update (\<lambda>_. exit)) h in
            s_ignore (terminal operation
              \<lparr>tr_terminal = (if exit \<noteq> None then T_Completed else T_Closed),
               tr_resource = None\<rparr>) h)"

definition observe_exit_job :: "store_id \<Rightarrow> token \<Rightarrow> token \<Rightarrow> ProcessSessionExit option option \<Rightarrow> hub \<Rightarrow> hub" where
  "observe_exit_job store operation process answer h =
     drop_scalar_producer operation
       (case answer of
          None \<Rightarrow> h
        | Some exit \<Rightarrow> report_exit operation (wait_compiler_result store process exit h) h)"

definition observe_cleanup_job :: "token \<Rightarrow> bool option \<Rightarrow> hub \<Rightarrow> hub" where
  "observe_cleanup_job operation answer h =
     drop_scalar_producer operation
       (case answer of
          None \<Rightarrow> h
        | Some ok \<Rightarrow>
            s_ignore (terminal operation
              \<lparr>tr_terminal = (if ok then T_Completed else T_Closed), tr_resource = None\<rparr>) h)"

definition exit_payload :: "ProcessSessionExit \<Rightarrow> u64" where
  "exit_payload e =
     (case exit_code e of None \<Rightarrow> 0 | Some code \<Rightarrow> ucast code)
     OR (if exit_code e \<noteq> None then push_bit 32 1 else 0)
     OR (if exit_code e = Some 0 then push_bit 33 1 else 0)"

definition collect_compiler_wait :: "store_id \<Rightarrow> token \<Rightarrow> u64 hub_result" where
  "collect_compiler_wait store token h =
     (case bt_get (hub_operations h) token of
        None \<Rightarrow> (Inl Invalid, h)
      | Some slot \<Rightarrow>
          if op_store slot \<noteq> store then (Inl Stale, h)
          else if op_compiler_scalar slot \<noteq> Some Wait then (Inl WrongKind, h)
          else case op_terminal slot of
            None \<Rightarrow> (Inr 0, h)
          | Some result \<Rightarrow>
              (case (if tr_terminal result = T_Completed
                     then and_then (ok_or WrongKind (op_resource slot)) (\<lambda>t.
                            and_then (ok_or Closed (bt_get (hub_resources h) t)) (\<lambda>resource.
                              and_then (validate_resource resource store PROCESS_KIND PROCESS_RIGHT)
                                (\<lambda>_. and_then (ok_or Closed (op_compiler_exit slot))
                                  (\<lambda>e. Inr (exit_payload e)))))
                     else Inr 0) of
                 Inl e \<Rightarrow> (Inl e, h)
               | Inr payload \<Rightarrow>
                   (Inr (push_bit 8 payload OR ucast (status (tr_terminal result))),
                    (remove_operation token h)
                      \<lparr>hub_resumes := saturating_add (hub_resumes h) 1\<rparr>)))"

definition abandon_compiler_scalar :: "store_id \<Rightarrow> token \<Rightarrow> bool \<Rightarrow> unit hub_result" where
  "abandon_compiler_scalar store token close h =
     (case bt_get (hub_operations h) token of
        None \<Rightarrow> (Inl Invalid, h)
      | Some slot \<Rightarrow>
          if op_store slot \<noteq> store then (Inl Stale, h)
          else if op_compiler_scalar slot \<noteq> Some (if close then Close else Wait)
            then (Inl WrongKind, h)
          else
            let h = remove_operation token h;
                h = (if op_producer_cancel slot
                     then h\<lparr>hub_log := hub_log h @ [ProducerCancelled token]\<rparr> else h) in
            (Inr (), notify_one token h))"

definition abandon_compiler_resource :: "store_id \<Rightarrow> token \<Rightarrow> bool \<Rightarrow> unit hub_result" where
  "abandon_compiler_resource store token grant h =
     (case and_then (ok_or Closed (bt_get (hub_resources h) token)) (\<lambda>slot.
             validate_resource slot store (if grant then GRANT_KIND else PROCESS_KIND)
               PROCESS_RIGHT) of
        Inl e \<Rightarrow> (Inl e, h)
      | Inr _ \<Rightarrow> close_resource_section token T_Closed h)"

end
