(* ===== verification/Hub_Output_Event.thy ===== *)
theory Hub_Output_Event
  imports Hub_Process
begin

text \<open>
  Reading the output of a compiler (\<^verbatim>\<open>process_output.rs\<close>,
  \<^verbatim>\<open>process_output_wire.rs\<close>). A read is a lease: it reserves 64 KiB of transfer
  capacity, marks the process as busy and owns the operation. It either hands its event to a
  native consumer, moves event and charge into the operation for a guest to collect, or, when
  it is dropped unfinished, revokes the process, since bytes may already have been taken from
  the pipe.
\<close>

datatype CompilerOutputError = Admission HubError | TerminalError Terminal

datatype OutputLeaseDisposition = Native | WirePending | Transferred

record CompilerOutputRead =
  cor_process :: token
  cor_operation :: token
  cor_session :: nat
  cor_completed :: bool
  cor_disposition :: OutputLeaseDisposition

definition set_output_busy :: "bool \<Rightarrow> ResourceSlot \<Rightarrow> ResourceSlot" where
  "set_output_busy busy r =
     (case rs_value r of
        CompilerProcess p \<Rightarrow> r\<lparr>rs_value := CompilerProcess (p\<lparr>cp_output_busy := busy\<rparr>)\<rparr>
      | _ \<Rightarrow> r)"

section \<open>Leases\<close>

definition check_output_read :: "hub_config \<Rightarrow> store_id \<Rightarrow> token \<Rightarrow> hub \<Rightarrow> HubError + nat" where
  "check_output_read c store process h =
     and_then (check_process store process h) (\<lambda>p.
       if cp_output_busy p then Inl Quota
       else and_then (ok_or Closed (cp_session p)) (\<lambda>session.
         if maximum_sketch_bytes (hc_blob_limits c)
              < saturating_add (transfer_capacity h) MAX_PROCESS_OUTPUT_CHUNK
         then Inl Quota else Inr session))"

definition reserve_output :: "token \<Rightarrow> token \<Rightarrow> hub \<Rightarrow> hub" where
  "reserve_output operation process h =
     (let h = update_operation operation (op_producer_cancel_update (\<lambda>_. True)) h;
          h = update_resource process (set_output_busy True) h;
          h = h\<lparr>hub_reserved_process_output_bytes :=
                  hub_reserved_process_output_bytes h + MAX_PROCESS_OUTPUT_CHUNK\<rparr> in
      record_transfer_capacity h)"

definition begin_compiler_output_locked :: "hub_config \<Rightarrow> store_id \<Rightarrow> token \<Rightarrow> CompilerOutputRead hub_result" where
  "begin_compiler_output_locked c store process h =
     (case check_output_read c store process h of
        Inl e \<Rightarrow> (Inl e, h)
      | Inr session \<Rightarrow>
          s_bind (submit_locked c store (Some process) PROCESS_KIND PROCESS_RIGHT) (\<lambda>operation h.
            (Inr \<lparr>cor_process = process, cor_operation = operation, cor_session = session,
                  cor_completed = False, cor_disposition = Native\<rparr>,
             reserve_output operation process h)) h)"

definition begin_compiler_output :: "hub_config \<Rightarrow> store_id \<Rightarrow> token \<Rightarrow> CompilerOutputRead hub_result" where
  "begin_compiler_output = begin_compiler_output_locked"

definition submit_compiler_output :: "hub_config \<Rightarrow> store_id \<Rightarrow> token \<Rightarrow> CompilerOutputRead hub_result" where
  "submit_compiler_output c store process =
     s_bind (admit_compiler_scalar c) (\<lambda>_.
       s_bind (begin_compiler_output_locked c store process) (\<lambda>read h.
         (Inr (read\<lparr>cor_disposition := WirePending\<rparr>),
          track_io_job (ReceiveOutput (cor_operation read) process) (cor_operation read)
            (update_operation (cor_operation read) (op_is_compiler_read_update (\<lambda>_. True)) h))))"

text \<open>
  Dropping a lease. Under the mutex a native read removes its operation, a wire read ends it;
  the process is free again, or revoked when the read did not complete; the charge is returned.
\<close>

definition drop_output_section :: "CompilerOutputRead \<Rightarrow> hub \<Rightarrow> hub" where
  "drop_output_section lease h =
     (let removed = (cor_disposition lease = Native
                     \<and> bt_get (hub_operations h) (cor_operation lease) \<noteq> None);
          h = (if cor_disposition lease = Native then remove_operation (cor_operation lease) h
               else s_ignore (terminal (cor_operation lease)
                      \<lparr>tr_terminal = T_Closed, tr_resource = None\<rparr>) h);
          h = update_resource (cor_process lease) (set_output_busy False) h in
      case (if \<not> cor_completed lease \<and> bt_get (hub_resources h) (cor_process lease) \<noteq> None
            then close_resource_with_terminal_locked (cor_process lease) T_Closed h
            else (Inr [], h)) of
        (r, h) \<Rightarrow>
          let notifications = (case r of Inl _ \<Rightarrow> [] | Inr ns \<Rightarrow> ns);
              h = h\<lparr>hub_reserved_process_output_bytes :=
                      saturating_sub (hub_reserved_process_output_bytes h)
                        MAX_PROCESS_OUTPUT_CHUNK\<rparr> in
          notify_all ((if removed then [cor_operation lease] else []) @ notifications) h)"

definition drop_compiler_output_read :: "hub_config \<Rightarrow> CompilerOutputRead \<Rightarrow> hub \<Rightarrow> hub" where
  "drop_compiler_output_read c lease h =
     (if cor_disposition lease = Transferred then h
      else s_ignore (drive_blob_reads c)
             (s_ignore (drive_blob_writes c) (drop_output_section lease h)))"

section \<open>Receiving\<close>

definition count_output :: "nat \<Rightarrow> ResourceSlot \<Rightarrow> ResourceSlot" where
  "count_output n r =
     (case rs_value r of
        CompilerProcess p \<Rightarrow>
          r\<lparr>rs_value := CompilerProcess (p\<lparr>cp_output_bytes := cp_output_bytes p + n\<rparr>)\<rparr>
      | _ \<Rightarrow> r)"

fun chunk_bytes :: "ProcessOutputChunk \<Rightarrow> byte_vec" where
  "chunk_bytes (Stdout bytes) = bytes"
| "chunk_bytes (Stderr bytes) = bytes"

definition cancelled_read_error :: "CompilerOutputRead \<Rightarrow> hub \<Rightarrow> CompilerOutputError" where
  "cancelled_read_error lease h =
     (case Option.bind (bt_get (hub_operations h) (cor_operation lease)) op_terminal of
        None \<Rightarrow> Admission Closed
      | Some result \<Rightarrow> TerminalError (tr_terminal result))"

text \<open>The check of a received event: it still has a reader, and it fits the output budget.\<close>

definition admit_event :: "CompilerOutputRead \<Rightarrow> ProcessOutputEvent option \<Rightarrow> hub \<Rightarrow>
    (CompilerOutputError + ProcessOutputEvent option) \<times> hub" where
  "admit_event lease event h =
     (case bt_get (hub_operations h) (cor_operation lease) of
        None \<Rightarrow> (Inl (Admission Closed), h)
      | Some operation \<Rightarrow>
          (case op_terminal operation of
             Some result \<Rightarrow> (Inl (TerminalError (tr_terminal result)), h)
           | None \<Rightarrow>
               (case resource_value h (cor_process lease) of
                  None \<Rightarrow> (Inl (Admission Closed), h)
                | Some (CompilerProcess p) \<Rightarrow>
                    (case event of
                       Some (Chunk chunk) \<Rightarrow>
                         if MAX_PROCESS_OUTPUT_CHUNK < vec_capacity (chunk_bytes chunk)
                         then (Inl (Admission Quota), h)
                         else (case checked_add (cp_output_bytes p) (length (vec_bytes (chunk_bytes chunk))) of
                                 None \<Rightarrow> (Inl (Admission Quota), h)
                               | Some t \<Rightarrow>
                                   if cp_output_limit p < t then (Inl (Admission Quota), h)
                                   else (Inr event,
                                         update_resource (cor_process lease)
                                           (count_output (length (vec_bytes (chunk_bytes chunk)))) h))
                     | _ \<Rightarrow> (Inr event, h))
                | Some _ \<Rightarrow> (Inl (Admission WrongKind), h))))"

text \<open>\<^verbatim>\<open>receive_event\<close>: \<open>None\<close> is a cancelled wait for the session.\<close>

definition receive_event :: "CompilerOutputRead \<Rightarrow> ProcessOutputEvent option option \<Rightarrow> hub \<Rightarrow>
    (CompilerOutputError + ProcessOutputEvent option) \<times> hub" where
  "receive_event lease answer h =
     (case answer of
        None \<Rightarrow> (Inl (cancelled_read_error lease h), h)
      | Some event \<Rightarrow> admit_event lease event h)"

text \<open>A native consumer takes the event while the authority still holds.\<close>

definition collect_output_section :: "CompilerOutputRead \<Rightarrow> hub \<Rightarrow>
    (CompilerOutputError + CompilerOutputRead) \<times> hub" where
  "collect_output_section lease h =
     (case bt_get (hub_operations h) (cor_operation lease) of
        None \<Rightarrow> (Inl (Admission Closed), h)
      | Some operation \<Rightarrow>
          (case op_terminal operation of
             Some result \<Rightarrow> (Inl (TerminalError (tr_terminal result)), h)
           | None \<Rightarrow>
               if bt_get (hub_resources h) (cor_process lease) = None
               then (Inl (Admission Closed), h)
               else
                 (case terminal (cor_operation lease)
                         \<lparr>tr_terminal = T_Completed, tr_resource = None\<rparr> h of
                    (Inl e, h) \<Rightarrow> (Inl (Admission e), h)
                  | (Inr _, h) \<Rightarrow> (Inr (lease\<lparr>cor_completed := True\<rparr>), h))))"

definition collect_output :: "hub_config \<Rightarrow> CompilerOutputRead \<Rightarrow> ProcessOutputEvent option \<Rightarrow> hub \<Rightarrow>
    (CompilerOutputError + ProcessOutputEvent option) \<times> hub" where
  "collect_output c lease event h =
     (case collect_output_section lease h of
        (Inl e, h) \<Rightarrow> (Inl e, drop_compiler_output_read c lease h)
      | (Inr lease, h) \<Rightarrow> (Inr event, drop_compiler_output_read c lease h))"

section \<open>Handing an event to a guest\<close>

definition publish_section :: "CompilerOutputRead \<Rightarrow> ProcessOutputEvent option \<Rightarrow> unit hub_result" where
  "publish_section lease event h =
     (case bt_get (hub_operations h) (cor_operation lease) of
        None \<Rightarrow> (Inl Closed, h)
      | Some operation \<Rightarrow>
          if hub_closed h \<or> \<not> op_is_compiler_read operation \<or> op_terminal operation \<noteq> None
            then (Inl Closed, h)
          else case and_then (ok_or Closed (bt_get (hub_resources h) (cor_process lease)))
                      (\<lambda>resource. validate_resource resource (op_store operation)
                                    PROCESS_KIND PROCESS_RIGHT) of
            Inl e \<Rightarrow> (Inl e, h)
          | Inr _ \<Rightarrow>
              if hub_reserved_process_output_bytes h < MAX_PROCESS_OUTPUT_CHUNK
                then (Inl Closed, h)
              else
                terminal (cor_operation lease) \<lparr>tr_terminal = T_Completed, tr_resource = None\<rparr>
                  ((update_operation (cor_operation lease)
                      (op_compiler_output_update (\<lambda>_. Some event)) h)
                     \<lparr>hub_reserved_process_output_bytes :=
                        hub_reserved_process_output_bytes h - MAX_PROCESS_OUTPUT_CHUNK\<rparr>))"

definition receive_output_job :: "hub_config \<Rightarrow> CompilerOutputRead \<Rightarrow>
    ProcessOutputEvent option option \<Rightarrow> hub \<Rightarrow> hub" where
  "receive_output_job c lease answer h =
     (case receive_event lease answer h of
        (Inr event, h) \<Rightarrow>
          (case publish_section lease event h of
             (Inr _, h) \<Rightarrow> h
           | (Inl _, h) \<Rightarrow> drop_compiler_output_read c lease h)
      | (Inl error, h) \<Rightarrow>
          drop_compiler_output_read c lease
            (s_ignore (terminal (cor_operation lease)
               \<lparr>tr_terminal =
                  (case error of
                     TerminalError t \<Rightarrow> t
                   | Admission e \<Rightarrow> if e = Closed then T_Closed else T_Rejected),
                tr_resource = None\<rparr>) h))"

text \<open>
  Collecting: \<open>None\<close> is a read that is still pending; otherwise the terminal and, when it
  completed, the event handed to the copy.
\<close>

definition collect_output_wire_section :: "store_id \<Rightarrow> token \<Rightarrow> nat \<Rightarrow>
    (Terminal \<times> ProcessOutputEvent option option) option hub_result" where
  "collect_output_wire_section store token capacity h =
     (case bt_get (hub_operations h) token of
        None \<Rightarrow> (Inl Invalid, h)
      | Some operation \<Rightarrow>
          if op_store operation \<noteq> store then (Inl Stale, h)
          else if \<not> op_is_compiler_read operation then (Inl WrongKind, h)
          else if capacity < MAX_PROCESS_OUTPUT_CHUNK then (Inl Quota, h)
          else case op_terminal operation of
            None \<Rightarrow> (Inr None, h)
          | Some result \<Rightarrow>
              (case op_resource operation of
                 None \<Rightarrow> (Inl WrongKind, h)
               | Some process \<Rightarrow>
                   (case (if tr_terminal result = T_Completed
                          then and_then (ok_or Closed (bt_get (hub_resources h) process)) (\<lambda>resource.
                                 and_then (validate_resource resource store PROCESS_KIND PROCESS_RIGHT)
                                   (\<lambda>_. and_then (ok_or Closed (op_compiler_output operation))
                                     (\<lambda>event. Inr (Some event))))
                          else Inr None) of
                      Inl e \<Rightarrow> (Inl e, h)
                    | Inr event \<Rightarrow>
                        (Inr (Some (tr_terminal result, event)),
                         (update_resource process (set_output_busy False)
                            (remove_operation token h))
                           \<lparr>hub_resumes := saturating_add (hub_resumes h) 1\<rparr>))))"

definition collect_compiler_output_wire :: "hub_config \<Rightarrow> (ProcessOutputEvent option \<Rightarrow> u64) \<Rightarrow>
    store_id \<Rightarrow> token \<Rightarrow> nat \<Rightarrow> u64 hub_result" where
  "collect_compiler_output_wire c copy store token capacity =
     s_bind (collect_output_wire_section store token capacity) (\<lambda>collected.
       case collected of
         None \<Rightarrow> s_return 0
       | Some (t, event) \<Rightarrow>
           s_bind (drive_blob_writes c) (\<lambda>_.
             s_bind (drive_blob_reads c) (\<lambda>_.
               s_return (push_bit 8 (case event of None \<Rightarrow> 0 | Some e \<Rightarrow> copy e)
                         OR ucast (status t)))))"

definition abandon_output_section :: "store_id \<Rightarrow> token \<Rightarrow> unit hub_result" where
  "abandon_output_section store token h =
     (case bt_get (hub_operations h) token of
        None \<Rightarrow> (Inl Invalid, h)
      | Some operation \<Rightarrow>
          if op_store operation \<noteq> store then (Inl Stale, h)
          else if \<not> op_is_compiler_read operation then (Inl WrongKind, h)
          else case op_resource operation of
            None \<Rightarrow> (Inl WrongKind, h)
          | Some process \<Rightarrow>
              s_bind (\<lambda>h. if bt_get (hub_resources h) process \<noteq> None
                          then close_resource_with_terminal_locked process T_Closed h
                          else (Inr [], h))
                (\<lambda>notifications h.
                  (Inr (), notify_all (token # notifications)
                     (h\<lparr>hub_log := hub_log h @
                          (if op_producer_cancel operation then [ProducerCancelled token] else [])\<rparr>)))
                (remove_operation token h))"

definition abandon_compiler_output_wire :: "hub_config \<Rightarrow> store_id \<Rightarrow> token \<Rightarrow> unit hub_result" where
  "abandon_compiler_output_wire c store token =
     s_bind (abandon_output_section store token) (\<lambda>_.
       s_bind (drive_blob_writes c) (\<lambda>_. drive_blob_reads c))"

definition cancel_output_section :: "store_id \<Rightarrow> token \<Rightarrow> bool hub_result" where
  "cancel_output_section store token h =
     (case bt_get (hub_operations h) token of
        None \<Rightarrow> (Inr False, h)
      | Some operation \<Rightarrow>
          if \<not> op_is_compiler_read operation then (Inr False, h)
          else if op_store operation \<noteq> store then (Inl Stale, h)
          else case op_resource operation of
            None \<Rightarrow> (Inl WrongKind, h)
          | Some process \<Rightarrow>
              if bt_get (hub_resources h) process \<noteq> None
              then s_bind (close_resource_section process T_Cancelled) (\<lambda>_. s_return True) h
              else (Inr True, h))"

definition cancel_compiler_output_wire :: "hub_config \<Rightarrow> store_id \<Rightarrow> token \<Rightarrow> bool hub_result" where
  "cancel_compiler_output_wire c store token =
     s_bind (cancel_output_section store token) (\<lambda>cancelled.
       if cancelled
       then s_bind (drive_blob_writes c) (\<lambda>_. s_bind (drive_blob_reads c) (\<lambda>_. s_return True))
       else s_return False)"

definition cancel_wire :: "hub_config \<Rightarrow> store_id \<Rightarrow> token \<Rightarrow> unit hub_result" where
  "cancel_wire c store operation =
     s_bind (cancel_compiler_output_wire c store operation) (\<lambda>cancelled.
       if cancelled then s_return ()
       else s_bind (take_owner operation store) (\<lambda>_.
              terminal operation \<lparr>tr_terminal = T_Cancelled, tr_resource = None\<rparr>))"

end
