(* ===== verification/Hub_Output.thy ===== *)
theory Hub_Output
  imports Hub_Output_Event
begin

text \<open>
  The operation hub, part seven: publishing a sealed blob as a file the host authorised. The
  bytes are streamed chunk by chunk into a sibling temporary file that the commit created
  itself; the final path is replaced only after a successful sync and a last authority check
  under the mutex, in which the rename, the completion of the operation and the revocation of
  both resources happen together. Whatever fails, the blob is consumed and the removal of the
  temporary file is attempted; that it fails is ignored.

  The file system is a map from paths to contents, which only the commit changes. Which of its
  calls fail (creating, the n-th write and after how many bytes, syncing, renaming, removing) are
  arguments. A commit takes the mutex anew for every call it makes on the hub; what the other
  threads do to the hub before each of these calls is an argument as well.
\<close>

section \<open>Files\<close>

record file_host =
  fh_files :: "hub_path \<Rightarrow> u8 list option"

text \<open>The places of a commit where it does not hold the mutex.\<close>

datatype commit_point = Before_Path | Before_Begin | Before_Attempt nat | Before_Check nat | Before_Read nat
  | During_Write nat | Before_Last_Check | During_Sync | Before_End | Before_Reject

text \<open>The n-th write succeeds (\<open>None\<close>) or fails after a number of bytes.\<close>

record commit_answers =
  ca_create :: bool
  ca_write :: "nat \<Rightarrow> nat option"
  ca_sync :: bool
  ca_replace :: bool
  ca_remove :: bool
  ca_others :: "commit_point \<Rightarrow> hub \<Rightarrow> hub"

datatype ErrorKind = WouldBlock | PermissionDenied | BrokenPipe | OtherError | AlreadyExists | InvalidInput
  | HostFailure

fun hub_io_error :: "HubError \<Rightarrow> ErrorKind" where
  "hub_io_error Quota = WouldBlock"
| "hub_io_error Invalid = PermissionDenied"
| "hub_io_error Stale = PermissionDenied"
| "hub_io_error WrongKind = PermissionDenied"
| "hub_io_error WrongRights = PermissionDenied"
| "hub_io_error Closed = BrokenPipe"
| "hub_io_error Exhausted = OtherError"

type_synonym output_world = "hub \<times> file_host"

definition on_hub :: "('a hub_result) \<Rightarrow> (output_world, ErrorKind, 'a) state_result" where
  "on_hub m w = (case m (fst w) of (r, h) \<Rightarrow> (map_err hub_io_error r, (h, snd w)))"

definition meanwhile :: "commit_answers \<Rightarrow> commit_point \<Rightarrow> output_world \<Rightarrow> output_world" where
  "meanwhile a p w = (ca_others a p (fst w), snd w)"

definition path_parent :: "hub_path \<Rightarrow> hub_path option" where
  "path_parent p = (if p = [] then None else Some (butlast p))"

text \<open>\<^verbatim>\<open>file_name\<close> is \<open>None\<close> for the root and for a path that ends in two dots.\<close>

definition path_file_name :: "hub_path \<Rightarrow> u8 list option" where
  "path_file_name p = (if p = [] \<or> last p = [0x2E, 0x2E] then None else Some (last p))"

section \<open>Granting a destination\<close>

definition grant_exact_output :: "hub_config \<Rightarrow> (hub_path \<Rightarrow> hub_path option) \<Rightarrow> store_id \<Rightarrow>
    hub_path \<Rightarrow> token hub_result" where
  "grant_exact_output c canonicalize store destination =
     s_bind (s_lift (ok_or Invalid (path_parent destination))) (\<lambda>parent.
       s_bind (s_lift (ok_or Invalid (path_file_name destination))) (\<lambda>name.
         s_bind (s_lift (ok_or Invalid (canonicalize parent))) (\<lambda>parent.
           s_bind (create_resource_value c store OUTPUT_RESOURCE_KIND OUTPUT_RIGHT_COMMIT False
                     (ExactOutput (parent @ [name]))) (\<lambda>token.
             s_bind (publish_resource Invalid token) (\<lambda>_. s_return token)))))"

definition exact_output_path :: "store_id \<Rightarrow> token \<Rightarrow> hub_path hub_result" where
  "exact_output_path store output h =
     (case bt_get (hub_resources h) output of
        None \<Rightarrow> Inl Invalid
      | Some resource \<Rightarrow>
          and_then (validate_resource resource store OUTPUT_RESOURCE_KIND OUTPUT_RIGHT_COMMIT) (\<lambda>_.
            case rs_value resource of ExactOutput path \<Rightarrow> Inr path | _ \<Rightarrow> Inl WrongKind), h)"

section \<open>Temporary files\<close>

text \<open>The digits of a number, as \<^verbatim>\<open>format!\<close> prints it.\<close>

fun decimal :: "nat \<Rightarrow> u8 list" where
  "decimal n = (if n < 10 then [of_nat (48 + n)] else decimal (n div 10) @ [of_nat (48 + n mod 10)])"

declare decimal.simps [simp del]

definition temporary_prefix :: "u8 list" where
  "temporary_prefix =
     [0x2E, 0x6B, 0x65, 0x72, 0x6E, 0x61, 0x6C, 0x2D, 0x61, 0x70, 0x69, 0x2D]"

definition temporary_suffix :: "u8 list" where
  "temporary_suffix = [0x2E, 0x74, 0x6D, 0x70]"

definition temporary_name :: "u8 list \<Rightarrow> nat \<Rightarrow> u8 list" where
  "temporary_name name n = name @ temporary_prefix @ decimal n @ temporary_suffix"

primrec try_temporary_path :: "nat \<Rightarrow> commit_answers \<Rightarrow> hub_path \<Rightarrow> u8 list \<Rightarrow>
    (output_world, ErrorKind, hub_path) state_result" where
  "try_temporary_path 0 a parent name = s_lift (Inl AlreadyExists)"
| "try_temporary_path (Suc tries) a parent name =
     (\<lambda>w. s_bind (on_hub next_token) (\<lambda>n w.
       let temporary = parent @ [temporary_name name n] in
       if fh_files (snd w) temporary = None then (Inr temporary, w)
       else try_temporary_path tries a parent name w) (meanwhile a (Before_Attempt tries) w))"

definition temporary_output_path :: "commit_answers \<Rightarrow> hub_path \<Rightarrow>
    (output_world, ErrorKind, hub_path) state_result" where
  "temporary_output_path a destination =
     s_bind (s_lift (map_err hub_io_error (ok_or Invalid (path_parent destination)))) (\<lambda>parent.
       s_bind (s_lift (map_err hub_io_error (ok_or Invalid (path_file_name destination)))) (\<lambda>name.
         try_temporary_path 16 a parent name))"

definition set_file :: "hub_path \<Rightarrow> u8 list option \<Rightarrow> output_world \<Rightarrow> output_world" where
  "set_file p content w = (fst w, (snd w)\<lparr>fh_files := (fh_files (snd w))(p := content)\<rparr>)"

text \<open>\<^verbatim>\<open>create_new\<close> refuses an existing file.\<close>

definition create_temporary :: "commit_answers \<Rightarrow> hub_path \<Rightarrow> (output_world, ErrorKind, unit) state_result" where
  "create_temporary a p w =
     (if ca_create a \<and> fh_files (snd w) p = None then (Inr (), set_file p (Some []) w)
      else (Inl HostFailure, w))"

definition write_temporary :: "commit_answers \<Rightarrow> nat \<Rightarrow> hub_path \<Rightarrow> u8 list \<Rightarrow>
    (output_world, ErrorKind, unit) state_result" where
  "write_temporary a n p bytes w =
     (case fh_files (snd w) p of
        None \<Rightarrow> (Inl HostFailure, w)
      | Some content \<Rightarrow>
          (case ca_write a n of
             None \<Rightarrow> (Inr (), set_file p (Some (content @ bytes)) w)
           | Some k \<Rightarrow> (Inl HostFailure, set_file p (Some (content @ take k bytes)) w)))"

text \<open>Dropping the temporary file: a failing \<^verbatim>\<open>remove_file\<close> is ignored.\<close>

definition drop_temporary :: "commit_answers \<Rightarrow> hub_path \<Rightarrow> bool \<Rightarrow> output_world \<Rightarrow> output_world" where
  "drop_temporary a p committed w = (if \<not> committed \<and> ca_remove a then set_file p None w else w)"

text \<open>\<^verbatim>\<open>fs_replace_file\<close> is a rename.\<close>

definition fs_replace_file :: "commit_answers \<Rightarrow> hub_path \<Rightarrow> hub_path \<Rightarrow>
    (output_world, ErrorKind, unit) state_result" where
  "fs_replace_file a temporary destination w =
     (case fh_files (snd w) temporary of
        None \<Rightarrow> (Inl HostFailure, w)
      | Some content \<Rightarrow>
          if ca_replace a
          then (Inr (), set_file destination (Some content) (set_file temporary None w))
          else (Inl HostFailure, w))"

section \<open>Authority\<close>

definition check_commit_resource :: "store_id \<Rightarrow> token \<Rightarrow> u8 \<Rightarrow> u8 \<Rightarrow> hub \<Rightarrow> HubError + unit" where
  "check_commit_resource store token kind rights h =
     and_then (ok_or Closed (bt_get (hub_resources h) token)) (\<lambda>resource.
       validate_resource resource store kind rights)"

definition check_output_operation :: "store_id \<Rightarrow> token \<Rightarrow> token \<Rightarrow> token option \<Rightarrow> unit hub_result" where
  "check_output_operation store blob output operation h =
     (if hub_closed h then Inl Closed
      else and_then
        (case operation of
           None \<Rightarrow> Inr ()
         | Some token \<Rightarrow>
             and_then (ok_or Closed (bt_get (hub_operations h) token)) (\<lambda>slot.
               if op_store slot \<noteq> store \<or> op_resource slot \<noteq> Some output \<or> op_terminal slot \<noteq> None
               then Inl Closed else Inr ())) (\<lambda>_.
        and_then (check_commit_resource store blob BLOB_RESOURCE_KIND BLOB_RIGHT_READ h) (\<lambda>_.
          check_commit_resource store output OUTPUT_RESOURCE_KIND OUTPUT_RIGHT_COMMIT h)), h)"

definition begin_commit_section :: "store_id \<Rightarrow> token \<Rightarrow> hub \<Rightarrow> (ErrorKind + unit) \<times> hub" where
  "begin_commit_section store blob h =
     (if list_ex (\<lambda>op. op_resource op = Some blob \<and> op_terminal op = None)
           (bt_values (hub_operations h))
      then (Inl (hub_io_error WrongRights), h)
      else case bt_get (hub_resources h) blob of
        None \<Rightarrow> (Inl (hub_io_error Invalid), h)
      | Some resource \<Rightarrow>
          (case validate_resource resource store BLOB_RESOURCE_KIND BLOB_RIGHT_READ of
             Inl e \<Rightarrow> (Inl (hub_io_error e), h)
           | Inr _ \<Rightarrow>
               if rs_committing resource then (Inl (hub_io_error WrongRights), h)
               else if \<not> (case rs_value resource of Blob _ sealed \<Rightarrow> sealed | _ \<Rightarrow> False)
                 then (Inl WouldBlock, h)
               else (Inr (), update_resource blob (rs_committing_update (\<lambda>_. True)) h)))"

section \<open>The commit point\<close>

definition check_replace :: "store_id \<Rightarrow> token \<Rightarrow> token \<Rightarrow> token option \<Rightarrow> hub \<Rightarrow> HubError + hub_path" where
  "check_replace store blob output operation h =
     (if hub_closed h then Inl Closed
      else and_then
        (case operation of
           None \<Rightarrow> Inr ()
         | Some token \<Rightarrow>
             and_then (ok_or Closed (bt_get (hub_operations h) token)) (\<lambda>slot.
               if op_store slot \<noteq> store \<or> op_terminal slot \<noteq> None then Inl Closed else Inr ())) (\<lambda>_.
        and_then (check_commit_resource store blob BLOB_RESOURCE_KIND BLOB_RIGHT_READ h) (\<lambda>_.
          and_then (ok_or Closed (bt_get (hub_resources h) output)) (\<lambda>resource.
            and_then (validate_resource resource store OUTPUT_RESOURCE_KIND OUTPUT_RIGHT_COMMIT)
              (\<lambda>_. case rs_value resource of
                     ExactOutput destination \<Rightarrow> Inr destination
                   | _ \<Rightarrow> Inl WrongKind)))))"

text \<open>Completion and revocation, under the same lock as the rename.\<close>

definition settle_commit :: "token \<Rightarrow> token \<Rightarrow> token option \<Rightarrow> unit hub_result" where
  "settle_commit blob output operation =
     s_bind (case operation of
               None \<Rightarrow> s_return []
             | Some token \<Rightarrow>
                 s_bind (terminal_locked token \<lparr>tr_terminal = T_Completed, tr_resource = None\<rparr>)
                   (\<lambda>wake. s_return (case wake of None \<Rightarrow> [] | Some w \<Rightarrow> [w]))) (\<lambda>wakes1.
       s_bind (close_resource_with_terminal_locked blob T_Closed) (\<lambda>wakes2.
         s_bind (close_resource_with_terminal_locked output T_Closed) (\<lambda>wakes3 h.
           (Inr (), notify_all (wakes1 @ wakes2 @ wakes3) h))))"

definition replace_output_operation :: "commit_answers \<Rightarrow> store_id \<Rightarrow> token \<Rightarrow> token \<Rightarrow> hub_path \<Rightarrow>
    token option \<Rightarrow> (output_world, ErrorKind, unit) state_result" where
  "replace_output_operation a store blob output temporary operation w =
     (case check_replace store blob output operation (fst w) of
        Inl e \<Rightarrow> (Inl (hub_io_error e), w)
      | Inr destination \<Rightarrow>
          s_bind (fs_replace_file a temporary destination) (\<lambda>_.
            on_hub (settle_commit blob output operation)) w)"

section \<open>The whole commit\<close>

text \<open>
  The copying loop, with a bound on its rounds; \<open>None\<close> is a loop that has not ended. Every
  round hands its chunk back, also when the write failed.
\<close>

primrec copy_loop :: "nat \<Rightarrow> hub_config \<Rightarrow> commit_answers \<Rightarrow> store_id \<Rightarrow> token \<Rightarrow> token \<Rightarrow>
    token option \<Rightarrow> hub_path \<Rightarrow> nat \<Rightarrow> output_world \<Rightarrow> ((ErrorKind + unit) \<times> output_world) option" where
  "copy_loop 0 c a store blob output operation temporary n w = None"
| "copy_loop (Suc rounds) c a store blob output operation temporary n w =
     (case on_hub (check_output_operation store blob output operation)
             (meanwhile a (Before_Check n) w) of
        (Inl e, w) \<Rightarrow> Some (Inl e, w)
      | (Inr _, w) \<Rightarrow>
          (case on_hub (read_blob_chunk c store blob (maximum_chunk_bytes (hc_blob_limits c)) True)
                  (meanwhile a (Before_Read n) w) of
             (Inl e, w) \<Rightarrow> Some (Inl e, w)
           | (Inr chunk, w) \<Rightarrow>
               if nc_bytes chunk = []
               then Some (Inr (), (drop_native_blob_chunk c chunk (fst w), snd w))
               else (case write_temporary a n temporary (nc_bytes chunk)
                            (meanwhile a (During_Write n) w) of
                       (Inl e, w) \<Rightarrow> Some (Inl e, (drop_native_blob_chunk c chunk (fst w), snd w))
                     | (Inr _, w) \<Rightarrow>
                         copy_loop rounds c a store blob output operation temporary (Suc n)
                           (drop_native_blob_chunk c chunk (fst w), snd w))))"

definition finish_commit :: "commit_answers \<Rightarrow> store_id \<Rightarrow> token \<Rightarrow> token \<Rightarrow> token option \<Rightarrow> hub_path \<Rightarrow>
    (output_world, ErrorKind, unit) state_result" where
  "finish_commit a store blob output operation temporary w =
     s_bind (on_hub (check_output_operation store blob output operation)) (\<lambda>_ w.
       if \<not> ca_sync a then (Inl HostFailure, w)
       else replace_output_operation a store blob output temporary operation
              (meanwhile a During_Sync w)) (meanwhile a Before_Last_Check w)"

definition stream_and_replace :: "nat \<Rightarrow> hub_config \<Rightarrow> commit_answers \<Rightarrow> store_id \<Rightarrow> token \<Rightarrow> token \<Rightarrow>
    token option \<Rightarrow> hub_path \<Rightarrow> output_world \<Rightarrow> ((ErrorKind + unit) \<times> output_world) option" where
  "stream_and_replace rounds c a store blob output operation temporary w =
     (case copy_loop rounds c a store blob output operation temporary 0 w of
        None \<Rightarrow> None
      | Some (Inl e, w) \<Rightarrow> Some (Inl e, drop_temporary a temporary False w)
      | Some (Inr _, w) \<Rightarrow>
          (case finish_commit a store blob output operation temporary w of
             (r, w) \<Rightarrow> Some (r, drop_temporary a temporary (r = Inr ()) w)))"

text \<open>The drop of the commit's lease.\<close>

definition end_consumption :: "hub_config \<Rightarrow> commit_answers \<Rightarrow> token \<Rightarrow> output_world \<Rightarrow> output_world" where
  "end_consumption c a blob w =
     (let w = meanwhile a Before_End w in (s_ignore (close_resource c blob) (fst w), snd w))"

definition commit_blob_operation :: "nat \<Rightarrow> hub_config \<Rightarrow> commit_answers \<Rightarrow> store_id \<Rightarrow> token \<Rightarrow> token \<Rightarrow>
    token option \<Rightarrow> output_world \<Rightarrow> ((ErrorKind + unit) \<times> output_world) option" where
  "commit_blob_operation rounds c a store blob output operation w =
     (case s_bind (on_hub (check_output_operation store blob output operation)) (\<lambda>_ w.
             s_bind (on_hub (exact_output_path store output)) (\<lambda>destination w.
               case begin_commit_section store blob (fst (meanwhile a Before_Begin w)) of
                 (r, h) \<Rightarrow> (map_sum id (\<lambda>_. destination) r, (h, snd w))) (meanwhile a Before_Path w)) w of
        (Inl e, w) \<Rightarrow> Some (Inl e, w)
      | (Inr destination, w) \<Rightarrow>
          (case s_bind (temporary_output_path a destination) (\<lambda>temporary.
                  s_bind (create_temporary a temporary) (\<lambda>_. s_return temporary)) w of
             (Inl e, w) \<Rightarrow> Some (Inl e, end_consumption c a blob w)
           | (Inr temporary, w) \<Rightarrow>
               map_option (\<lambda>(r, w). (r, end_consumption c a blob w))
                 (stream_and_replace rounds c a store blob output operation temporary w)))"

section \<open>Commits as operations\<close>

definition admit_output_job :: "hub_config \<Rightarrow> token \<Rightarrow> hub_job \<Rightarrow> token hub_result" where
  "admit_output_job c operation job h =
     (let h = h\<lparr>hub_output_jobs := still_running (hub_output_jobs h)\<rparr> in
      if hub_closed h \<or> hc_maximum_operations c \<le> hub_output_job_count h
      then (Inl (if hub_closed h then Closed else Quota), remove_operation operation h)
      else (Inr operation,
            launch_job job
              (h\<lparr>hub_output_job_count := hub_output_job_count h + 1,
                 hub_output_jobs := hub_output_jobs h @ [(operation, Running)]\<rparr>)))"

definition submit_output_commit :: "hub_config \<Rightarrow> store_id \<Rightarrow> token \<Rightarrow> token \<Rightarrow> token hub_result" where
  "submit_output_commit c store blob output =
     s_bind (submit c store (Some output) OUTPUT_RESOURCE_KIND OUTPUT_RIGHT_COMMIT) (\<lambda>operation.
       admit_output_job c operation (OutputJob store blob output operation))"

definition drop_output_job_lease :: "bool \<Rightarrow> hub \<Rightarrow> hub" where
  "drop_output_job_lease panicking h =
     h\<lparr>hub_output_job_failed := (hub_output_job_failed h \<or> panicking),
       hub_output_job_count := hub_output_job_count h - 1\<rparr>"

definition output_job :: "nat \<Rightarrow> hub_config \<Rightarrow> commit_answers \<Rightarrow> store_id \<Rightarrow> token \<Rightarrow> token \<Rightarrow>
    token \<Rightarrow> output_world \<Rightarrow> output_world option" where
  "output_job rounds c a store blob output operation w =
     map_option (\<lambda>(r, w).
         (drop_output_job_lease False
            (case r of
               Inr _ \<Rightarrow> fst w
             | Inl _ \<Rightarrow> s_ignore (terminal operation \<lparr>tr_terminal = T_Rejected, tr_resource = None\<rparr>)
                          (fst (meanwhile a Before_Reject w))), snd w))
       (commit_blob_operation rounds c a store blob output (Some operation) w)"

section \<open>The submission adapter\<close>

definition submit_wire :: "hub_config \<Rightarrow> store_id \<Rightarrow> nat \<Rightarrow> nat \<Rightarrow> nat \<Rightarrow> token hub_result" where
  "submit_wire c store kind arg0 arg1 =
     (if kind = OP_CLOCK_SLEEP then
        if arg1 \<noteq> 0 \<or> u32_max < arg0 then s_lift (Inl Invalid)
        else submit_clock_sleep c store arg0
      else if kind = OP_OUTPUT_COMMIT then submit_output_commit c store arg0 arg1
      else if kind = OP_BLOB_SEAL then
        if arg1 \<noteq> 0 then s_lift (Inl Invalid) else seal_wire c store arg0
      else if kind = OP_BLOB_READ then submit_blob_read c store arg0 arg1
      else s_bind (s_lift (wire_request kind arg0 arg1)) (\<lambda>request. dispatch c store request))"

end
