(* ===== verification/Hub_Encoder.thy ===== *)
theory Hub_Encoder
  imports Hub_Output
begin

text \<open>
  The operation hub, part eight: two producers inside the host. The native encoder
  (\<^verbatim>\<open>NativeBlobEncoder\<close>) is a seekable bounded sink that fills a reserved blob, which
  no guest can reach before the encoding finished; and the incremental hasher
  (\<^verbatim>\<open>hash_resource.rs\<close>), whose state is a resource of the hub.
\<close>

section \<open>The encoder\<close>

record NativeBlobEncoder =
  en_store :: store_id
  en_blob :: "token option"
  en_bound_operation :: "token option"
  en_maximum_bytes :: nat
  en_written :: nat
  en_position :: nat
  en_failure :: "HubError option"

type_synonym encoder_world = "NativeBlobEncoder \<times> hub"

definition encoder_new :: "hub_config \<Rightarrow> store_id \<Rightarrow> nat \<Rightarrow> NativeBlobEncoder hub_result" where
  "encoder_new c store maximum_bytes =
     (if maximum_bytes = 0 \<or> maximum_blob_bytes (hc_blob_limits c) < maximum_bytes
      then s_lift (Inl Quota)
      else s_bind (create_resource_value c store BLOB_RESOURCE_KIND
                     (BLOB_RIGHT_READ OR BLOB_RIGHT_WRITE) False (Blob vec_deque_new False)) (\<lambda>blob.
             s_return \<lparr>en_store = store, en_blob = Some blob, en_bound_operation = None,
                       en_maximum_bytes = maximum_bytes, en_written = 0, en_position = 0,
                       en_failure = None\<rparr>))"

definition drop_encoder :: "hub_config \<Rightarrow> NativeBlobEncoder \<Rightarrow> hub \<Rightarrow> hub" where
  "drop_encoder c en h =
     (case en_blob en of None \<Rightarrow> h | Some blob \<Rightarrow> s_ignore (close_resource c blob) h)"

definition validate_capture_operation :: "hub \<Rightarrow> store_id \<Rightarrow> token \<Rightarrow> token option \<Rightarrow> HubError + unit" where
  "validate_capture_operation h store operation blob =
     (if hub_closed h then Inl Closed
      else and_then (ok_or Closed (bt_get (hub_operations h) operation)) (\<lambda>pending.
        if op_store pending \<noteq> store then Inl WrongRights
        else if op_terminal pending \<noteq> None then Inl Closed
        else if op_created_resource pending \<noteq> None \<and> op_created_resource pending \<noteq> blob
          then Inl WrongRights
        else if op_required_rights pending \<noteq> EXTERNAL_WEBVIEW_RIGHT_CAPTURE then Inl WrongRights
        else and_then (ok_or WrongKind (op_resource pending)) (\<lambda>view.
          and_then (ok_or Closed (bt_get (hub_resources h) view)) (\<lambda>view.
            validate_resource view store EXTERNAL_WEBVIEW_RESOURCE_KIND
              EXTERNAL_WEBVIEW_RIGHT_CAPTURE))))"

definition bind_capture_section :: "NativeBlobEncoder \<Rightarrow> token \<Rightarrow> unit hub_result" where
  "bind_capture_section en operation h =
     (case validate_capture_operation h (en_store en) operation None of
        Inl e \<Rightarrow> (Inl e, h)
      | Inr _ \<Rightarrow>
          (Inr (), update_operation operation
             (op_created_resource_update (\<lambda>_. en_blob en)) h))"

text \<open>A refused binding drops the encoder, which revokes its blob.\<close>

definition encoder_for_operation :: "hub_config \<Rightarrow> store_id \<Rightarrow> token \<Rightarrow> nat \<Rightarrow> NativeBlobEncoder hub_result" where
  "encoder_for_operation c store operation maximum_bytes =
     s_bind (encoder_new c store maximum_bytes) (\<lambda>en.
       s_catch (bind_capture_section en operation)
         (\<lambda>e h. (Inl e, drop_encoder c en h))
         (\<lambda>_. s_return (en\<lparr>en_bound_operation := Some operation\<rparr>)))"

text \<open>\<^verbatim>\<open>slice::chunks\<close> with a positive size.\<close>

function slice_chunks :: "nat \<Rightarrow> u8 list \<Rightarrow> u8 list list" where
  "slice_chunks n bytes =
     (if n = 0 \<or> bytes = [] then [] else take n bytes # slice_chunks n (drop n bytes))"
  by pat_completeness auto

termination
  by (relation "measure (\<lambda>(n, bytes). length bytes)") auto

declare slice_chunks.simps [simp del]

primrec encoder_write_chunks :: "hub_config \<Rightarrow> store_id \<Rightarrow> token option \<Rightarrow> u8 list list \<Rightarrow> unit hub_result" where
  "encoder_write_chunks c store blob [] = s_return ()"
| "encoder_write_chunks c store blob (chunk # chunks) =
     (case blob of
        None \<Rightarrow> s_lift (Inl Closed)
      | Some b \<Rightarrow>
          s_bind (blob_write_inner c store b chunk True) (\<lambda>_. encoder_write_chunks c store blob chunks))"

text \<open>The first error of an encoder sticks.\<close>

definition encoding :: "(encoder_world, HubError, 'b) state_result \<Rightarrow> (encoder_world, HubError, 'b) state_result" where
  "encoding m w =
     (case en_failure (fst w) of
        Some e \<Rightarrow> (Inl e, w)
      | None \<Rightarrow>
          (case m w of
             (Inr x, w') \<Rightarrow> (Inr x, w')
           | (Inl e, w') \<Rightarrow> (Inl e, apfst (\<lambda>en. en\<lparr>en_failure := Some e\<rparr>) w')))"

definition encoder_append_body :: "hub_config \<Rightarrow> u8 list \<Rightarrow> (encoder_world, HubError, unit) state_result" where
  "encoder_append_body c bytes w =
     (case w of (en, h) \<Rightarrow>
       case checked_add (en_written en) (length bytes) of
         None \<Rightarrow> (Inl Quota, w)
       | Some t \<Rightarrow>
           if en_maximum_bytes en < t then (Inl Quota, w)
           else (case encoder_write_chunks c (en_store en) (en_blob en)
                        (slice_chunks (maximum_chunk_bytes (hc_blob_limits c)) bytes) h of
                   (Inl e, h) \<Rightarrow> (Inl e, (en, h))
                 | (Inr _, h) \<Rightarrow> (Inr (), (en\<lparr>en_written := t\<rparr>, h))))"

definition encoder_append :: "hub_config \<Rightarrow> u8 list \<Rightarrow> (encoder_world, HubError, unit) state_result" where
  "encoder_append c bytes = encoding (encoder_append_body c bytes)"

text \<open>Filling a hole with zeros, in pieces of 1024 bytes; each piece advances the encoder.\<close>

primrec fill_hole :: "nat \<Rightarrow> hub_config \<Rightarrow> (encoder_world, HubError, unit) state_result" where
  "fill_hole 0 c = s_return ()"
| "fill_hole (Suc pieces) c =
     (\<lambda>w. if en_written (fst w) < en_position (fst w)
          then s_bind (encoder_append c
                 (replicate (min (en_position (fst w) - en_written (fst w)) 1024) 0))
                 (\<lambda>_. fill_hole pieces c) w
          else (Inr (), w))"

definition overwrite_at :: "nat \<Rightarrow> u8 list \<Rightarrow> u8 list \<Rightarrow> u8 list" where
  "overwrite_at position bytes content =
     take position content @ bytes @ drop (position + length bytes) content"

definition overwrite_slot :: "nat \<Rightarrow> u8 list \<Rightarrow> ResourceSlot \<Rightarrow> ResourceSlot" where
  "overwrite_slot position bytes r =
     (case rs_value r of
        Blob d sealed \<Rightarrow>
          r\<lparr>rs_value := Blob (d\<lparr>dq_bytes := overwrite_at position bytes (dq_bytes d)\<rparr>) sealed\<rparr>
      | _ \<Rightarrow> r)"

text \<open>
  The bytes are replaced one by one; the first index beyond the buffer is an error, and what
  was replaced before it stays.
\<close>

definition overwrite_section :: "store_id \<Rightarrow> token option \<Rightarrow> nat \<Rightarrow> u8 list \<Rightarrow> unit hub_result" where
  "overwrite_section store blob position bytes h =
     (if hub_closed h then (Inl Closed, h)
      else case blob of
        None \<Rightarrow> (Inl Closed, h)
      | Some b \<Rightarrow>
          (case bt_get (hub_resources h) b of
             None \<Rightarrow> (Inl Closed, h)
           | Some resource \<Rightarrow>
               (case validate_resource_owner resource store BLOB_RESOURCE_KIND BLOB_RIGHT_WRITE of
                  Inl e \<Rightarrow> (Inl e, h)
                | Inr _ \<Rightarrow>
                    if \<not> rs_reserved resource then (Inl WrongRights, h)
                    else (case rs_value resource of
                            Blob d sealed \<Rightarrow>
                              if sealed then (Inl WrongKind, h)
                              else let fits = length (dq_bytes d) - position;
                                       part = take fits bytes in
                                (if length bytes \<le> fits then Inr () else Inl Closed,
                                 update_resource b (overwrite_slot position part) h)
                          | _ \<Rightarrow> (Inl WrongKind, h)))))"

definition write_at_position_body :: "hub_config \<Rightarrow> u8 list \<Rightarrow> (encoder_world, HubError, unit) state_result" where
  "write_at_position_body c bytes w =
     (case checked_add (en_position (fst w)) (length bytes) of
        None \<Rightarrow> (Inl Quota, w)
      | Some end_position \<Rightarrow>
          if en_maximum_bytes (fst w) < end_position then (Inl Quota, w)
          else s_bind (fill_hole (en_position (fst w) - en_written (fst w)) c) (\<lambda>_ w.
            let overwrite = min (length bytes) (en_written (fst w) - en_position (fst w)) in
            s_bind (if 0 < overwrite
                    then (\<lambda>(en, h). case overwrite_section (en_store en) (en_blob en)
                                           (en_position en) (take overwrite bytes) h of
                                      (r, h) \<Rightarrow> (r, (en, h)))
                    else s_return ()) (\<lambda>_.
              s_bind (encoder_append c (drop overwrite bytes)) (\<lambda>_ w.
                (Inr (), apfst (\<lambda>en. en\<lparr>en_position := end_position\<rparr>) w))) w) w)"

definition write_at_position :: "hub_config \<Rightarrow> u8 list \<Rightarrow> (encoder_world, HubError, unit) state_result" where
  "write_at_position c bytes w =
     (case en_failure (fst w) of
        Some e \<Rightarrow> (Inl e, w)
      | None \<Rightarrow> if bytes = [] then (Inr (), w) else encoding (write_at_position_body c bytes) w)"

datatype seek_from = SeekStart nat | SeekCurrent int | SeekEnd int

definition encoder_seek :: "seek_from \<Rightarrow> NativeBlobEncoder \<Rightarrow> (ErrorKind + nat) \<times> NativeBlobEncoder" where
  "encoder_seek from en =
     (let position = (case from of
                        SeekStart n \<Rightarrow> int n
                      | SeekCurrent d \<Rightarrow> int (en_position en) + d
                      | SeekEnd d \<Rightarrow> int (en_written en) + d) in
      if position < 0 \<or> int (en_maximum_bytes en) < position then (Inl InvalidInput, en)
      else (Inr (nat position), en\<lparr>en_position := nat position\<rparr>))"

definition publish_encoded :: "bool \<Rightarrow> ResourceSlot \<Rightarrow> ResourceSlot" where
  "publish_encoded reserved r =
     (let r = seal_slot r in
      r\<lparr>rs_identity := (rs_identity r)\<lparr>id_rights := BLOB_RIGHT_READ\<rparr>, rs_reserved := reserved\<rparr>)"

definition finish_section :: "NativeBlobEncoder \<Rightarrow> token \<Rightarrow> token option \<Rightarrow> unit hub_result" where
  "finish_section en token operation h =
     (if hub_closed h then (Inl Closed, h)
      else case and_then (case operation of
                   None \<Rightarrow> Inr ()
                 | Some op \<Rightarrow> validate_capture_operation h (en_store en) op (Some token)) (\<lambda>_.
               and_then (ok_or Closed (bt_get (hub_resources h) token)) (\<lambda>resource.
                 and_then (validate_resource_owner resource (en_store en) BLOB_RESOURCE_KIND
                             BLOB_RIGHT_WRITE) (\<lambda>_.
                   if \<not> rs_reserved resource then Inl WrongRights
                   else if \<not> is_blob (rs_value resource) then Inl WrongKind
                   else Inr ()))) of
          Inl e \<Rightarrow> (Inl e, h)
        | Inr _ \<Rightarrow>
            let h = update_resource token (publish_encoded (operation \<noteq> None)) h in
            (case operation of
               None \<Rightarrow> (Inr (), h)
             | Some op \<Rightarrow>
                 terminal op \<lparr>tr_terminal = T_Completed, tr_resource = Some token\<rparr>
                   (update_operation op (op_created_resource_update (\<lambda>_. Some token)) h)))"

definition encoder_finish :: "hub_config \<Rightarrow> NativeBlobEncoder \<Rightarrow> token option \<Rightarrow> token hub_result" where
  "encoder_finish c en operation h =
     (case (if en_bound_operation en \<noteq> None \<and> en_bound_operation en \<noteq> operation
            then (Inl WrongRights, h)
            else case en_failure en of
              Some e \<Rightarrow> (Inl e, h)
            | None \<Rightarrow>
                (case en_blob en of
                   None \<Rightarrow> (Inl Closed, h)
                 | Some token \<Rightarrow>
                     s_bind (finish_section en token operation) (\<lambda>_. s_return token) h)) of
        (Inr token, h) \<Rightarrow> (Inr token, h)
      | (Inl e, h) \<Rightarrow> (Inl e, drop_encoder c en h))"

section \<open>Hashing\<close>

definition HASH_KIND :: u8 where "HASH_KIND = 9"
definition HASH_RIGHT :: u8 where "HASH_RIGHT = 1"
definition MAX_HASH_CHUNK :: nat where "MAX_HASH_CHUNK = 64 * 1024"

definition hash_operation_done :: "token \<Rightarrow> token option \<Rightarrow> token hub_result" where
  "hash_operation_done operation resource =
     s_bind (terminal operation \<lparr>tr_terminal = T_Completed, tr_resource = resource\<rparr>) (\<lambda>_.
       s_return operation)"

definition submit_hash_create :: "hub_config \<Rightarrow> store_id \<Rightarrow> token hub_result" where
  "submit_hash_create c store =
     s_bind (submit_locked c store None HASH_KIND HASH_RIGHT) (\<lambda>operation.
       s_catch (create_resource_value_locked c store HASH_KIND HASH_RIGHT False (Blake3 []))
         (\<lambda>e h. (Inl e, remove_operation operation h))
         (\<lambda>resource h.
           hash_operation_done operation (Some resource)
             (update_operation operation
                (\<lambda>op. op\<lparr>op_is_hash_operation := True, op_created_resource := Some resource\<rparr>) h)))"

definition absorb :: "u8 list \<Rightarrow> ResourceSlot \<Rightarrow> ResourceSlot" where
  "absorb bytes r =
     (case rs_value r of Blake3 seen \<Rightarrow> r\<lparr>rs_value := Blake3 (seen @ bytes)\<rparr> | _ \<Rightarrow> r)"

definition hash_state :: "store_id \<Rightarrow> token \<Rightarrow> hub \<Rightarrow> HubError + u8 list" where
  "hash_state store hash h =
     and_then (ok_or Closed (bt_get (hub_resources h) hash)) (\<lambda>resource.
       and_then (validate_resource resource store HASH_KIND HASH_RIGHT) (\<lambda>_.
         case rs_value resource of Blake3 seen \<Rightarrow> Inr seen | _ \<Rightarrow> Inl WrongKind))"

definition submit_hash_update :: "hub_config \<Rightarrow> store_id \<Rightarrow> token \<Rightarrow> u8 list \<Rightarrow> token hub_result" where
  "submit_hash_update c store hash bytes =
     (if MAX_HASH_CHUNK < length bytes then s_lift (Inl Quota)
      else s_bind (\<lambda>h. (hash_state store hash h, h)) (\<lambda>_.
        s_bind (submit_locked c store (Some hash) HASH_KIND HASH_RIGHT) (\<lambda>operation h.
          hash_operation_done operation None
            (update_operation operation (op_is_hash_operation_update (\<lambda>_. True))
              (update_resource hash (absorb bytes) h)))))"

definition abandon_hash_operation :: "store_id \<Rightarrow> token \<Rightarrow> unit hub_result" where
  "abandon_hash_operation store token h =
     (case bt_get (hub_operations h) token of
        None \<Rightarrow> (Inl Invalid, h)
      | Some operation \<Rightarrow>
          if op_store operation \<noteq> store then (Inl Stale, h)
          else if \<not> op_is_hash_operation operation then (Inl WrongKind, h)
          else
            s_bind (\<lambda>h. case (if op_created_resource operation \<noteq> None
                               then op_created_resource operation else op_resource operation) of
                           None \<Rightarrow> (Inr [], h)
                         | Some resource \<Rightarrow>
                             if bt_get (hub_resources h) resource \<noteq> None
                             then close_resource_with_terminal_locked resource T_Closed h
                             else (Inr [], h))
              (\<lambda>notifications h. (Inr (), notify_all (token # notifications) h))
              (remove_operation token h))"

text \<open>The digest of the bytes absorbed; the hash function itself is a parameter.\<close>

definition finish_hash :: "(u8 list \<Rightarrow> u8 list) \<Rightarrow> store_id \<Rightarrow> token \<Rightarrow> u8 list hub_result" where
  "finish_hash blake3 store token h =
     (case hash_state store token h of
        Inl e \<Rightarrow> (Inl e, h)
      | Inr seen \<Rightarrow>
          s_bind (close_resource_section token T_Closed) (\<lambda>_. s_return (blake3 seen)) h)"

definition finish_hash_into :: "(u8 list \<Rightarrow> u8 list) \<Rightarrow> store_id \<Rightarrow> token \<Rightarrow> nat \<Rightarrow> u8 list hub_result" where
  "finish_hash_into blake3 store token destination_length =
     (if destination_length \<noteq> 32 then s_lift (Inl Invalid) else finish_hash blake3 store token)"

definition abandon_hash :: "store_id \<Rightarrow> token \<Rightarrow> unit hub_result" where
  "abandon_hash store token h =
     (case and_then (ok_or Closed (bt_get (hub_resources h) token)) (\<lambda>resource.
             validate_resource resource store HASH_KIND HASH_RIGHT) of
        Inl e \<Rightarrow> (Inl e, h)
      | Inr _ \<Rightarrow> close_resource_section token T_Closed h)"

end
