(* ===== verification/Hub_Invariant.thy ===== *)
theory Hub_Invariant
  imports Hub_Encoder
begin

text \<open>
  The invariant of the operation hub and its preservation by the primitive changes of state
  from which all locked sections are built. Each group of the invariant is a definition of its
  own; \<open>W\<close> is the set of operations that have ended but whose waiter the current section has
  still to wake.
\<close>

section \<open>Capacity without saturation\<close>

definition op_charge :: "OperationSlot \<Rightarrow> nat" where
  "op_charge op =
     option_length (op_pending_blob_write op) + option_length (op_blob_read_result op)
     + (if op_compiler_output op \<noteq> None then MAX_PROCESS_OUTPUT_CHUNK else 0)"

definition blob_charge :: "(token, ResourceSlot) bt_map \<Rightarrow> nat" where
  "blob_charge m = bt_total (\<lambda>r. blob_capacity (rs_value r)) m"

definition transfer_sum :: "hub \<Rightarrow> nat" where
  "transfer_sum h =
     hub_native_transfer_capacity h + hub_reserved_process_output_bytes h
     + hub_reserved_native_process_output_bytes h
     + blob_charge (hub_resources h) + bt_total op_charge (hub_operations h)"

lemma saturating_add_min: "saturating_add (min a usize_max) b = min (a + b) usize_max"
  by (simp add: saturating_add_def)

lemma foldl_saturating_add:
  "foldl saturating_add (min a usize_max) xs = min (a + sum_list xs) usize_max"
  by (induction xs arbitrary: a) (simp_all add: saturating_add_min add.assoc)

lemma foldl_saturating_add_min:
  "foldl saturating_add (min a usize_max) (map (\<lambda>x. min (f x) usize_max) xs)
     = min (a + sum_list (map f xs)) usize_max"
proof (induction xs arbitrary: a)
  case (Cons x xs)
  have "saturating_add (min a usize_max) (min (f x) usize_max) = min (a + f x) usize_max"
    by (simp add: saturating_add_def)
  with Cons.IH [of "a + f x"] show ?case by (simp add: add.assoc)
qed simp

lemma operation_capacity_charge: "operation_capacity op = min (op_charge op) usize_max"
  by (simp add: operation_capacity_def op_charge_def saturating_add_def)

lemma transfer_capacity_sum: "transfer_capacity h = min (transfer_sum h) usize_max"
proof -
  let ?n = "hub_native_transfer_capacity h + hub_reserved_process_output_bytes h
     + hub_reserved_native_process_output_bytes h"
  have "saturating_add (saturating_add (hub_native_transfer_capacity h)
      (hub_reserved_process_output_bytes h)) (hub_reserved_native_process_output_bytes h)
      = min ?n usize_max"
    by (simp add: saturating_add_def)
  moreover have "map operation_capacity (bt_values (hub_operations h))
      = map (\<lambda>op. min (op_charge op) usize_max) (bt_values (hub_operations h))"
    by (simp add: operation_capacity_charge)
  ultimately have "transfer_capacity h =
      foldl saturating_add (min (?n + sum_list (map (\<lambda>r. blob_capacity (rs_value r))
          (bt_values (hub_resources h)))) usize_max)
        (map (\<lambda>op. min (op_charge op) usize_max) (bt_values (hub_operations h)))"
    unfolding transfer_capacity_def foldl_append by (simp only: foldl_saturating_add)
  then show ?thesis
    by (simp only: foldl_saturating_add_min transfer_sum_def blob_charge_def bt_total_def)
qed

lemma retained_blob_capacity_charge:
  "retained_blob_capacity h = min (blob_charge (hub_resources h)) usize_max"
proof -
  have "foldl (\<lambda>t r. saturating_add t (blob_capacity (rs_value r))) (min a usize_max) rs
      = min (a + sum_list (map (\<lambda>r. blob_capacity (rs_value r)) rs)) usize_max" for a rs
    by (induction rs arbitrary: a) (simp_all add: saturating_add_min add.assoc)
  from this [of 0 "bt_values (hub_resources h)"] show ?thesis
    by (simp add: retained_blob_capacity_def blob_charge_def bt_total_def comp_def)
qed

section \<open>The groups of the invariant\<close>

text \<open>Limits as the constructors build them; no allocation reaches the last address.\<close>

definition limits_ok :: "hub_config \<Rightarrow> bool" where
  "limits_ok c \<longleftrightarrow>
     0 < maximum_chunk_bytes (hc_blob_limits c)
     \<and> maximum_chunk_bytes (hc_blob_limits c) \<le> maximum_blob_bytes (hc_blob_limits c)
     \<and> maximum_blob_bytes (hc_blob_limits c) \<le> maximum_sketch_bytes (hc_blob_limits c)
     \<and> maximum_sketch_bytes (hc_blob_limits c) + 2 * maximum_chunk_bytes (hc_blob_limits c)
         \<le> maximum_transfer_bytes (hc_blob_limits c)
     \<and> maximum_transfer_bytes (hc_blob_limits c) < usize_max"

text \<open>A token names one thing: a resource, an operation or a tombstone, below the counter.\<close>

definition tables_ok :: "hub \<Rightarrow> bool" where
  "tables_ok h \<longleftrightarrow>
     bt_wf (hub_resources h) \<and> bt_wf (hub_operations h)
     \<and> (\<forall>t r. bt_get (hub_resources h) t = Some r \<longrightarrow>
          t \<le> hub_next_opaque_token h \<and> bt_get (hub_operations h) t = None
          \<and> t \<notin> hub_closed_resources h)
     \<and> (\<forall>t op. bt_get (hub_operations h) t = Some op \<longrightarrow>
          t \<le> hub_next_opaque_token h \<and> t \<notin> hub_closed_resources h
          \<and> (\<forall>b. op_resource op = Some b \<longrightarrow> b \<le> hub_next_opaque_token h))
     \<and> (\<forall>t\<in>hub_closed_resources h. t \<le> hub_next_opaque_token h)"

definition quota_ok :: "hub_config \<Rightarrow> hub \<Rightarrow> bool" where
  "quota_ok c h \<longleftrightarrow>
     length (hub_operations h) \<le> hc_maximum_operations c
     \<and> length (hub_resources h) \<le> hc_maximum_resources c
     \<and> live_blobs h \<le> maximum_live_blobs (hc_blob_limits c)
     \<and> pending_read_count h \<le> maximum_pending_reads (hc_blob_limits c)
     \<and> pending_write_count h \<le> maximum_pending_writes (hc_blob_limits c)"

text \<open>A slot is held by one resource at its latest generation, or free, or lost.\<close>

definition slot_table_ok :: "nat list \<Rightarrow> nat \<Rightarrow> (nat \<Rightarrow> nat option) \<Rightarrow> (token \<Rightarrow> ResourceSlot option) \<Rightarrow> bool" where
  "slot_table_ok free upper generation res \<longleftrightarrow>
     distinct free \<and> (\<forall>s\<in>set free. s \<le> upper)
     \<and> (\<forall>t r. res t = Some r \<longrightarrow>
          id_slot (rs_identity r) \<le> upper \<and> id_slot (rs_identity r) \<notin> set free
          \<and> generation (id_slot (rs_identity r)) = Some (id_generation (rs_identity r)))
     \<and> inj_on (\<lambda>t. map_option (\<lambda>r. id_slot (rs_identity r)) (res t)) (dom res)"

definition slots_ok :: "hub \<Rightarrow> bool" where
  "slots_ok h \<longleftrightarrow>
     slot_table_ok (hub_free_resource_slots h) (hub_next_resource_slot h)
       (bt_get (hub_resource_generations h)) (bt_get (hub_resources h))"

lemma slot_table_insert:
  assumes "slot_table_ok free upper generation res" "res t = None"
    "id_slot (rs_identity r) \<le> upper" "id_slot (rs_identity r) \<notin> set free"
    "generation (id_slot (rs_identity r)) = Some (id_generation (rs_identity r))"
    "\<forall>t' r'. res t' = Some r' \<longrightarrow> id_slot (rs_identity r') \<noteq> id_slot (rs_identity r)"
  shows "slot_table_ok free upper generation (res(t \<mapsto> r))"
proof -
  let ?f = "\<lambda>m t. map_option (\<lambda>r. id_slot (rs_identity r)) (m t)"
  have "inj_on (?f res) (dom res)" using assms(1) by (simp add: slot_table_ok_def)
  then have "inj_on (?f (res(t \<mapsto> r))) (dom res)"
    using assms(2) by (subst inj_on_cong [of _ _ "?f res"]) (auto simp: dom_def)
  moreover have "?f (res(t \<mapsto> r)) t \<notin> ?f (res(t \<mapsto> r)) ` (dom res)"
    using assms(2,6) by (force simp: dom_def split: if_splits)
  ultimately have "inj_on (?f (res(t \<mapsto> r))) (dom (res(t \<mapsto> r)))"
    using assms(2) by (simp add: inj_on_insert domIff)
  with assms(1,3-5) show ?thesis unfolding slot_table_ok_def by auto
qed

lemma slot_table_modify:
  assumes "slot_table_ok free upper generation res" "res t = Some r"
    "id_slot (rs_identity r') = id_slot (rs_identity r)"
    "id_generation (rs_identity r') = id_generation (rs_identity r)"
  shows "slot_table_ok free upper generation (res(t \<mapsto> r'))"
proof -
  have "(\<lambda>x. map_option (\<lambda>r. id_slot (rs_identity r)) ((res(t \<mapsto> r')) x))
      = (\<lambda>x. map_option (\<lambda>r. id_slot (rs_identity r)) (res x))"
    using assms(2,3) by (auto simp: fun_eq_iff)
  moreover have "dom (res(t \<mapsto> r')) = dom res" using assms(2) by auto
  ultimately show ?thesis using assms unfolding slot_table_ok_def by auto
qed

lemma slot_table_remove:
  assumes "slot_table_ok free upper generation res" "res t = Some r"
  shows "slot_table_ok (free @ [id_slot (rs_identity r)]) upper generation (res(t := None))"
proof -
  let ?f = "\<lambda>m t. map_option (\<lambda>r. id_slot (rs_identity r)) (m t)"
  have inj: "inj_on (?f res) (dom res)" using assms(1) by (simp add: slot_table_ok_def)
  then have "inj_on (?f res) (dom (res(t := None)))"
    by (rule inj_on_subset) auto
  then have "inj_on (?f (res(t := None))) (dom (res(t := None)))"
    by (subst inj_on_cong [of _ _ "?f res"]) (auto simp: dom_def)
  moreover have "id_slot (rs_identity r') \<noteq> id_slot (rs_identity r)" if "res t' = Some r'" "t' \<noteq> t" for t' r'
    using inj_onD [OF inj, of t' t] that assms(2) by auto
  ultimately show ?thesis using assms unfolding slot_table_ok_def by auto
qed

text \<open>What one resource promises: its kind fits its value, its buffer its bounds, and a blob
  can always be read.\<close>

fun value_kind :: "ResourceValue \<Rightarrow> u8" where
  "value_kind (CompilerGrant _) = GRANT_KIND"
| "value_kind (CompilerProcess _) = PROCESS_KIND"
| "value_kind (Blake3 _) = HASH_KIND"
| "value_kind Synthetic = SYNTHETIC_RESOURCE_KIND"
| "value_kind ExternalWebview = EXTERNAL_WEBVIEW_RESOURCE_KIND"
| "value_kind (WebviewUrl _) = WEBVIEW_URL_RESOURCE_KIND"
| "value_kind (Blob _ _) = BLOB_RESOURCE_KIND"
| "value_kind (ExactOutput _) = OUTPUT_RESOURCE_KIND"

definition value_ok :: "hub_config \<Rightarrow> ResourceValue \<Rightarrow> bool" where
  "value_ok c v \<longleftrightarrow>
     (case v of
        Blob d _ \<Rightarrow> length (dq_bytes d) \<le> dq_capacity d
                    \<and> length (dq_bytes d) \<le> maximum_blob_bytes (hc_blob_limits c)
      | CompilerProcess p \<Rightarrow> cp_output_bytes p \<le> cp_output_limit p
      | _ \<Rightarrow> True)"

definition resource_ok :: "hub_config \<Rightarrow> ResourceSlot \<Rightarrow> bool" where
  "resource_ok c r \<longleftrightarrow>
     id_kind (rs_identity r) = value_kind (rs_value r) \<and> id_scope (rs_identity r) = hc_scope c
     \<and> value_ok c (rs_value r)
     \<and> (is_blob (rs_value r) \<longrightarrow>
          BLOB_RIGHT_READ AND id_rights (rs_identity r) = BLOB_RIGHT_READ)"

definition resources_ok :: "hub_config \<Rightarrow> hub \<Rightarrow> bool" where
  "resources_ok c h \<longleftrightarrow> (\<forall>t r. bt_get (hub_resources h) t = Some r \<longrightarrow> resource_ok c r)"

text \<open>
  What one operation promises: waiting bytes and waiting reads belong to open transfers within
  the chunk bound, and a finished operation holds no cancellation source.
\<close>

definition op_ok :: "hub_config \<Rightarrow> OperationSlot \<Rightarrow> bool" where
  "op_ok c op \<longleftrightarrow>
     (\<forall>bytes. op_pending_blob_write op = Some bytes \<longrightarrow>
        length bytes \<le> maximum_chunk_bytes (hc_blob_limits c) \<and> op_is_blob_write op
        \<and> op_terminal op = None \<and> op_resource op \<noteq> None)
     \<and> (\<forall>n. op_pending_blob_read op = Some n \<longrightarrow>
        0 < n \<and> n \<le> maximum_chunk_bytes (hc_blob_limits c) \<and> op_is_blob_read op
        \<and> op_terminal op = None \<and> op_resource op \<noteq> None)
     \<and> (\<forall>bytes. op_blob_read_result op = Some bytes \<longrightarrow>
        length bytes \<le> maximum_chunk_bytes (hc_blob_limits c) \<and> op_is_blob_read op)
     \<and> (op_terminal op \<noteq> None \<longrightarrow>
        \<not> op_producer_cancel op \<and> \<not> op_progress_timeout_cancel op)
     \<and> (op_compiler_output op \<noteq> None \<longrightarrow> op_is_compiler_read op)"

text \<open>A transfer borrows a blob, as long as its resource lives.\<close>

definition ops_ok :: "hub_config \<Rightarrow> hub \<Rightarrow> bool" where
  "ops_ok c h \<longleftrightarrow>
     (\<forall>t op. bt_get (hub_operations h) t = Some op \<longrightarrow>
        op_ok c op
        \<and> (op_pending_blob_write op \<noteq> None \<or> op_pending_blob_read op \<noteq> None \<longrightarrow>
            (\<forall>b r. op_resource op = Some b \<longrightarrow> bt_get (hub_resources h) b = Some r \<longrightarrow>
               is_blob (rs_value r))))"

text \<open>The byte ledger counts what the blobs hold.\<close>

definition ledger_ok :: "hub_config \<Rightarrow> hub \<Rightarrow> bool" where
  "ledger_ok c h \<longleftrightarrow>
     hub_buffered_blob_bytes h = bt_total (\<lambda>r. blob_length (rs_value r)) (hub_resources h)
     \<and> hub_buffered_blob_bytes h \<le> hub_peak_buffered_blob_bytes h
     \<and> hub_peak_buffered_blob_bytes h \<le> maximum_sketch_bytes (hc_blob_limits c)
     \<and> blob_charge (hub_resources h) \<le> maximum_sketch_bytes (hc_blob_limits c)
     \<and> pending_write_bytes h \<le> maximum_sketch_bytes (hc_blob_limits c)
     \<and> completed_read_bytes h \<le> maximum_sketch_bytes (hc_blob_limits c)"

definition transfer_ok :: "hub_config \<Rightarrow> hub \<Rightarrow> bool" where
  "transfer_ok c h \<longleftrightarrow>
     transfer_sum h \<le> hub_peak_retained_transfer_capacity h
     \<and> hub_peak_retained_transfer_capacity h \<le> maximum_transfer_bytes (hc_blob_limits c)"

definition tombstones_ok :: "hub \<Rightarrow> bool" where
  "tombstones_ok h \<longleftrightarrow>
     length (hub_closed_resource_order h) \<le> MAX_CLOSED_TOMBSTONES
     \<and> distinct (hub_closed_resource_order h)
     \<and> set (hub_closed_resource_order h) = hub_closed_resources h"

definition closed_ok :: "hub \<Rightarrow> bool" where
  "closed_ok h \<longleftrightarrow>
     (hub_closed h \<longrightarrow> hub_resources h = []
        \<and> (\<forall>t op. bt_get (hub_operations h) t = Some op \<longrightarrow> op_terminal op \<noteq> None))"

definition wakes_ok :: "token set \<Rightarrow> hub \<Rightarrow> bool" where
  "wakes_ok W h \<longleftrightarrow>
     (\<forall>t op. bt_get (hub_operations h) t = Some op \<longrightarrow> op_terminal op \<noteq> None \<longrightarrow>
        t \<in> W \<or> Notified t \<in> set (hub_log h))"

text \<open>
  A blob that is being committed is sealed and no open operation borrows it; reads and waits of a
  compiler borrow no blob.
\<close>

definition reads_process :: "OperationSlot \<Rightarrow> bool" where
  "reads_process op \<longleftrightarrow> op_is_compiler_read op \<or> op_compiler_scalar op = Some Wait"

lemma reads_process_simps [simp]:
  "reads_process (op\<lparr>op_is_blob_read := x\<rparr>) = reads_process op"
  "reads_process (op\<lparr>op_is_blob_write := x\<rparr>) = reads_process op"
  "reads_process (op\<lparr>op_pending_blob_read := m\<rparr>) = reads_process op"
  "reads_process (op\<lparr>op_pending_blob_write := w\<rparr>) = reads_process op"
  "reads_process (op\<lparr>op_blob_read_result := bs\<rparr>) = reads_process op"
  "reads_process (op\<lparr>op_compiler_output := e\<rparr>) = reads_process op"
  by (simp_all add: reads_process_def)

fun is_sealed :: "ResourceValue \<Rightarrow> bool" where
  "is_sealed (Blob _ sealed) = sealed"
| "is_sealed _ = False"

lemma is_sealed_blob: "is_sealed v \<Longrightarrow> is_blob v"
  by (cases v) simp_all

definition commits_ok :: "hub \<Rightarrow> bool" where
  "commits_ok h \<longleftrightarrow>
     (\<forall>b r. bt_get (hub_resources h) b = Some r \<longrightarrow> rs_committing r \<longrightarrow> is_sealed (rs_value r))
     \<and> (\<forall>t op b r. bt_get (hub_operations h) t = Some op \<longrightarrow> op_resource op = Some b \<longrightarrow>
          bt_get (hub_resources h) b = Some r \<longrightarrow>
          (rs_committing r \<longrightarrow> op_terminal op \<noteq> None)
          \<and> (reads_process op \<longrightarrow> \<not> is_blob (rs_value r)))"

definition hub_inv :: "hub_config \<Rightarrow> token set \<Rightarrow> hub \<Rightarrow> bool" where
  "hub_inv c W h \<longleftrightarrow>
     tables_ok h \<and> quota_ok c h \<and> slots_ok h \<and> resources_ok c h \<and> ops_ok c h \<and> ledger_ok c h
     \<and> transfer_ok c h \<and> tombstones_ok h \<and> closed_ok h \<and> wakes_ok W h \<and> commits_ok h"

lemma hub_invI:
  "tables_ok h \<Longrightarrow> quota_ok c h \<Longrightarrow> slots_ok h \<Longrightarrow> resources_ok c h \<Longrightarrow> ops_ok c h \<Longrightarrow> ledger_ok c h
   \<Longrightarrow> transfer_ok c h \<Longrightarrow> tombstones_ok h \<Longrightarrow> closed_ok h \<Longrightarrow> wakes_ok W h \<Longrightarrow> commits_ok h
   \<Longrightarrow> hub_inv c W h"
  by (simp add: hub_inv_def)

lemma hub_invD:
  assumes "hub_inv c W h"
  shows "tables_ok h" "quota_ok c h" "slots_ok h" "resources_ok c h" "ops_ok c h" "ledger_ok c h"
    "transfer_ok c h" "tombstones_ok h" "closed_ok h" "wakes_ok W h"
    "bt_wf (hub_resources h)" "bt_wf (hub_operations h)" "commits_ok h"
  using assms by (simp_all add: hub_inv_def tables_ok_def)

lemmas hub_inv_group_defs = tables_ok_def quota_ok_def slots_ok_def resources_ok_def ops_ok_def
  ledger_ok_def transfer_ok_def tombstones_ok_def closed_ok_def wakes_ok_def commits_ok_def live_blobs_def
  pending_read_count_def pending_write_count_def pending_write_bytes_def
  completed_read_bytes_def transfer_sum_def

lemma hub_inv_new: "hub_inv c {} (hub_new counter)"
  by (simp add: hub_inv_def hub_inv_group_defs slot_table_ok_def hub_new_def blob_charge_def)

lemma wakes_mono: "hub_inv c W h \<Longrightarrow> W \<subseteq> W' \<Longrightarrow> hub_inv c W' h"
  by (auto simp: hub_inv_def wakes_ok_def)

section \<open>Changes outside of the tables\<close>

lemma hub_inv_counters [simp]:
  "hub_inv c W (h\<lparr>hub_suspends := x\<rparr>) = hub_inv c W h"
  "hub_inv c W (h\<lparr>hub_resumes := x\<rparr>) = hub_inv c W h"
  "hub_inv c W (h\<lparr>hub_jobs := j\<rparr>) = hub_inv c W h"
  "hub_inv c W (h\<lparr>hub_process_jobs := tj\<rparr>) = hub_inv c W h"
  "hub_inv c W (h\<lparr>hub_process_io_jobs := tj\<rparr>) = hub_inv c W h"
  "hub_inv c W (h\<lparr>hub_process_job_failed := b\<rparr>) = hub_inv c W h"
  "hub_inv c W (h\<lparr>hub_output_jobs := tj\<rparr>) = hub_inv c W h"
  "hub_inv c W (h\<lparr>hub_cleanups := cl\<rparr>) = hub_inv c W h"
  "hub_inv c W (h\<lparr>hub_output_job_failed := b\<rparr>) = hub_inv c W h"
  "hub_inv c W (h\<lparr>hub_output_job_count := x\<rparr>) = hub_inv c W h"
  "hub_inv c W (h\<lparr>hub_native_capture_count := x\<rparr>) = hub_inv c W h"
  "hub_inv c W (h\<lparr>hub_native_open_count := x\<rparr>) = hub_inv c W h"
  "hub_inv c W (h\<lparr>hub_clock_count := x\<rparr>) = hub_inv c W h"
  by (simp_all add: hub_inv_def hub_inv_group_defs)

lemma groups_log [simp]:
  "tables_ok (h\<lparr>hub_log := l\<rparr>) = tables_ok h" "quota_ok c (h\<lparr>hub_log := l\<rparr>) = quota_ok c h"
  "slots_ok (h\<lparr>hub_log := l\<rparr>) = slots_ok h" "resources_ok c (h\<lparr>hub_log := l\<rparr>) = resources_ok c h"
  "ops_ok c (h\<lparr>hub_log := l\<rparr>) = ops_ok c h" "ledger_ok c (h\<lparr>hub_log := l\<rparr>) = ledger_ok c h"
  "transfer_ok c (h\<lparr>hub_log := l\<rparr>) = transfer_ok c h"
  "tombstones_ok (h\<lparr>hub_log := l\<rparr>) = tombstones_ok h" "closed_ok (h\<lparr>hub_log := l\<rparr>) = closed_ok h"
  "commits_ok (h\<lparr>hub_log := l\<rparr>) = commits_ok h"
  by (simp_all add: hub_inv_group_defs)

lemma hub_inv_log: "hub_inv c W h \<Longrightarrow> hub_inv c W (h\<lparr>hub_log := hub_log h @ es\<rparr>)"
  by (auto simp: hub_inv_def wakes_ok_def)

lemma hub_inv_notify_all: "hub_inv c (set ts \<union> W) h \<Longrightarrow> hub_inv c W (notify_all ts h)"
proof -
  assume "hub_inv c (set ts \<union> W) h"
  then have "hub_inv c (set ts \<union> W) (notify_all ts h)"
    unfolding notify_all_def by (rule hub_inv_log)
  then show ?thesis
    by (auto simp: hub_inv_def wakes_ok_def notify_all_def)
qed

lemma hub_inv_reports:
  "hub_inv c W h \<Longrightarrow> hub_inv c W (report_progress b h)"
  "hub_inv c W h \<Longrightarrow> hub_inv c W (report_all_progress bs h)"
  "hub_inv c W h \<Longrightarrow> hub_inv c W (notify_one t h)"
  "hub_inv c W h \<Longrightarrow> hub_inv c W (launch_job j h)"
  by (simp_all add: report_progress_def report_all_progress_def notify_one_def launch_job_def
      hub_inv_log)

lemma hub_inv_notify_option:
  "hub_inv c (set_option n \<union> W) h \<Longrightarrow> hub_inv c W (notify_option n h)"
  using hub_inv_notify_all [of c "case n of None \<Rightarrow> [] | Some t \<Rightarrow> [t]" W h]
  by (cases n) (simp_all add: notify_option_def notify_all_def notify_one_def)

lemma groups_counter [simp]:
  "quota_ok c (h\<lparr>hub_next_opaque_token := n\<rparr>) = quota_ok c h"
  "slots_ok (h\<lparr>hub_next_opaque_token := n\<rparr>) = slots_ok h"
  "resources_ok c (h\<lparr>hub_next_opaque_token := n\<rparr>) = resources_ok c h"
  "ops_ok c (h\<lparr>hub_next_opaque_token := n\<rparr>) = ops_ok c h"
  "ledger_ok c (h\<lparr>hub_next_opaque_token := n\<rparr>) = ledger_ok c h"
  "transfer_ok c (h\<lparr>hub_next_opaque_token := n\<rparr>) = transfer_ok c h"
  "tombstones_ok (h\<lparr>hub_next_opaque_token := n\<rparr>) = tombstones_ok h"
  "closed_ok (h\<lparr>hub_next_opaque_token := n\<rparr>) = closed_ok h"
  "wakes_ok W (h\<lparr>hub_next_opaque_token := n\<rparr>) = wakes_ok W h"
  "commits_ok (h\<lparr>hub_next_opaque_token := n\<rparr>) = commits_ok h"
  by (simp_all add: hub_inv_group_defs)

lemma tables_counter_grows:
  "tables_ok h \<Longrightarrow> hub_next_opaque_token h \<le> n \<Longrightarrow> tables_ok (h\<lparr>hub_next_opaque_token := n\<rparr>)"
  unfolding tables_ok_def by simp (meson le_trans)

lemma hub_inv_counter_grows:
  "hub_inv c W h \<Longrightarrow> hub_next_opaque_token h \<le> n \<Longrightarrow> hub_inv c W (h\<lparr>hub_next_opaque_token := n\<rparr>)"
  by (simp add: hub_inv_def tables_counter_grows)

section \<open>Changes of the operation table\<close>

lemma bt_count_modify_le_at:
  assumes "bt_wf m" "bt_get m k = Some v" "P (f v) \<Longrightarrow> P v"
  shows "bt_count P (bt_modify k f m) \<le> bt_count P m"
  unfolding bt_count_total using assms by (intro bt.total_modify_le) auto

lemma bt_count_remove_le: "bt_wf m \<Longrightarrow> bt_count P (bt_remove k m) \<le> bt_count P m"
  unfolding bt_count_total by (rule bt.total_remove_le)

lemma groups_operations [simp]:
  "slots_ok (h\<lparr>hub_operations := m\<rparr>) = slots_ok h"
  "resources_ok c (h\<lparr>hub_operations := m\<rparr>) = resources_ok c h"
  "tombstones_ok (h\<lparr>hub_operations := m\<rparr>) = tombstones_ok h"
  by (simp_all add: hub_inv_group_defs)

text \<open>An operation only gives back: no more charge, no new wait, same resource.\<close>

definition op_step :: "hub_config \<Rightarrow> OperationSlot \<Rightarrow> OperationSlot \<Rightarrow> bool" where
  "op_step c op op' \<longleftrightarrow>
     op_ok c op' \<and> op_charge op' \<le> op_charge op
     \<and> option_length (op_pending_blob_write op') \<le> option_length (op_pending_blob_write op)
     \<and> option_length (op_blob_read_result op') \<le> option_length (op_blob_read_result op)
     \<and> (op_pending_blob_write op' \<noteq> None \<longrightarrow> op_pending_blob_write op \<noteq> None)
     \<and> (op_pending_blob_read op' \<noteq> None \<longrightarrow> op_pending_blob_read op \<noteq> None)
     \<and> op_resource op' = op_resource op
     \<and> (op_terminal op \<noteq> None \<longrightarrow> op_terminal op' \<noteq> None)"

text \<open>Only an operation on something else than a blob becomes a read of a process.\<close>

definition role_ok :: "hub \<Rightarrow> OperationSlot \<Rightarrow> OperationSlot \<Rightarrow> bool" where
  "role_ok h op op' \<longleftrightarrow>
     (reads_process op' \<longrightarrow> reads_process op
        \<or> (\<forall>b r. op_resource op = Some b \<longrightarrow> bt_get (hub_resources h) b = Some r \<longrightarrow> \<not> is_blob (rs_value r)))"

lemma update_operation_absent:
  "bt_get (hub_operations h) t = None \<Longrightarrow> update_operation t f h = h"
  by (simp add: update_operation_def bt_modify_absent)

lemma hub_inv_update_operation:
  assumes inv: "hub_inv c W h" and op: "bt_get (hub_operations h) t = Some op"
    and step: "op_step c op (f op)"
    and wake: "op_terminal (f op) \<noteq> None \<Longrightarrow> op_terminal op \<noteq> None \<or> t \<in> W"
    and role: "role_ok h op (f op)"
  shows "hub_inv c W (update_operation t f h)"
proof (rule hub_invI)
  note D = hub_invD [OF inv] and S = step [unfolded op_step_def]
  note wf = D(12)
  show "tables_ok (update_operation t f h)"
    using D(1) op S by (auto simp: tables_ok_def update_operation_def)
  show "quota_ok c (update_operation t f h)"
    using D(2) S bt_count_modify_le_at [OF wf op, of "\<lambda>op. op_pending_blob_read op \<noteq> None" f]
      bt_count_modify_le_at [OF wf op, of "\<lambda>op. op_pending_blob_write op \<noteq> None" f]
    unfolding quota_ok_def update_operation_def live_blobs_def pending_read_count_def
      pending_write_count_def by (simp del: not_None_eq)
  show "slots_ok (update_operation t f h)" using D(3) by (simp add: update_operation_def)
  show "resources_ok c (update_operation t f h)" using D(4) by (simp add: update_operation_def)
  show "tombstones_ok (update_operation t f h)" using D(8) by (simp add: update_operation_def)
  show "ops_ok c (update_operation t f h)"
    using D(5) S op by (auto simp: ops_ok_def update_operation_def)
  have le: "bt_total w (bt_modify t f (hub_operations h)) \<le> bt_total w (hub_operations h)"
    if "w (f op) \<le> w op" for w :: "OperationSlot \<Rightarrow> nat"
    using that op wf by (intro bt.total_modify_le) auto
  show "ledger_ok c (update_operation t f h)"
    using D(6) S le [of "\<lambda>op. option_length (op_pending_blob_write op)"]
      le [of "\<lambda>op. option_length (op_blob_read_result op)"]
    by (simp add: ledger_ok_def update_operation_def pending_write_bytes_def completed_read_bytes_def)
  show "transfer_ok c (update_operation t f h)"
    using D(7) S le [of op_charge]
    by (simp add: transfer_ok_def update_operation_def transfer_sum_def)
  show "closed_ok (update_operation t f h)"
    using D(9) S op by (auto simp: closed_ok_def update_operation_def)
  show "wakes_ok W (update_operation t f h)"
    using D(10) wake op by (auto simp: wakes_ok_def update_operation_def)
  show "commits_ok (update_operation t f h)"
    using D(13) S op role by (auto simp: commits_ok_def role_ok_def update_operation_def)
qed

lemma hub_inv_remove_operation:
  assumes inv: "hub_inv c W h"
  shows "hub_inv c W (remove_operation t h)"
proof (rule hub_invI)
  note D = hub_invD [OF inv]
  note wf = D(12)
  show "tables_ok (remove_operation t h)"
    using D(1) bt_wf_remove [of "hub_operations h" t]
    by (auto simp: tables_ok_def remove_operation_def)
  show "quota_ok c (remove_operation t h)"
    using D(2) length_bt_remove_le [of t "hub_operations h"]
      bt_count_remove_le [OF wf, of "\<lambda>op. op_pending_blob_read op \<noteq> None" t]
      bt_count_remove_le [OF wf, of "\<lambda>op. op_pending_blob_write op \<noteq> None" t]
    unfolding quota_ok_def remove_operation_def live_blobs_def pending_read_count_def
      pending_write_count_def by (simp del: not_None_eq)
  show "slots_ok (remove_operation t h)" using D(3) by (simp add: remove_operation_def)
  show "resources_ok c (remove_operation t h)" using D(4) by (simp add: remove_operation_def)
  show "tombstones_ok (remove_operation t h)" using D(8) by (simp add: remove_operation_def)
  show "ops_ok c (remove_operation t h)"
    using D(5) by (auto simp: ops_ok_def remove_operation_def)
  show "ledger_ok c (remove_operation t h)"
    using D(6) bt.total_remove_le [OF wf]
    by (auto simp: ledger_ok_def remove_operation_def pending_write_bytes_def
        completed_read_bytes_def intro: le_trans)
  show "transfer_ok c (remove_operation t h)"
    using D(7) bt.total_remove_le [OF wf, of op_charge t]
    by (simp add: transfer_ok_def remove_operation_def transfer_sum_def)
  show "closed_ok (remove_operation t h)"
    using D(9) by (auto simp: closed_ok_def remove_operation_def)
  show "wakes_ok W (remove_operation t h)"
    using D(10) by (auto simp: wakes_ok_def remove_operation_def)
  show "commits_ok (remove_operation t h)"
    using D(13) by (auto simp: commits_ok_def remove_operation_def)
qed

text \<open>A new operation, under a token above all others, charges nothing.\<close>

lemma new_operation_simps [simp]:
  "op_ok c (new_operation store resource rights)"
  "op_charge (new_operation store resource rights) = 0"
  "op_terminal (new_operation store resource rights) = None"
  "op_pending_blob_write (new_operation store resource rights) = None"
  "op_pending_blob_read (new_operation store resource rights) = None"
  "op_blob_read_result (new_operation store resource rights) = None"
  "op_resource (new_operation store resource rights) = resource"
  "op_store (new_operation store resource rights) = store"
  "op_created_resource (new_operation store resource rights) = None"
  "op_is_blob_read (new_operation store resource rights) = False"
  "op_is_blob_write (new_operation store resource rights) = False"
  "\<not> reads_process (new_operation store resource rights)"
  by (simp_all add: new_operation_def reads_process_def op_ok_def op_charge_def option_length_def)

lemma bt_count_insert:
  "bt_wf m \<Longrightarrow> bt_get m k = None \<Longrightarrow> bt_count P (bt_insert k v m) = bt_count P m + (if P v then 1 else 0)"
  unfolding bt_count_total by (simp add: bt.total_insert)

lemma hub_inv_insert_operation:
  assumes inv: "hub_inv c W h" and unclosed: "\<not> hub_closed h"
    and room: "length (hub_operations h) < hc_maximum_operations c"
    and fresh: "\<And>r. bt_get (hub_resources h) t \<noteq> Some r" "bt_get (hub_operations h) t = None"
      "t \<notin> hub_closed_resources h" "t \<le> hub_next_opaque_token h"
    and resource: "\<And>b. resource = Some b \<Longrightarrow> b \<le> hub_next_opaque_token h"
      "\<And>b r. resource = Some b \<Longrightarrow> bt_get (hub_resources h) b = Some r \<Longrightarrow> \<not> rs_committing r"
  shows "hub_inv c W (h\<lparr>hub_operations :=
           bt_insert t (new_operation store resource rights) (hub_operations h)\<rparr>)"
proof (rule hub_invI)
  note D = hub_invD [OF inv]
  note wf = D(12)
  let ?o = "new_operation store resource rights"
  let ?h = "h\<lparr>hub_operations := bt_insert t ?o (hub_operations h)\<rparr>"
  show "tables_ok ?h"
    using D(1) fresh resource(1) bt_wf_insert [OF wf, of t ?o] by (auto simp: tables_ok_def)
  show "quota_ok c ?h"
    using D(2) room
    by (simp add: quota_ok_def live_blobs_def pending_read_count_def pending_write_count_def
        bt_count_insert [OF wf fresh(2)] length_bt_insert [OF wf fresh(2)])
  show "slots_ok ?h" "resources_ok c ?h" "tombstones_ok ?h" using D(3,4,8) by simp_all
  show "ops_ok c ?h" using D(5) by (auto simp: ops_ok_def)
  show "ledger_ok c ?h"
    using D(6) by (simp add: ledger_ok_def pending_write_bytes_def completed_read_bytes_def
        bt.total_insert [OF wf fresh(2)] option_length_def)
  show "transfer_ok c ?h"
    using D(7) by (simp add: transfer_ok_def transfer_sum_def bt.total_insert [OF wf fresh(2)])
  show "closed_ok ?h" using unclosed by (simp add: closed_ok_def)
  show "wakes_ok W ?h" using D(10) by (auto simp: wakes_ok_def)
  show "commits_ok ?h" using D(13) resource(2) by (auto simp: commits_ok_def)
qed

section \<open>Changes of the resource table\<close>

lemma groups_resources [simp]:
  "tombstones_ok (h\<lparr>hub_resources := m\<rparr>) = tombstones_ok h"
  "wakes_ok W (h\<lparr>hub_resources := m\<rparr>) = wakes_ok W h"
  "pending_write_bytes (h\<lparr>hub_resources := m\<rparr>) = pending_write_bytes h"
  "completed_read_bytes (h\<lparr>hub_resources := m\<rparr>) = completed_read_bytes h"
  "pending_write_count (h\<lparr>hub_resources := m\<rparr>) = pending_write_count h"
  "pending_read_count (h\<lparr>hub_resources := m\<rparr>) = pending_read_count h"
  by (simp_all add: hub_inv_group_defs)

text \<open>A resource keeps its slot, its generation, its kind of value and its bytes.\<close>

definition resource_step :: "hub_config \<Rightarrow> ResourceSlot \<Rightarrow> ResourceSlot \<Rightarrow> bool" where
  "resource_step c r r' \<longleftrightarrow>
     resource_ok c r' \<and> id_slot (rs_identity r') = id_slot (rs_identity r)
     \<and> id_generation (rs_identity r') = id_generation (rs_identity r)
     \<and> blob_length (rs_value r') = blob_length (rs_value r)
     \<and> blob_capacity (rs_value r') \<le> blob_capacity (rs_value r)
     \<and> is_blob (rs_value r') = is_blob (rs_value r)
     \<and> (rs_committing r' \<longrightarrow> rs_committing r)
     \<and> (is_sealed (rs_value r) \<longrightarrow> is_sealed (rs_value r'))"

lemma update_resource_absent:
  "bt_get (hub_resources h) t = None \<Longrightarrow> update_resource t f h = h"
  by (simp add: update_resource_def bt_modify_absent)

lemma get_update_resource:
  "bt_get (hub_resources h) t = Some r \<Longrightarrow>
     bt_get (hub_resources (update_resource t f h)) = (bt_get (hub_resources h))(t \<mapsto> f r)"
  by (auto simp: fun_eq_iff update_resource_def)

text \<open>The groups that do not read buffers, for a change that keeps slots and kinds.\<close>

lemma groups_update_resource:
  assumes inv: "hub_inv c W h" and r: "bt_get (hub_resources h) t = Some r"
    and f: "resource_ok c (f r)" "id_slot (rs_identity (f r)) = id_slot (rs_identity r)"
      "id_generation (rs_identity (f r)) = id_generation (rs_identity r)"
      "is_blob (rs_value (f r)) = is_blob (rs_value r)"
  shows "tables_ok (update_resource t f h)" "quota_ok c (update_resource t f h)"
    "slots_ok (update_resource t f h)" "resources_ok c (update_resource t f h)"
    "ops_ok c (update_resource t f h)" "tombstones_ok (update_resource t f h)"
    "closed_ok (update_resource t f h)" "wakes_ok W (update_resource t f h)"
proof -
  note D = hub_invD [OF inv]
  show "tables_ok (update_resource t f h)"
    using D(1) r by (auto simp: tables_ok_def update_resource_def)
  have "bt_total (\<lambda>r. if is_blob (rs_value r) then 1 else 0) (bt_modify t f (hub_resources h))
      = bt_total (\<lambda>r. if is_blob (rs_value r) then 1 else 0) (hub_resources h)"
    using r f(4) by (intro bt.total_modify_same [OF D(11)]) simp
  then show "quota_ok c (update_resource t f h)"
    using D(2) by (simp add: quota_ok_def update_resource_def live_blobs_def bt_count_total)
  show "slots_ok (update_resource t f h)"
    using slot_table_modify [OF D(3) [unfolded slots_ok_def] r f(2,3)]
    unfolding slots_ok_def get_update_resource [OF r] by (simp add: update_resource_def)
  show "resources_ok c (update_resource t f h)"
    using D(4) r f(1) by (auto simp: resources_ok_def update_resource_def)
  show "ops_ok c (update_resource t f h)"
    using D(5) r f(4) by (fastforce simp: ops_ok_def update_resource_def split: if_splits)
  show "tombstones_ok (update_resource t f h)" "wakes_ok W (update_resource t f h)"
    using D(8,10) by (simp_all add: update_resource_def)
  show "closed_ok (update_resource t f h)"
    using D(9) r by (auto simp: closed_ok_def update_resource_def)
qed

lemma commits_update_resource:
  assumes "commits_ok h" "bt_get (hub_resources h) t = Some r"
    "is_blob (rs_value (f r)) = is_blob (rs_value r)" "rs_committing (f r) \<Longrightarrow> rs_committing r"
    "is_sealed (rs_value r) \<Longrightarrow> is_sealed (rs_value (f r))"
  shows "commits_ok (update_resource t f h)"
  using assms by (auto simp: commits_ok_def update_resource_def split: if_splits)

lemma hub_inv_update_resource:
  assumes inv: "hub_inv c W h" and r: "bt_get (hub_resources h) t = Some r"
    and step: "resource_step c r (f r)"
  shows "hub_inv c W (update_resource t f h)"
proof -
  note D = hub_invD [OF inv] and S = step [unfolded resource_step_def]
  have len: "bt_total (\<lambda>r. blob_length (rs_value r)) (bt_modify t f (hub_resources h))
      = bt_total (\<lambda>r. blob_length (rs_value r)) (hub_resources h)"
    using r S by (intro bt.total_modify_same [OF D(11)]) simp
  have cap: "blob_charge (bt_modify t f (hub_resources h)) \<le> blob_charge (hub_resources h)"
    unfolding blob_charge_def using r S by (intro bt.total_modify_le [OF D(11)]) simp
  have "ledger_ok c (update_resource t f h)"
    using D(6) len cap by (simp add: ledger_ok_def update_resource_def)
  moreover have "transfer_ok c (update_resource t f h)"
    using D(7) cap by (simp add: transfer_ok_def transfer_sum_def update_resource_def)
  ultimately show ?thesis
    using groups_update_resource [OF inv r, of f] commits_update_resource [OF D(13) r, of f] S
    by (intro hub_invI) simp_all
qed

text \<open>Removing a resource returns its bytes and its slot.\<close>

definition without_resource :: "token \<Rightarrow> ResourceSlot \<Rightarrow> hub \<Rightarrow> hub" where
  "without_resource t r h =
     h\<lparr>hub_resources := bt_remove t (hub_resources h),
       hub_buffered_blob_bytes := hub_buffered_blob_bytes h - blob_length (rs_value r),
       hub_free_resource_slots := hub_free_resource_slots h @ [id_slot (rs_identity r)]\<rparr>"

lemma hub_inv_without_resource:
  assumes inv: "hub_inv c W h" and r: "bt_get (hub_resources h) t = Some r"
  shows "hub_inv c W (without_resource t r h)"
proof (rule hub_invI)
  note D = hub_invD [OF inv]
  note wf = D(11)
  show "tables_ok (without_resource t r h)"
    using D(1) bt_wf_remove [OF wf, of t] by (auto simp: tables_ok_def without_resource_def)
  show "quota_ok c (without_resource t r h)"
    using D(2) bt_count_remove_le [OF wf, of "\<lambda>r. is_blob (rs_value r)" t]
      length_bt_remove_le [of t "hub_resources h"]
    by (simp add: quota_ok_def without_resource_def live_blobs_def pending_read_count_def
        pending_write_count_def)
  show "slots_ok (without_resource t r h)"
    using slot_table_remove [OF D(3) [unfolded slots_ok_def] r]
    by (simp add: slots_ok_def without_resource_def)
  show "resources_ok c (without_resource t r h)"
    using D(4) by (auto simp: resources_ok_def without_resource_def)
  show "ops_ok c (without_resource t r h)"
    using D(5) by (auto simp: ops_ok_def without_resource_def split: if_splits)
  have cap: "blob_charge (bt_remove t (hub_resources h)) \<le> blob_charge (hub_resources h)"
    unfolding blob_charge_def by (rule bt.total_remove_le [OF wf])
  show "ledger_ok c (without_resource t r h)"
    using D(6) cap bt.total_remove_minus [OF wf r, of "\<lambda>r. blob_length (rs_value r)"]
    by (auto simp: ledger_ok_def without_resource_def pending_write_bytes_def completed_read_bytes_def)
  show "transfer_ok c (without_resource t r h)"
    using D(7) cap by (simp add: transfer_ok_def transfer_sum_def without_resource_def)
  show "tombstones_ok (without_resource t r h)"
    using D(8) by (simp add: tombstones_ok_def without_resource_def)
  show "closed_ok (without_resource t r h)"
    using D(9) r by (auto simp: closed_ok_def without_resource_def)
  show "wakes_ok W (without_resource t r h)"
    using D(10) by (simp add: wakes_ok_def without_resource_def)
  show "commits_ok (without_resource t r h)"
    using D(13) by (auto simp: commits_ok_def without_resource_def split: if_splits)
qed

lemma release_reservation_without:
  "release_reservation t h =
     (case bt_get (hub_resources h) t of
        None \<Rightarrow> h
      | Some r \<Rightarrow> (without_resource t r h)\<lparr>hub_log := hub_log h @ drop_events t r\<rparr>)"
  by (simp add: release_reservation_def without_resource_def split: option.splits)

lemma hub_inv_release_reservation:
  assumes "hub_inv c W h"
  shows "hub_inv c W (release_reservation t h)"
proof (cases "bt_get (hub_resources h) t")
  case None
  with assms show ?thesis by (simp add: release_reservation_without)
next
  case (Some r)
  have "hub_log (without_resource t r h) = hub_log h" by (simp add: without_resource_def)
  then show ?thesis
    using hub_inv_log [OF hub_inv_without_resource [OF assms Some], of "drop_events t r"] Some
    by (simp add: release_reservation_without)
qed

text \<open>Inserting a resource in a slot that is neither live nor free.\<close>

lemma hub_inv_insert_resource:
  assumes inv: "hub_inv c W h" and unclosed: "\<not> hub_closed h"
    and room: "length (hub_resources h) < hc_maximum_resources c"
      "is_blob (rs_value r) \<Longrightarrow> live_blobs h < maximum_live_blobs (hc_blob_limits c)"
    and fresh: "bt_get (hub_resources h) t = None" "bt_get (hub_operations h) t = None"
      "t \<notin> hub_closed_resources h" "t \<le> hub_next_opaque_token h"
      "\<And>t' op. bt_get (hub_operations h) t' = Some op \<Longrightarrow> op_resource op \<noteq> Some t"
    and slot: "id_slot (rs_identity r) \<le> hub_next_resource_slot h"
      "id_slot (rs_identity r) \<notin> set (hub_free_resource_slots h)"
      "bt_get (hub_resource_generations h) (id_slot (rs_identity r)) = Some (id_generation (rs_identity r))"
      "\<And>t' r'. bt_get (hub_resources h) t' = Some r' \<Longrightarrow> id_slot (rs_identity r') \<noteq> id_slot (rs_identity r)"
    and r: "resource_ok c r" "blob_length (rs_value r) = 0" "blob_capacity (rs_value r) = 0"
      "\<not> rs_committing r"
  shows "hub_inv c W (insert_resource t r h)"
proof (rule hub_invI)
  note D = hub_invD [OF inv]
  note wf = D(11)
  show "tables_ok (insert_resource t r h)"
    using D(1) fresh bt_wf_insert [OF wf, of t r] by (auto simp: tables_ok_def insert_resource_def)
  show "quota_ok c (insert_resource t r h)"
    using D(2) room
    by (auto simp: quota_ok_def insert_resource_def live_blobs_def bt_count_insert [OF wf fresh(1)]
        length_bt_insert [OF wf fresh(1)])
  show "slots_ok (insert_resource t r h)"
    using slot_table_insert [OF D(3) [unfolded slots_ok_def] fresh(1) slot(1-3)] slot(4)
    by (simp add: slots_ok_def insert_resource_def)
  show "resources_ok c (insert_resource t r h)"
    using D(4) r by (auto simp: resources_ok_def insert_resource_def)
  show "ops_ok c (insert_resource t r h)"
    using D(5) fresh(5) by (auto simp: ops_ok_def insert_resource_def)
  show "ledger_ok c (insert_resource t r h)"
    using D(6) r by (simp add: ledger_ok_def insert_resource_def blob_charge_def
        bt.total_insert [OF wf fresh(1)])
  show "transfer_ok c (insert_resource t r h)"
    using D(7) r by (simp add: transfer_ok_def transfer_sum_def insert_resource_def blob_charge_def
        bt.total_insert [OF wf fresh(1)])
  show "tombstones_ok (insert_resource t r h)" "wakes_ok W (insert_resource t r h)"
    using D(8,10) by (simp_all add: insert_resource_def)
  show "closed_ok (insert_resource t r h)"
    using unclosed by (simp add: closed_ok_def insert_resource_def)
  show "commits_ok (insert_resource t r h)"
    using D(13) fresh(5) r(4) by (auto simp: commits_ok_def insert_resource_def)
qed

end
