(* ===== verification/Hub_Track.thy ===== *)
theory Hub_Track
  imports Hub_Invariant
begin

text \<open>
  How the hub may change over time. \<open>evolves\<close> relates a state to a later one: tokens are never
  reused, what a token names keeps its identity, rights and contents only change in the permitted
  direction, a terminal result is final, and a blob that is being committed keeps its value; \<open>ages\<close>
  leaves out the last point, for the reads of the commit itself. \<open>tracks\<close> and \<open>follows\<close> carry the two
  together with the invariant through the primitive changes of state.
\<close>

section \<open>Evolution of one resource and one operation\<close>

fun value_evolves :: "ResourceValue \<Rightarrow> ResourceValue \<Rightarrow> bool" where
  "value_evolves (Blob d sealed) (Blob d' sealed') \<longleftrightarrow>
     (sealed \<longrightarrow> sealed' \<and> (\<exists>n. dq_bytes d' = drop n (dq_bytes d)))"
| "value_evolves (CompilerGrant g) (CompilerGrant g') \<longleftrightarrow>
     g' = g \<or> g' = g\<lparr>cg_spec := None\<rparr>"
| "value_evolves (CompilerProcess p) (CompilerProcess p') \<longleftrightarrow>
     cp_output_bytes p \<le> cp_output_bytes p' \<and> cp_output_limit p' = cp_output_limit p"
| "value_evolves (Blake3 seen) (Blake3 seen') \<longleftrightarrow> (\<exists>bytes. seen' = seen @ bytes)"
| "value_evolves v v' \<longleftrightarrow> v' = v"

lemma value_evolves_refl [simp]: "value_evolves v v"
  by (cases v) (auto intro: exI [of _ 0])

lemma value_evolves_trans: "value_evolves u v \<Longrightarrow> value_evolves v w \<Longrightarrow> value_evolves u w"
proof (induction u v rule: value_evolves.induct)
  case (1 d s d' s')
  then show ?case by (cases w) auto
next
  case (2 g g')
  then show ?case by (cases w) auto
next
  case (3 p p')
  then show ?case by (cases w) auto
next
  case (4 seen seen')
  then show ?case by (cases w) auto
qed auto

text \<open>
  What may happen to a resource.  In the strict sense the value of a blob that is being committed
  does not change at all; only the commit itself, which takes its content, changes it otherwise.
\<close>

definition resource_change :: "bool \<Rightarrow> ResourceSlot \<Rightarrow> ResourceSlot \<Rightarrow> bool" where
  "resource_change strict r r' \<longleftrightarrow>
     id_scope (rs_identity r') = id_scope (rs_identity r)
     \<and> id_slot (rs_identity r') = id_slot (rs_identity r)
     \<and> id_generation (rs_identity r') = id_generation (rs_identity r)
     \<and> id_kind (rs_identity r') = id_kind (rs_identity r)
     \<and> id_rights (rs_identity r') AND id_rights (rs_identity r) = id_rights (rs_identity r')
     \<and> rs_store r' = rs_store r \<and> rs_shareable r' = rs_shareable r
     \<and> (\<not> rs_reserved r \<longrightarrow> \<not> rs_reserved r')
     \<and> (rs_committing r \<longrightarrow> rs_committing r')
     \<and> value_evolves (rs_value r) (rs_value r')
     \<and> (strict \<longrightarrow> rs_committing r \<longrightarrow> rs_value r' = rs_value r)"

abbreviation resource_evolves :: "ResourceSlot \<Rightarrow> ResourceSlot \<Rightarrow> bool" where
  "resource_evolves \<equiv> resource_change True"

abbreviation resource_ages :: "ResourceSlot \<Rightarrow> ResourceSlot \<Rightarrow> bool" where
  "resource_ages \<equiv> resource_change False"

lemmas resource_evolves_def = resource_change_def

lemma resource_change_refl [simp]: "resource_change s r r"
  by (simp add: resource_change_def)

lemma resource_change_weak: "resource_change s r r' \<Longrightarrow> resource_ages r r'"
  by (simp add: resource_change_def)

lemma rights_trans: "a AND b = a \<Longrightarrow> b AND d = b \<Longrightarrow> a AND d = (a :: 8 word)"
  by (metis and.assoc)

lemma resource_change_trans:
  "resource_change s r1 r2 \<Longrightarrow> resource_change s r2 r3 \<Longrightarrow> resource_change s r1 r3"
  unfolding resource_change_def
  by (auto intro: value_evolves_trans rights_trans)

definition op_evolves :: "OperationSlot \<Rightarrow> OperationSlot \<Rightarrow> bool" where
  "op_evolves op op' \<longleftrightarrow>
     op_store op' = op_store op \<and> op_resource op' = op_resource op
     \<and> op_required_rights op' = op_required_rights op
     \<and> op_is_compiler_read op' = op_is_compiler_read op
     \<and> op_compiler_scalar op' = op_compiler_scalar op
     \<and> (op_terminal op \<noteq> None \<longrightarrow>
          op_terminal op' = op_terminal op
          \<or> ready_read op \<and> op_terminal op' \<noteq> None
            \<and> map_option tr_terminal (op_terminal op') \<noteq> Some T_Completed)"

lemma op_evolves_refl [simp]: "op_evolves op op"
  by (simp add: op_evolves_def)

lemma op_evolves_trans: "op_evolves a b \<Longrightarrow> op_evolves b d \<Longrightarrow> op_evolves a d"
  by (auto simp: op_evolves_def ready_read_def)

section \<open>Evolution of the hub\<close>

definition changes :: "bool \<Rightarrow> hub \<Rightarrow> hub \<Rightarrow> bool" where
  "changes strict h h' \<longleftrightarrow>
     hub_next_opaque_token h \<le> hub_next_opaque_token h'
     \<and> (hub_closed h \<longrightarrow> hub_closed h')
     \<and> (\<exists>es. hub_log h' = hub_log h @ es)
     \<and> (\<forall>t op'. bt_get (hub_operations h') t = Some op' \<longrightarrow> t \<le> hub_next_opaque_token h \<longrightarrow>
          (\<exists>op. bt_get (hub_operations h) t = Some op \<and> op_evolves op op'))
     \<and> (\<forall>t r'. bt_get (hub_resources h') t = Some r' \<longrightarrow> t \<le> hub_next_opaque_token h \<longrightarrow>
          (\<exists>r. bt_get (hub_resources h) t = Some r \<and> resource_change strict r r'))
     \<and> (\<forall>s g. bt_get (hub_resource_generations h) s = Some g \<longrightarrow>
          (\<exists>g'. bt_get (hub_resource_generations h') s = Some g' \<and> g \<le> g'))
     \<and> (\<forall>t r' g. bt_get (hub_resources h') t = Some r' \<longrightarrow> hub_next_opaque_token h < t \<longrightarrow>
          bt_get (hub_resource_generations h) (id_slot (rs_identity r')) = Some g \<longrightarrow>
          g < id_generation (rs_identity r'))"

abbreviation evolves :: "hub \<Rightarrow> hub \<Rightarrow> bool" where
  "evolves \<equiv> changes True"

abbreviation ages :: "hub \<Rightarrow> hub \<Rightarrow> bool" where
  "ages \<equiv> changes False"

lemmas evolves_def = changes_def

lemma changes_refl [simp]: "bt_wf (hub_resources h) \<Longrightarrow> tables_ok h \<Longrightarrow> changes s h h"
  by (force simp: changes_def tables_ok_def)

lemma evolvesD:
  assumes "changes strict h h'"
  shows "hub_next_opaque_token h \<le> hub_next_opaque_token h'"
    "hub_closed h \<Longrightarrow> hub_closed h'"
    "\<exists>es. hub_log h' = hub_log h @ es"
    "bt_get (hub_operations h') t = Some op' \<Longrightarrow> t \<le> hub_next_opaque_token h \<Longrightarrow>
       \<exists>op. bt_get (hub_operations h) t = Some op \<and> op_evolves op op'"
    "bt_get (hub_resources h') t = Some r' \<Longrightarrow> t \<le> hub_next_opaque_token h \<Longrightarrow>
       \<exists>r. bt_get (hub_resources h) t = Some r \<and> resource_change strict r r'"
    "bt_get (hub_resource_generations h) s = Some g \<Longrightarrow>
       \<exists>g'. bt_get (hub_resource_generations h') s = Some g' \<and> g \<le> g'"
    "bt_get (hub_resources h') t = Some r' \<Longrightarrow> hub_next_opaque_token h < t \<Longrightarrow>
       bt_get (hub_resource_generations h) (id_slot (rs_identity r')) = Some g \<Longrightarrow>
       g < id_generation (rs_identity r')"
  using assms unfolding evolves_def by blast+

lemma changes_trans:
  assumes 1: "changes strict h1 h2" and 2: "changes strict h2 h3"
  shows "changes strict h1 h3"
  unfolding changes_def
proof (intro conjI allI impI)
  note D1 = evolvesD [OF 1] and D2 = evolvesD [OF 2]
  show "hub_next_opaque_token h1 \<le> hub_next_opaque_token h3" using D1(1) D2(1) by simp
  show "hub_closed h3" if "hub_closed h1" using D1(2) D2(2) that by simp
  show "\<exists>es. hub_log h3 = hub_log h1 @ es" using D1(3) D2(3) by fastforce
  show "\<exists>op. bt_get (hub_operations h1) t = Some op \<and> op_evolves op op'"
    if "bt_get (hub_operations h3) t = Some op'" "t \<le> hub_next_opaque_token h1" for t op'
    using D2(4) [OF that(1)] D1(4) [of t] that(2) D1(1) op_evolves_trans by (meson le_trans)
  show "\<exists>r. bt_get (hub_resources h1) t = Some r \<and> resource_change strict r r'"
    if "bt_get (hub_resources h3) t = Some r'" "t \<le> hub_next_opaque_token h1" for t r'
    using D2(5) [OF that(1)] D1(5) [of t] that(2) D1(1) resource_change_trans by (meson le_trans)
  show "\<exists>g'. bt_get (hub_resource_generations h3) s = Some g' \<and> g \<le> g'"
    if "bt_get (hub_resource_generations h1) s = Some g" for s g
    using D1(6) [OF that] D2(6) by (meson le_trans)
  show "g < id_generation (rs_identity r')"
    if t: "bt_get (hub_resources h3) t = Some r'" "hub_next_opaque_token h1 < t"
      "bt_get (hub_resource_generations h1) (id_slot (rs_identity r')) = Some g" for t r' g
  proof (cases "hub_next_opaque_token h2 < t")
    case True
    obtain g' where "bt_get (hub_resource_generations h2) (id_slot (rs_identity r')) = Some g'" "g \<le> g'"
      using D1(6) [OF t(3)] by blast
    with D2(7) [OF t(1) True] show ?thesis by (simp add: le_less_trans)
  next
    case False
    then obtain r where r: "bt_get (hub_resources h2) t = Some r" "resource_change strict r r'"
      using D2(5) [OF t(1)] by auto
    with D1(7) [OF r(1) t(2)] t(3) show ?thesis by (simp add: resource_change_def)
  qed
qed

lemma changes_weak: "changes s h h' \<Longrightarrow> ages h h'"
  unfolding changes_def by (meson resource_change_weak)

section \<open>Tracking\<close>

definition tracking :: "bool \<Rightarrow> hub_config \<Rightarrow> token set \<Rightarrow> hub \<Rightarrow> hub \<Rightarrow> bool" where
  "tracking strict c W h0 h \<longleftrightarrow> hub_inv c W h \<and> changes strict h0 h"

abbreviation tracks :: "hub_config \<Rightarrow> token set \<Rightarrow> hub \<Rightarrow> hub \<Rightarrow> bool" where
  "tracks \<equiv> tracking True"

abbreviation follows :: "hub_config \<Rightarrow> token set \<Rightarrow> hub \<Rightarrow> hub \<Rightarrow> bool" where
  "follows \<equiv> tracking False"

lemmas tracks_def = tracking_def

lemma tracks_inv: "tracking s c W h0 h \<Longrightarrow> hub_inv c W h"
  by (simp add: tracking_def)

lemma tracks_refl: "hub_inv c W h \<Longrightarrow> tracking s c W h h"
  by (simp add: tracking_def hub_invD(1,11))

lemma tracks_follows: "tracking s c W h0 h \<Longrightarrow> follows c W h0 h"
  by (auto simp: tracking_def intro: changes_weak)

lemma tracks_wakes: "tracks c W h0 h \<Longrightarrow> W \<subseteq> W' \<Longrightarrow> tracks c W' h0 h"
  by (auto simp: tracks_def intro: wakes_mono)

lemma tracks_counters [simp]:
  "tracks c W h0 (h\<lparr>hub_suspends := x\<rparr>) = tracks c W h0 h"
  "tracks c W h0 (h\<lparr>hub_resumes := x\<rparr>) = tracks c W h0 h"
  "tracks c W h0 (h\<lparr>hub_jobs := j\<rparr>) = tracks c W h0 h"
  "tracks c W h0 (h\<lparr>hub_process_jobs := tj\<rparr>) = tracks c W h0 h"
  "tracks c W h0 (h\<lparr>hub_process_io_jobs := tj\<rparr>) = tracks c W h0 h"
  "tracks c W h0 (h\<lparr>hub_process_job_failed := b\<rparr>) = tracks c W h0 h"
  "tracks c W h0 (h\<lparr>hub_output_jobs := tj\<rparr>) = tracks c W h0 h"
  "tracks c W h0 (h\<lparr>hub_cleanups := cl\<rparr>) = tracks c W h0 h"
  "tracks c W h0 (h\<lparr>hub_output_job_failed := b\<rparr>) = tracks c W h0 h"
  "tracks c W h0 (h\<lparr>hub_output_job_count := x\<rparr>) = tracks c W h0 h"
  "tracks c W h0 (h\<lparr>hub_native_capture_count := x\<rparr>) = tracks c W h0 h"
  "tracks c W h0 (h\<lparr>hub_native_open_count := x\<rparr>) = tracks c W h0 h"
  "tracks c W h0 (h\<lparr>hub_clock_count := x\<rparr>) = tracks c W h0 h"
  by (simp_all add: tracks_def evolves_def)

lemma tracks_log: "tracks c W h0 h \<Longrightarrow> tracks c W h0 (h\<lparr>hub_log := hub_log h @ es\<rparr>)"
  unfolding tracks_def using hub_inv_log by (auto simp: evolves_def)

lemma tracks_notify_all: "tracks c (set ts \<union> W) h0 h \<Longrightarrow> tracks c W h0 (notify_all ts h)"
  using hub_inv_notify_all tracks_log [of c "set ts \<union> W" h0 h "map Notified ts"]
  by (auto simp: tracks_def notify_all_def)

lemma tracks_reports:
  "tracks c W h0 h \<Longrightarrow> tracks c W h0 (report_progress b h)"
  "tracks c W h0 h \<Longrightarrow> tracks c W h0 (report_all_progress bs h)"
  "tracks c W h0 h \<Longrightarrow> tracks c W h0 (notify_one t h)"
  "tracks c W h0 h \<Longrightarrow> tracks c W h0 (launch_job j h)"
  by (simp_all add: report_progress_def report_all_progress_def notify_one_def launch_job_def
      tracks_log)

lemma tracks_notify_option:
  "tracks c (set_option n \<union> W) h0 h \<Longrightarrow> tracks c W h0 (notify_option n h)"
  using tracks_notify_all [of c "case n of None \<Rightarrow> [] | Some t \<Rightarrow> [t]" W h0 h]
  by (cases n) (simp_all add: notify_option_def notify_all_def notify_one_def)

lemma tracks_counter_grows:
  "tracks c W h0 h \<Longrightarrow> hub_next_opaque_token h \<le> n \<Longrightarrow>
   tracks c W h0 (h\<lparr>hub_next_opaque_token := n\<rparr>)"
  by (auto simp: tracks_def hub_inv_counter_grows evolves_def)

section \<open>Tracking changes of the tables\<close>

lemma evolves_update_operation:
  assumes ev: "evolves h0 h" and op: "bt_get (hub_operations h) t = Some op"
    and f: "t \<le> hub_next_opaque_token h0 \<Longrightarrow> op_evolves op (f op)"
  shows "evolves h0 (update_operation t f h)"
proof -
  have "\<exists>o1. bt_get (hub_operations h0) x = Some o1 \<and> op_evolves o1 o2"
    if x: "bt_get (hub_operations (update_operation t f h)) x = Some o2" "x \<le> hub_next_opaque_token h0" for x o2
  proof (cases "x = t")
    case True
    then obtain o1 where "bt_get (hub_operations h0) t = Some o1" "op_evolves o1 op"
      using evolvesD(4) [OF ev op] x(2) by auto
    with True x op f show ?thesis by (auto intro: op_evolves_trans)
  next
    case False
    with x evolvesD(4) [OF ev] show ?thesis by auto
  qed
  then show ?thesis
    using ev by (auto simp: evolves_def update_operation_def)
qed

lemma tracks_update_operation:
  assumes "tracks c W h0 h" "bt_get (hub_operations h) t = Some op" "op_step c op (f op)"
    and "t \<le> hub_next_opaque_token h0 \<Longrightarrow> op_evolves op (f op)"
    and "op_terminal (f op) \<noteq> None \<Longrightarrow> op_terminal op \<noteq> None \<or> t \<in> W" "role_ok h op (f op)"
  shows "tracks c W h0 (update_operation t f h)"
  using assms hub_inv_update_operation evolves_update_operation by (simp add: tracks_def)

lemma tracks_remove_operation:
  "tracks c W h0 h \<Longrightarrow> tracks c W h0 (remove_operation t h)"
  unfolding tracks_def evolves_def using hub_inv_remove_operation [of c W h t]
  by (auto simp: remove_operation_def split: if_splits)

lemma tracks_insert_operation:
  assumes T: "tracks c W h0 h" and "\<not> hub_closed h"
    and "length (hub_operations h) < hc_maximum_operations c"
    and fresh: "\<And>r. bt_get (hub_resources h) t \<noteq> Some r" "bt_get (hub_operations h) t = None"
      "t \<notin> hub_closed_resources h" "t \<le> hub_next_opaque_token h" "hub_next_opaque_token h0 < t"
    and resource: "\<And>b. resource = Some b \<Longrightarrow> b \<le> hub_next_opaque_token h"
      "\<And>b r. resource = Some b \<Longrightarrow> bt_get (hub_resources h) b = Some r \<Longrightarrow> \<not> rs_committing r"
  shows "tracks c W h0 (h\<lparr>hub_operations :=
           bt_insert t (new_operation store resource rights) (hub_operations h)\<rparr>)"
  using hub_inv_insert_operation [OF tracks_inv [OF T] assms(2,3) fresh(1-4) resource] T fresh(5)
  by (auto simp: tracks_def evolves_def)

lemma evolves_update_resource:
  assumes ev: "changes s h0 h" and r: "bt_get (hub_resources h) t = Some r"
    and f: "resource_change s r (f r)"
  shows "changes s h0 (update_resource t f h)"
proof -
  have F: "id_slot (rs_identity (f r)) = id_slot (rs_identity r)"
    "id_generation (rs_identity (f r)) = id_generation (rs_identity r)"
    using f by (simp_all add: resource_evolves_def)
  have "\<exists>r1. bt_get (hub_resources h0) x = Some r1 \<and> resource_change s r1 r2"
    if x: "bt_get (hub_resources (update_resource t f h)) x = Some r2" "x \<le> hub_next_opaque_token h0" for x r2
  proof (cases "x = t")
    case True
    then obtain r1 where "bt_get (hub_resources h0) t = Some r1" "resource_change s r1 r"
      using evolvesD(5) [OF ev r] x(2) by auto
    with True x r f show ?thesis
      by (auto simp: update_resource_def intro: resource_change_trans)
  next
    case False
    with x evolvesD(5) [OF ev] show ?thesis by (auto simp: update_resource_def)
  qed
  moreover have "g < id_generation (rs_identity r2)"
    if "bt_get (hub_resources (update_resource t f h)) x = Some r2" "hub_next_opaque_token h0 < x"
      "bt_get (hub_resource_generations h0) (id_slot (rs_identity r2)) = Some g" for x r2 g
  proof (cases "x = t")
    case True
    with that r F evolvesD(7) [OF ev r] show ?thesis by (auto simp: update_resource_def)
  next
    case False
    with that evolvesD(7) [OF ev] show ?thesis by (auto simp: update_resource_def)
  qed
  ultimately show ?thesis
    using ev by (auto simp: evolves_def update_resource_def)
qed

lemma tracks_update_resource:
  assumes "tracks c W h0 h" "bt_get (hub_resources h) t = Some r"
    "resource_step c r (f r)" "resource_evolves r (f r)"
  shows "tracks c W h0 (update_resource t f h)"
  using assms hub_inv_update_resource evolves_update_resource by (auto simp: tracks_def)

lemma evolves_remove_resource:
  assumes "evolves h0 h" "hub_next_opaque_token h' = hub_next_opaque_token h"
    "hub_closed h' = hub_closed h" "hub_log h' = hub_log h @ es"
    "hub_operations h' = hub_operations h"
    "hub_resource_generations h' = hub_resource_generations h"
    "hub_resources h' = bt_remove t (hub_resources h)"
  shows "evolves h0 h'"
  using assms unfolding evolves_def by (auto split: if_splits)

lemma tracks_without_resource:
  assumes "tracks c W h0 h" "bt_get (hub_resources h) t = Some r"
  shows "tracks c W h0 (without_resource t r h)"
  using assms hub_inv_without_resource evolves_remove_resource [of h0 h "without_resource t r h" "[]" t]
  by (auto simp: tracks_def without_resource_def)

lemma tracks_release_reservation:
  assumes "tracks c W h0 h"
  shows "tracks c W h0 (release_reservation t h)"
proof (cases "bt_get (hub_resources h) t")
  case None
  with assms show ?thesis by (simp add: release_reservation_without)
next
  case (Some r)
  have "hub_log (without_resource t r h) = hub_log h" by (simp add: without_resource_def)
  then show ?thesis
    using tracks_log [OF tracks_without_resource [OF assms Some], of "drop_events t r"] Some
    by (simp add: release_reservation_without)
qed

text \<open>Flags of a resource.\<close>

lemma tracks_resource_flag:
  assumes T: "tracks c W h0 h"
    and f: "\<And>r. bt_get (hub_resources h) t = Some r \<Longrightarrow>
      rs_identity (f r) = rs_identity r \<and> rs_value (f r) = rs_value r \<and> rs_store (f r) = rs_store r
      \<and> rs_shareable (f r) = rs_shareable r \<and> (\<not> rs_reserved r \<longrightarrow> \<not> rs_reserved (f r))
      \<and> rs_committing (f r) = rs_committing r"
  shows "tracks c W h0 (update_resource t f h)"
proof (cases "bt_get (hub_resources h) t")
  case None
  with T show ?thesis by (simp add: update_resource_absent)
next
  case (Some r)
  have "resource_ok c r" using T Some by (auto simp: tracks_def hub_inv_def resources_ok_def)
  then have "resource_step c r (f r)" "resource_evolves r (f r)"
    using f [OF Some] by (simp_all add: resource_step_def resource_ok_def resource_evolves_def)
  with T Some show ?thesis by (rule tracks_update_resource)
qed

section \<open>Terminal results\<close>

lemma op_charge_terminate: "op_charge (terminate_slot r op) \<le> op_charge op"
  by (auto simp: op_charge_def terminate_slot_def Let_def option_length_def)

lemma terminate_slot_simps [simp]:
  "op_resource (terminate_slot r op) = op_resource op"
  "op_store (terminate_slot r op) = op_store op"
  "op_required_rights (terminate_slot r op) = op_required_rights op"
  "op_is_compiler_read (terminate_slot r op) = op_is_compiler_read op"
  "op_compiler_scalar (terminate_slot r op) = op_compiler_scalar op"
  "op_pending_blob_write (terminate_slot r op) = None"
  "op_pending_blob_read (terminate_slot r op) = None"
  "op_blob_read_result (terminate_slot r op) = op_blob_read_result op"
  "op_created_resource (terminate_slot r op) = op_created_resource op"
  by (simp_all add: terminate_slot_def Let_def)

lemma op_step_terminate:
  "op_ok c op \<Longrightarrow> op_step c op (terminate_slot r op)"
  using op_charge_terminate [of r op]
  by (auto simp: op_step_def op_ok_def terminate_slot_def Let_def option_length_def)

lemma role_terminate [simp]: "role_ok h op (terminate_slot r op)"
  by (simp add: role_ok_def reads_process_def)

lemma op_evolves_terminate:
  "op_terminal op = None \<or> ready_read op \<and> tr_terminal r \<noteq> T_Completed \<Longrightarrow>
   op_evolves op (terminate_slot r op)"
  by (auto simp: op_evolves_def)

lemma hub_op_ok: "hub_inv c W h \<Longrightarrow> bt_get (hub_operations h) t = Some op \<Longrightarrow> op_ok c op"
  by (simp add: hub_inv_def ops_ok_def)

lemma tracks_terminal_locked:
  assumes T: "tracks c W h0 h" and call: "terminal_locked t r h = (n, h')"
  shows "tracks c ((case n of Inl _ \<Rightarrow> {} | Inr w \<Rightarrow> set_option w) \<union> W) h0 h'"
proof (cases "bt_get (hub_operations h) t")
  case None
  with T call show ?thesis by (auto simp: terminal_locked_def)
next
  case (Some op)
  show ?thesis
  proof (cases "op_terminal op = None \<or> ready_read op \<and> tr_terminal r \<noteq> T_Completed")
    case False
    with T call Some show ?thesis by (auto simp: terminal_locked_def)
  next
    case True
    let ?h1 = "update_operation t (terminate_slot r) h"
    let ?h2 = "?h1\<lparr>hub_log := hub_log ?h1 @ cancel_events t op\<rparr>"
    have "op_ok c op" using T Some by (auto simp: tracks_def intro: hub_op_ok)
    then have "tracks c (insert t W) h0 ?h1"
      using tracks_wakes [OF T, of "insert t W"] Some True
      by (intro tracks_update_operation [of c "insert t W" h0 h t op])
        (auto intro: op_step_terminate op_evolves_terminate)
    then have h2: "tracks c (insert t W) h0 ?h2" by (rule tracks_log)
    have "n = Inr (Some t)" and "h' = (case op_created_resource op of
               None \<Rightarrow> ?h2
             | Some b \<Rightarrow> if tr_terminal r = T_Completed
                 then update_resource b (rs_reserved_update (\<lambda>_. False)) ?h2
                 else release_reservation b ?h2)"
      using True Some call by (auto simp: terminal_locked_def Let_def split: option.splits)
    then show ?thesis
      using h2 by (auto split: option.splits
          intro!: tracks_release_reservation tracks_resource_flag)
  qed
qed

lemma tracks_terminal:
  assumes "tracks c W h0 h"
  shows "tracks c W h0 (snd (terminal t r h))"
proof (cases "terminal_locked t r h")
  case (Pair n h')
  from tracks_terminal_locked [OF assms this] Pair show ?thesis
    by (auto simp: terminal_def s_bind_def split: sum.splits intro: tracks_notify_option)
qed

lemma terminal_locked_token: "terminal_locked t r h = (Inr (Some w), h') \<Longrightarrow> w = t"
  by (cases rule: terminal_locked_cases [of h t r]) simp_all

lemma tracks_terminal_each:
  assumes "tracks c W h0 h" and "terminal_each ts r h = (n, h')"
  shows "tracks c ((case n of Inl _ \<Rightarrow> set ts | Inr ws \<Rightarrow> set ws) \<union> W) h0 h'"
  using assms
proof (induction ts arbitrary: W h n h')
  case Nil
  then show ?case by (auto simp: s_return_def)
next
  case (Cons t ts)
  obtain n1 h1 where l: "terminal_locked t r h = (n1, h1)" by (cases "terminal_locked t r h")
  note T1 = tracks_terminal_locked [OF Cons.prems(1) l]
  show ?case
  proof (cases n1)
    case (Inl e)
    with l Cons.prems(2) T1 show ?thesis by (auto simp: s_bind_def intro: tracks_wakes)
  next
    case (Inr w)
    obtain n2 h2 where e: "terminal_each ts r h1 = (n2, h2)" by (cases "terminal_each ts r h1")
    from Cons.IH [OF T1 e] l e Inr Cons.prems(2) show ?thesis
      by (cases n2; cases w) (auto simp: s_bind_def s_return_def elim!: tracks_wakes
        dest: terminal_locked_token)
  qed
qed

section \<open>Closing\<close>

lemma terminal_locked_dom:
  "terminal_locked t r h = (n, h') \<Longrightarrow>
   bt_get (hub_operations h') x = None \<longleftrightarrow> bt_get (hub_operations h) x = None"
  by (cases rule: terminal_locked_cases [of h t r]) auto

lemma terminal_each_succeeds:
  "\<forall>t\<in>set ts. bt_get (hub_operations h) t \<noteq> None \<Longrightarrow> \<exists>ws h'. terminal_each ts r h = (Inr ws, h')"
proof (induction ts arbitrary: h)
  case Nil
  then show ?case by (simp add: s_return_def)
next
  case (Cons t ts)
  obtain n h1 where l: "terminal_locked t r h = (n, h1)" by (cases "terminal_locked t r h")
  obtain w where w: "n = Inr w"
    using l Cons.prems by (cases rule: terminal_locked_cases [of h t r]) auto
  obtain ws h2 where "terminal_each ts r h1 = (Inr ws, h2)"
    using Cons.IH [of h1] Cons.prems terminal_locked_dom [OF l] by auto
  with l w show ?case by (simp add: s_bind_def s_return_def)
qed

lemma select_operations_live:
  "t \<in> set (select_operations P h) \<Longrightarrow> bt_get (hub_operations h) t \<noteq> None"
  by (auto simp: select_operations_def split: option.splits)

text \<open>The tombstone of a closed resource.\<close>

definition bury :: "token \<Rightarrow> hub \<Rightarrow> hub" where
  "bury t h = expire_tombstones
     (h\<lparr>hub_closed_resources := insert t (hub_closed_resources h),
        hub_closed_resource_order := hub_closed_resource_order h @ [t]\<rparr>)"

lemma expire_none:
  "length (hub_closed_resource_order h) \<le> MAX_CLOSED_TOMBSTONES \<Longrightarrow> expire_tombstones h = h"
  by (simp add: expire_tombstones.simps [of h])

lemma expire_one:
  assumes "hub_closed_resource_order h = t # ts" "MAX_CLOSED_TOMBSTONES < length (t # ts)"
  shows "expire_tombstones h = expire_tombstones
    (h\<lparr>hub_closed_resource_order := ts, hub_closed_resources := hub_closed_resources h - {t}\<rparr>)"
  using assms by (subst expire_tombstones.simps) simp

lemma expire_tombstones_eq:
  assumes "hub_closed_resource_order h = ts" "k = length ts - MAX_CLOSED_TOMBSTONES"
  shows "expire_tombstones h = h\<lparr>hub_closed_resource_order := drop k ts,
     hub_closed_resources := hub_closed_resources h - set (take k ts)\<rparr>"
  using assms
proof (induction ts arbitrary: h k)
  case Nil
  then show ?case by (simp add: expire_none)
next
  case (Cons t ts)
  show ?case
  proof (cases "MAX_CLOSED_TOMBSTONES < length (t # ts)")
    case False
    with Cons.prems show ?thesis by (simp add: expire_none)
  next
    case True
    have "A - {t} - B = A - insert t B" for A B :: "token set" by blast
    then show ?thesis
      using Cons.IH [OF _ refl, of "h\<lparr>hub_closed_resource_order := ts,
          hub_closed_resources := hub_closed_resources h - {t}\<rparr>"] True Cons.prems
      by (simp add: expire_one [OF Cons.prems(1) True] Suc_diff_le)
  qed
qed

lemma groups_tombstones [simp]:
  "quota_ok c (h\<lparr>hub_closed_resource_order := ts, hub_closed_resources := T\<rparr>) = quota_ok c h"
  "slots_ok (h\<lparr>hub_closed_resource_order := ts, hub_closed_resources := T\<rparr>) = slots_ok h"
  "resources_ok c (h\<lparr>hub_closed_resource_order := ts, hub_closed_resources := T\<rparr>) = resources_ok c h"
  "ops_ok c (h\<lparr>hub_closed_resource_order := ts, hub_closed_resources := T\<rparr>) = ops_ok c h"
  "ledger_ok c (h\<lparr>hub_closed_resource_order := ts, hub_closed_resources := T\<rparr>) = ledger_ok c h"
  "transfer_ok c (h\<lparr>hub_closed_resource_order := ts, hub_closed_resources := T\<rparr>) = transfer_ok c h"
  "closed_ok (h\<lparr>hub_closed_resource_order := ts, hub_closed_resources := T\<rparr>) = closed_ok h"
  "wakes_ok W (h\<lparr>hub_closed_resource_order := ts, hub_closed_resources := T\<rparr>) = wakes_ok W h"
  "commits_ok (h\<lparr>hub_closed_resource_order := ts, hub_closed_resources := T\<rparr>) = commits_ok h"
  "evolves h0 (h\<lparr>hub_closed_resource_order := ts, hub_closed_resources := T\<rparr>) = evolves h0 h"
  by (simp_all add: hub_inv_group_defs evolves_def)

lemma bury_shape:
  assumes "tombstones_ok h" "t \<notin> hub_closed_resources h"
  obtains ts T where "bury t h = h\<lparr>hub_closed_resource_order := ts, hub_closed_resources := T\<rparr>"
    "set ts = T" "distinct ts" "length ts \<le> MAX_CLOSED_TOMBSTONES" "T \<subseteq> insert t (hub_closed_resources h)"
proof -
  let ?l = "hub_closed_resource_order h @ [t]"
  define k where "k = length ?l - MAX_CLOSED_TOMBSTONES"
  have k: "bury t h = h\<lparr>hub_closed_resource_order := drop k ?l,
      hub_closed_resources := insert t (hub_closed_resources h) - set (take k ?l)\<rparr>"
    unfolding bury_def by (subst expire_tombstones_eq [OF _ k_def]) simp_all
  have d: "distinct ?l" "set ?l = insert t (hub_closed_resources h)"
    using assms by (auto simp: tombstones_ok_def)
  have "set ?l = set (take k ?l) \<union> set (drop k ?l)"
    by (metis append_take_drop_id set_append)
  moreover have "set (take k ?l) \<inter> set (drop k ?l) = {}"
    using d(1) by (rule set_take_disj_set_drop_if_distinct) simp
  ultimately have "set (drop k ?l) = insert t (hub_closed_resources h) - set (take k ?l)"
    using d(2) by blast
  moreover have "length (drop k ?l) \<le> MAX_CLOSED_TOMBSTONES" by (simp add: k_def)
  ultimately show thesis using k d(1) distinct_drop that by (metis Diff_subset)
qed

lemma tracks_bury:
  assumes T: "tracks c W h0 h" and t: "bt_get (hub_resources h) t = None"
    "bt_get (hub_operations h) t = None" "t \<le> hub_next_opaque_token h" "t \<notin> hub_closed_resources h"
  shows "tracks c W h0 (bury t h)"
proof -
  note D = hub_invD [OF tracks_inv [OF T]]
  obtain ts X where b: "bury t h = h\<lparr>hub_closed_resource_order := ts, hub_closed_resources := X\<rparr>"
    "set ts = X" "distinct ts" "length ts \<le> MAX_CLOSED_TOMBSTONES" "X \<subseteq> insert t (hub_closed_resources h)"
    using bury_shape [OF D(8) t(4)] .
  have sub: "x \<in> hub_closed_resources h" if "x \<in> X" "x \<noteq> t" for x using b(5) that by blast
  have "tables_ok (bury t h)"
    using D(1) t(1-3) sub unfolding tables_ok_def b(1) by simp (metis option.distinct(1))
  moreover have "tombstones_ok (bury t h)" using b by (simp add: tombstones_ok_def)
  ultimately show ?thesis
    using T D by (simp add: tracks_def hub_inv_def b)
qed

lemma close_resource_unfold:
  assumes "bt_get (hub_resources h) t = Some r"
  shows "close_resource_with_terminal_locked t k h =
     (case terminal_each
        (select_operations (\<lambda>op. op_resource op = Some t \<and> (op_terminal op = None \<or> ready_read op))
           (bury t (without_resource t r h)))
        \<lparr>tr_terminal = k, tr_resource = None\<rparr> (bury t (without_resource t r h)) of
      (n, h) \<Rightarrow> (n, h\<lparr>hub_log := hub_log h @ drop_events t r\<rparr>))"
proof -
  let ?h = "h\<lparr>hub_resources := bt_remove t (hub_resources h),
              hub_buffered_blob_bytes := saturating_sub (hub_buffered_blob_bytes h) (blob_length (rs_value r)),
              hub_closed_resources := insert t (hub_closed_resources h),
              hub_closed_resource_order := hub_closed_resource_order h @ [t]\<rparr>"
  have "(expire_tombstones ?h)\<lparr>hub_free_resource_slots :=
          hub_free_resource_slots (expire_tombstones ?h) @ [id_slot (rs_identity r)]\<rparr>
      = bury t (without_resource t r h)"
    by (rule hub.equality)
      (simp_all add: bury_def without_resource_def expire_tombstones_eq [OF refl refl])
  with assms show ?thesis
    by (simp only: close_resource_with_terminal_locked_def Let_def option.case)
qed

lemma tracks_close_resource:
  assumes T: "tracks c W h0 h" and call: "close_resource_with_terminal_locked t k h = (n, h')"
  shows "tracks c ((case n of Inl _ \<Rightarrow> {} | Inr ws \<Rightarrow> set ws) \<union> W) h0 h'"
proof (cases "bt_get (hub_resources h) t")
  case None
  with T call show ?thesis
    by (auto simp: close_resource_with_terminal_locked_def split: if_splits)
next
  case (Some r)
  let ?h1 = "bury t (without_resource t r h)"
  let ?ts = "select_operations (\<lambda>op. op_resource op = Some t \<and> (op_terminal op = None \<or> ready_read op)) ?h1"
  have "tables_ok h" using T by (simp add: tracks_def hub_inv_def)
  with Some have t: "bt_get (hub_operations h) t = None" "t \<le> hub_next_opaque_token h"
    "t \<notin> hub_closed_resources h" by (simp_all add: tables_ok_def)
  have "tracks c W h0 ?h1"
    by (rule tracks_bury [OF tracks_without_resource [OF T Some]])
      (use t in \<open>simp_all add: without_resource_def\<close>)
  moreover have "\<forall>t\<in>set ?ts. bt_get (hub_operations ?h1) t \<noteq> None"
    by (rule ballI) (rule select_operations_live)
  then obtain ws h2 where e: "terminal_each ?ts \<lparr>tr_terminal = k, tr_resource = None\<rparr> ?h1 = (Inr ws, h2)"
    using terminal_each_succeeds by blast
  ultimately have "tracks c (set ws \<union> W) h0 h2" using tracks_terminal_each by fastforce
  then have "tracks c (set ws \<union> W) h0 (h2\<lparr>hub_log := hub_log h2 @ drop_events t r\<rparr>)"
    by (rule tracks_log)
  moreover have "n = Inr ws" "h' = h2\<lparr>hub_log := hub_log h2 @ drop_events t r\<rparr>"
    using call unfolding close_resource_unfold [OF Some] e by simp_all
  ultimately show ?thesis by simp
qed

lemma tracks_close_section:
  assumes "tracks c W h0 h"
  shows "tracks c W h0 (snd (close_resource_section t k h))"
proof (cases "close_resource_with_terminal_locked t k h")
  case (Pair n h')
  from tracks_close_resource [OF assms this] Pair show ?thesis
    by (auto simp: close_resource_section_def s_bind_def split: sum.splits intro: tracks_notify_all)
qed

section \<open>Creating\<close>

definition slot_unused :: "nat \<Rightarrow> hub \<Rightarrow> bool" where
  "slot_unused s h \<longleftrightarrow> s \<le> hub_next_resource_slot h \<and> s \<notin> set (hub_free_resource_slots h)
     \<and> (\<forall>t r. bt_get (hub_resources h) t = Some r \<longrightarrow> id_slot (rs_identity r) \<noteq> s)"

lemma groups_slots [simp]:
  "tables_ok (h\<lparr>hub_free_resource_slots := xs\<rparr>) = tables_ok h"
  "quota_ok c (h\<lparr>hub_free_resource_slots := xs\<rparr>) = quota_ok c h"
  "resources_ok c (h\<lparr>hub_free_resource_slots := xs\<rparr>) = resources_ok c h"
  "ops_ok c (h\<lparr>hub_free_resource_slots := xs\<rparr>) = ops_ok c h"
  "ledger_ok c (h\<lparr>hub_free_resource_slots := xs\<rparr>) = ledger_ok c h"
  "transfer_ok c (h\<lparr>hub_free_resource_slots := xs\<rparr>) = transfer_ok c h"
  "tombstones_ok (h\<lparr>hub_free_resource_slots := xs\<rparr>) = tombstones_ok h"
  "closed_ok (h\<lparr>hub_free_resource_slots := xs\<rparr>) = closed_ok h"
  "wakes_ok W (h\<lparr>hub_free_resource_slots := xs\<rparr>) = wakes_ok W h"
  "commits_ok (h\<lparr>hub_free_resource_slots := xs\<rparr>) = commits_ok h"
  "evolves h0 (h\<lparr>hub_free_resource_slots := xs\<rparr>) = evolves h0 h"
  "tables_ok (h\<lparr>hub_next_resource_slot := s\<rparr>) = tables_ok h"
  "quota_ok c (h\<lparr>hub_next_resource_slot := s\<rparr>) = quota_ok c h"
  "resources_ok c (h\<lparr>hub_next_resource_slot := s\<rparr>) = resources_ok c h"
  "ops_ok c (h\<lparr>hub_next_resource_slot := s\<rparr>) = ops_ok c h"
  "ledger_ok c (h\<lparr>hub_next_resource_slot := s\<rparr>) = ledger_ok c h"
  "transfer_ok c (h\<lparr>hub_next_resource_slot := s\<rparr>) = transfer_ok c h"
  "tombstones_ok (h\<lparr>hub_next_resource_slot := s\<rparr>) = tombstones_ok h"
  "closed_ok (h\<lparr>hub_next_resource_slot := s\<rparr>) = closed_ok h"
  "wakes_ok W (h\<lparr>hub_next_resource_slot := s\<rparr>) = wakes_ok W h"
  "commits_ok (h\<lparr>hub_next_resource_slot := s\<rparr>) = commits_ok h"
  "evolves h0 (h\<lparr>hub_next_resource_slot := s\<rparr>) = evolves h0 h"
  by (simp_all add: hub_inv_group_defs evolves_def)

lemma groups_generations [simp]:
  "tables_ok (h\<lparr>hub_resource_generations := m\<rparr>) = tables_ok h"
  "quota_ok c (h\<lparr>hub_resource_generations := m\<rparr>) = quota_ok c h"
  "resources_ok c (h\<lparr>hub_resource_generations := m\<rparr>) = resources_ok c h"
  "ops_ok c (h\<lparr>hub_resource_generations := m\<rparr>) = ops_ok c h"
  "ledger_ok c (h\<lparr>hub_resource_generations := m\<rparr>) = ledger_ok c h"
  "transfer_ok c (h\<lparr>hub_resource_generations := m\<rparr>) = transfer_ok c h"
  "tombstones_ok (h\<lparr>hub_resource_generations := m\<rparr>) = tombstones_ok h"
  "closed_ok (h\<lparr>hub_resource_generations := m\<rparr>) = closed_ok h"
  "wakes_ok W (h\<lparr>hub_resource_generations := m\<rparr>) = wakes_ok W h"
  "commits_ok (h\<lparr>hub_resource_generations := m\<rparr>) = commits_ok h"
  by (simp_all add: hub_inv_group_defs)

text \<open>The parts of the hub that taking a slot, a generation or a token leaves alone.\<close>

definition same_tables :: "hub \<Rightarrow> hub \<Rightarrow> bool" where
  "same_tables h h' \<longleftrightarrow> hub_resources h' = hub_resources h \<and> hub_operations h' = hub_operations h
     \<and> hub_closed h' = hub_closed h \<and> hub_closed_resources h' = hub_closed_resources h
     \<and> hub_log h' = hub_log h"

lemma slots_take_last:
  assumes "slots_ok h" "hub_free_resource_slots h \<noteq> []"
  shows "slots_ok (h\<lparr>hub_free_resource_slots := butlast (hub_free_resource_slots h)\<rparr>)
    \<and> slot_unused (last (hub_free_resource_slots h))
        (h\<lparr>hub_free_resource_slots := butlast (hub_free_resource_slots h)\<rparr>)"
proof -
  obtain xs s where xs: "hub_free_resource_slots h = xs @ [s]"
    using assms(2) by (metis append_butlast_last_id)
  with assms(1) show ?thesis
    by (auto simp: slots_ok_def slot_table_ok_def slot_unused_def)
qed

lemma slots_take_new:
  assumes "slots_ok h"
  shows "slots_ok (h\<lparr>hub_next_resource_slot := Suc (hub_next_resource_slot h)\<rparr>)
    \<and> slot_unused (Suc (hub_next_resource_slot h)) (h\<lparr>hub_next_resource_slot := Suc (hub_next_resource_slot h)\<rparr>)"
  using assms unfolding slots_ok_def slot_table_ok_def slot_unused_def
  by (auto, fastforce+)

lemma tracks_take_slot:
  assumes T: "tracks c W h0 h" and call: "take_resource_slot h = (r, h')"
  shows "tracks c W h0 h' \<and> same_tables h h' \<and> (\<forall>s. r = Inr s \<longrightarrow> slot_unused s h')
    \<and> hub_next_opaque_token h' = hub_next_opaque_token h"
proof -
  have "slots_ok h" using T by (simp add: tracks_def hub_inv_def)
  note S = slots_take_last [OF this] slots_take_new [OF this]
  show ?thesis
    using call T S
    by (auto simp: take_resource_slot_def same_tables_def tracks_def hub_inv_def checked_add_u32_def
        split: if_splits option.splits)
qed

lemma slots_generation:
  assumes "slots_ok h" "slot_unused s h"
  shows "slots_ok (h\<lparr>hub_resource_generations := bt_insert s g (hub_resource_generations h)\<rparr>)"
  using assms by (auto simp: slots_ok_def slot_table_ok_def slot_unused_def)

text \<open>A new generation of an unused slot is above all that went before.\<close>

definition generation_above :: "hub \<Rightarrow> nat \<Rightarrow> nat \<Rightarrow> bool" where
  "generation_above h0 s g \<longleftrightarrow> (\<forall>g0. bt_get (hub_resource_generations h0) s = Some g0 \<longrightarrow> g0 < g)"

lemma tracks_next_generation:
  assumes T: "tracks c W h0 h" and s: "slot_unused s h" and call: "next_generation s h = (r, h')"
  shows "tracks c W h0 h' \<and> same_tables h h' \<and> slot_unused s h'
    \<and> hub_next_opaque_token h' = hub_next_opaque_token h
    \<and> (\<forall>g. r = Inr g \<longrightarrow> bt_get (hub_resource_generations h') s = Some g \<and> generation_above h0 s g)"
proof (cases "checked_add_u32 (case bt_get (hub_resource_generations h) s of None \<Rightarrow> 0 | Some g \<Rightarrow> g) 1")
  case None
  with call T s show ?thesis by (auto simp: next_generation_def same_tables_def)
next
  case (Some g)
  let ?m = "bt_insert s g (hub_resource_generations h)"
  have r: "r = Inr g" "h' = h\<lparr>hub_resource_generations := ?m\<rparr>"
    using call Some by (auto simp: next_generation_def)
  have above: "g0 < g" if "bt_get (hub_resource_generations h) s = Some g0" for g0
    using that Some by (auto simp: checked_add_u32_def split: if_splits)
  note D = evolvesD [OF conjunct2 [OF T [unfolded tracks_def]]]
  have "generation_above h0 s g"
    unfolding generation_above_def using D(6) above by (meson le_less_trans)
  moreover have "evolves h0 h'"
    unfolding evolves_def
  proof (intro conjI allI impI)
    fix s1 g1 assume "bt_get (hub_resource_generations h0) s1 = Some g1"
    from D(6) [OF this] above show "\<exists>g'. bt_get (hub_resource_generations h') s1 = Some g' \<and> g1 \<le> g'"
      unfolding r(2) by (cases "s1 = s") (auto intro: less_imp_le le_less_trans)
  qed (use D r(2) in auto)
  moreover have "slots_ok h'"
    unfolding r(2) using T s by (intro slots_generation) (simp_all add: tracks_def hub_inv_def)
  ultimately show ?thesis
    using T s r by (auto simp: tracks_def hub_inv_def same_tables_def slot_unused_def)
qed

lemma slot_unused_counter [simp]:
  "slot_unused s (h\<lparr>hub_next_opaque_token := n\<rparr>) = slot_unused s h"
  by (simp add: slot_unused_def)

lemma tracks_next_token:
  assumes T: "tracks c W h0 h" and call: "next_token h = (r, h')"
  shows "tracks c W h0 h' \<and> same_tables h h' \<and> hub_resource_generations h' = hub_resource_generations h
    \<and> (slot_unused s h \<longrightarrow> slot_unused s h')
    \<and> (\<forall>t. r = Inr t \<longrightarrow> t = hub_next_opaque_token h' \<and> hub_next_opaque_token h < t)"
  using call T
  by (auto simp: next_token_def hub_next_def s_bind_def s_lift_def s_return_def same_tables_def
      intro: tracks_counter_grows split: option.splits if_splits)

text \<open>A token above the counter names nothing yet.\<close>

lemma fresh_token:
  assumes "hub_inv c W h" "hub_next_opaque_token h < t"
  shows "bt_get (hub_resources h) t = None" "bt_get (hub_operations h) t = None"
    "t \<notin> hub_closed_resources h"
    "bt_get (hub_operations h) t' = Some op \<Longrightarrow> op_resource op \<noteq> Some t"
proof -
  have T: "tables_ok h" using assms(1) by (simp add: hub_inv_def)
  have "t' \<le> hub_next_opaque_token h" if "bt_get (hub_resources h) t' = Some r" for t' r
    using T that by (simp add: tables_ok_def)
  then show "bt_get (hub_resources h) t = None" using assms(2) by (meson not_None_eq not_less)
  have O: "t' \<le> hub_next_opaque_token h" if "bt_get (hub_operations h) t' = Some op" for t' op
    using T that by (simp add: tables_ok_def)
  then show "bt_get (hub_operations h) t = None" using assms(2) by (meson not_None_eq not_less)
  show "t \<notin> hub_closed_resources h" using T assms(2) by (auto simp: tables_ok_def)
  show "op_resource op \<noteq> Some t" if op: "bt_get (hub_operations h) t' = Some op"
  proof
    assume "op_resource op = Some t"
    with T op have "t \<le> hub_next_opaque_token h" unfolding tables_ok_def by blast
    with assms(2) show False by simp
  qed
qed

text \<open>What a created resource is.\<close>

definition created_slot :: "hub_config \<Rightarrow> store_id \<Rightarrow> u8 \<Rightarrow> u8 \<Rightarrow> bool \<Rightarrow> ResourceValue \<Rightarrow> ResourceSlot \<Rightarrow> bool" where
  "created_slot c store kind rights shareable v r \<longleftrightarrow>
     id_scope (rs_identity r) = hc_scope c \<and> id_kind (rs_identity r) = kind
     \<and> id_rights (rs_identity r) = rights \<and> rs_store r = store \<and> rs_shareable r = shareable
     \<and> rs_value r = v \<and> rs_reserved r \<and> \<not> rs_committing r"

text \<open>The values resources are created with.\<close>

definition fresh_value :: "hub_config \<Rightarrow> u8 \<Rightarrow> u8 \<Rightarrow> ResourceValue \<Rightarrow> bool" where
  "fresh_value c kind rights v \<longleftrightarrow>
     kind = value_kind v \<and> value_ok c v \<and> blob_length v = 0 \<and> blob_capacity v = 0
     \<and> (is_blob v \<longrightarrow> BLOB_RIGHT_READ AND rights = BLOB_RIGHT_READ)"

text \<open>A resource in an unused slot, under a token above the counter before it was taken.\<close>

lemma tracks_insert_resource:
  assumes T: "tracks c W h0 h" and T2: "tracks c W h0 h2" and same: "same_tables h2 h"
    and room: "\<not> hub_closed h" "length (hub_resources h) < hc_maximum_resources c"
      "is_blob (rs_value r) \<Longrightarrow> live_blobs h < maximum_live_blobs (hc_blob_limits c)"
    and tok: "hub_next_opaque_token h2 < t" "t \<le> hub_next_opaque_token h"
    and slot: "slot_unused (id_slot (rs_identity r)) h"
      "bt_get (hub_resource_generations h) (id_slot (rs_identity r)) = Some (id_generation (rs_identity r))"
      "generation_above h0 (id_slot (rs_identity r)) (id_generation (rs_identity r))"
    and r: "resource_ok c r" "blob_length (rs_value r) = 0" "blob_capacity (rs_value r) = 0"
      "\<not> rs_committing r"
  shows "tracks c W h0 (insert_resource t r h)"
proof -
  note fresh = fresh_token [OF tracks_inv [OF T2] tok(1)]
  have "hub_inv c W (insert_resource t r h)"
  proof (rule hub_inv_insert_resource [OF tracks_inv [OF T] room])
    show "bt_get (hub_resources h) t = None" "bt_get (hub_operations h) t = None"
      "t \<notin> hub_closed_resources h" using fresh(1-3) same by (simp_all add: same_tables_def)
    show "op_resource op \<noteq> Some t" if "bt_get (hub_operations h) t' = Some op" for t' op
      using fresh(4) that same by (simp add: same_tables_def)
  qed (use tok slot r in \<open>auto simp: slot_unused_def\<close>)
  moreover have "hub_next_opaque_token h0 < t"
    using T2 tok(1) by (simp add: tracks_def evolves_def)
  then have "evolves h0 (insert_resource t r h)"
    using T slot(3) unfolding tracks_def evolves_def insert_resource_def generation_above_def by auto
  ultimately show ?thesis by (simp add: tracks_def)
qed

lemma tracks_create:
  assumes T: "tracks c W h0 h" and v: "fresh_value c kind rights v"
    and call: "create_resource_value_locked c store kind rights shareable v h = (r, h')"
  shows "tracks c W h0 h' \<and> hub_operations h' = hub_operations h \<and> hub_closed h' = hub_closed h
    \<and> (\<forall>t. r = Inr t \<longrightarrow> hub_next_opaque_token h < t \<and> t \<le> hub_next_opaque_token h'
         \<and> (\<exists>slot. bt_get (hub_resources h') t = Some slot
               \<and> created_slot c store kind rights shareable v slot))
    \<and> (\<forall>x. x \<le> hub_next_opaque_token h \<longrightarrow> bt_get (hub_resources h') x = bt_get (hub_resources h) x)"
proof (cases "hub_closed h \<or> hc_maximum_resources c \<le> length (hub_resources h)
    \<or> is_blob v \<and> maximum_live_blobs (hc_blob_limits c) \<le> live_blobs h")
  case True
  with T call show ?thesis
    by (auto simp: create_resource_value_locked_def split: if_splits)
next
  case room: False
  obtain r1 h1 where c1: "take_resource_slot h = (r1, h1)" by (cases "take_resource_slot h")
  note T1 = tracks_take_slot [OF T c1]
  show ?thesis
  proof (cases r1)
    case (Inl e)
    with room call c1 T1 show ?thesis
      by (auto simp: create_resource_value_locked_def s_bind_def same_tables_def)
  next
    case (Inr s)
    obtain r2 h2 where c2: "next_generation s h1 = (r2, h2)" by (cases "next_generation s h1")
    have T2: "tracks c W h0 h2" "same_tables h1 h2" "slot_unused s h2"
      "hub_next_opaque_token h2 = hub_next_opaque_token h1"
      "r2 = Inr g \<Longrightarrow> bt_get (hub_resource_generations h2) s = Some g \<and> generation_above h0 s g" for g
      using tracks_next_generation [OF _ _ c2, of c W h0] T1 Inr by auto
    show ?thesis
    proof (cases r2)
      case (Inl e)
      with room call c1 T1 Inr c2 T2 show ?thesis
        by (auto simp: create_resource_value_locked_def s_bind_def same_tables_def)
    next
      case g: (Inr g)
      obtain r3 h3 where c3: "next_token h2 = (r3, h3)" by (cases "next_token h2")
      have T3: "tracks c W h0 h3" "same_tables h2 h3"
        "hub_resource_generations h3 = hub_resource_generations h2" "slot_unused s h3"
        "\<And>t. r3 = Inr t \<Longrightarrow> t = hub_next_opaque_token h3 \<and> hub_next_opaque_token h2 < t"
        using tracks_next_token [OF T2(1) c3, of s] T2(3) by auto
      show ?thesis
      proof (cases r3)
        case (Inl e)
        with room call c1 T1 Inr c2 T2 g c3 T3 show ?thesis
          by (auto simp: create_resource_value_locked_def s_bind_def same_tables_def)
      next
        case t: (Inr t)
        let ?slot = "\<lparr>rs_identity = \<lparr>id_scope = hc_scope c, id_slot = s, id_generation = g,
            id_kind = kind, id_rights = rights\<rparr>, rs_store = store, rs_shareable = shareable,
            rs_value = v, rs_reserved = True, rs_committing = False\<rparr>"
        have r: "r = Inr t" "h' = insert_resource t ?slot h3"
          using call room c1 Inr c2 g c3 t
          by (auto simp: create_resource_value_locked_def s_bind_def)
        note S = T1 [THEN conjunct2, THEN conjunct1] T2(2) T3(2)
        have same: "same_tables h h3" using S by (simp add: same_tables_def)
        have tok: "t = hub_next_opaque_token h3" "hub_next_opaque_token h2 < t" using T3(5) [OF t] by auto
        have "tracks c W h0 (insert_resource t ?slot h3)"
        proof (rule tracks_insert_resource [OF T3(1) T2(1) T3(2) _ _ _ tok(2)])
          show "\<not> hub_closed h3" "length (hub_resources h3) < hc_maximum_resources c"
            "is_blob (rs_value ?slot) \<Longrightarrow> live_blobs h3 < maximum_live_blobs (hc_blob_limits c)"
            using room same by (simp_all add: same_tables_def live_blobs_def)
        qed (use T3(3,4) T2(5) [OF g] v tok in \<open>simp_all add: resource_ok_def fresh_value_def\<close>)
        then show ?thesis
          using r same tok T1 T2(4)
          by (auto simp: insert_resource_def same_tables_def created_slot_def)
      qed
    qed
  qed
qed

lemma tracks_publish:
  "tracks c W h0 h \<Longrightarrow> tracks c W h0 (snd (publish_resource e t h))"
  by (auto simp: publish_resource_def split: option.splits intro: tracks_resource_flag)

section \<open>Submitting\<close>

definition borrowed :: "hub_config \<Rightarrow> store_id \<Rightarrow> token option \<Rightarrow> u8 \<Rightarrow> u8 \<Rightarrow> hub \<Rightarrow> bool" where
  "borrowed c store resource kind rights h \<longleftrightarrow>
     (\<forall>b. resource = Some b \<longrightarrow>
        (\<exists>slot. bt_get (hub_resources h) b = Some slot \<and> check_borrow c store slot kind rights = Inr ()))"

lemma submit_cases:
  obtains (refused) e where "submit_locked c store resource kind rights h = (Inl e, h)"
  | (admitted) "\<not> hub_closed h" "length (hub_operations h) < hc_maximum_operations c"
      "borrowed c store resource kind rights h"
      "submit_locked c store resource kind rights h =
         s_bind next_token (\<lambda>t h. (Inr t, h\<lparr>hub_operations :=
           bt_insert t (new_operation store resource rights) (hub_operations h)\<rparr>)) h"
proof (cases "\<not> hub_closed h \<and> length (hub_operations h) < hc_maximum_operations c")
  case False
  then show thesis by (intro refused [of "if hub_closed h then Closed else Quota"]) (auto simp: submit_locked_def)
next
  case room: True
  let ?check = "case resource of None \<Rightarrow> Inr ()
    | Some t \<Rightarrow> (case bt_get (hub_resources h) t of None \<Rightarrow> Inl Invalid
        | Some slot \<Rightarrow> check_borrow c store slot kind rights)"
  show thesis
  proof (cases ?check)
    case (Inl e)
    with room show thesis by (intro refused [of e]) (simp add: submit_locked_def)
  next
    case (Inr u)
    then have "borrowed c store resource kind rights h"
      by (auto simp: borrowed_def split: option.splits)
    with room Inr show thesis by (intro admitted) (simp_all add: submit_locked_def)
  qed
qed

lemma tracks_submit:
  assumes T: "tracks c W h0 h" and call: "submit_locked c store resource kind rights h = (r, h')"
  shows "tracks c W h0 h' \<and> hub_resources h' = hub_resources h \<and> hub_closed h' = hub_closed h
    \<and> hub_log h' = hub_log h
    \<and> (\<forall>t. r = Inr t \<longrightarrow> hub_next_opaque_token h < t \<and> t \<le> hub_next_opaque_token h'
         \<and> \<not> hub_closed h \<and> borrowed c store resource kind rights h
         \<and> bt_get (hub_operations h') t = Some (new_operation store resource rights))
    \<and> (\<forall>x. x \<le> hub_next_opaque_token h \<longrightarrow> bt_get (hub_operations h') x = bt_get (hub_operations h) x)"
proof (cases rule: submit_cases [of c store resource kind rights h])
  case (refused e)
  with T call show ?thesis by auto
next
  case admitted
  obtain r1 h1 where t: "next_token h = (r1, h1)" by (cases "next_token h")
  have T1: "tracks c W h0 h1" "same_tables h h1"
    "\<And>t. r1 = Inr t \<Longrightarrow> t = hub_next_opaque_token h1 \<and> hub_next_opaque_token h < t"
    using tracks_next_token [OF T t] by auto
  show ?thesis
  proof (cases r1)
    case (Inl e)
    with call admitted t have "r = Inl e" "h' = h1" by (auto simp: s_bind_def)
    with T1 show ?thesis by (simp add: same_tables_def)
  next
    case (Inr t')
    let ?h = "h1\<lparr>hub_operations := bt_insert t' (new_operation store resource rights) (hub_operations h1)\<rparr>"
    have r: "r = Inr t'" "h' = ?h" using call admitted(4) t Inr by (auto simp: s_bind_def)
    have tok: "t' = hub_next_opaque_token h1" "hub_next_opaque_token h < t'" using T1(3) [OF Inr] by auto
    note fresh = fresh_token [OF tracks_inv [OF T] tok(2)]
    have "b \<le> hub_next_opaque_token h1" if b: "resource = Some b" for b
    proof -
      have "tables_ok h" using T by (simp add: tracks_def hub_inv_def)
      with admitted(3) b have "b \<le> hub_next_opaque_token h" by (auto simp: borrowed_def tables_ok_def)
      with tok show ?thesis by simp
    qed
    moreover have "\<not> rs_committing r" if "resource = Some b" "bt_get (hub_resources h) b = Some r" for b r
      using admitted(3) that by (auto simp: borrowed_def check_borrow_def split: if_splits)
    moreover have "hub_next_opaque_token h0 < t'"
      using T tok(2) by (simp add: tracks_def evolves_def)
    ultimately have "tracks c W h0 ?h"
      using admitted T1(2) fresh tok(1)
      by (intro tracks_insert_operation [OF T1(1)]) (simp_all add: same_tables_def)
    then show ?thesis
      unfolding r using T1(2) admitted(1,3) tok by (simp add: same_tables_def)
  qed
qed

text \<open>What a successful borrow shows of the resource.\<close>

lemma borrowed_blob:
  assumes "hub_inv c W h" "borrowed c store (Some b) BLOB_RESOURCE_KIND rights h"
  shows "\<exists>slot. bt_get (hub_resources h) b = Some slot \<and> is_blob (rs_value slot)"
proof -
  obtain slot where s: "bt_get (hub_resources h) b = Some slot"
    "check_borrow c store slot BLOB_RESOURCE_KIND rights = Inr ()"
    using assms(2) by (auto simp: borrowed_def)
  have "resource_ok c slot" using assms(1) s(1) by (simp add: hub_inv_def resources_ok_def)
  moreover have "id_kind (rs_identity slot) = BLOB_RESOURCE_KIND"
    using s(2) by (auto simp: check_borrow_def split: if_splits)
  ultimately have "value_kind (rs_value slot) = BLOB_RESOURCE_KIND" by (simp add: resource_ok_def)
  then have "is_blob (rs_value slot)"
    by (cases "rs_value slot") (simp_all add: GRANT_KIND_def PROCESS_KIND_def HASH_KIND_def
        SYNTHETIC_RESOURCE_KIND_def EXTERNAL_WEBVIEW_RESOURCE_KIND_def WEBVIEW_URL_RESOURCE_KIND_def
        BLOB_RESOURCE_KIND_def OUTPUT_RESOURCE_KIND_def)
  with s(1) show ?thesis by blast
qed

section \<open>Closing the hub\<close>

lemma get_map_values:
  "bt_get (map (\<lambda>(k, v). (k, f v)) m) k = map_option f (bt_get m k)"
  by (induction m) auto

lemma close_slot_simps [simp]:
  "\<exists>r. op_terminal (close_slot t op) = Some r"
  "op_resource (close_slot t op) = op_resource op"
  "op_is_compiler_read (close_slot t op) = op_is_compiler_read op"
  "op_is_blob_read (close_slot t op) = op_is_blob_read op"
  "op_is_blob_write (close_slot t op) = op_is_blob_write op"
  "reads_process (close_slot t op) = reads_process op"
  "op_blob_read_result (close_slot t op) = None"
  "op_compiler_output (close_slot t op) = None"
  "\<not> op_producer_cancel (close_slot t op)" "\<not> op_progress_timeout_cancel (close_slot t op)"
  by (auto simp: close_slot_def reads_process_def Let_def)

lemma close_slot_pending:
  "op_ok c op \<Longrightarrow> op_pending_blob_write (close_slot t op) = None \<and> op_pending_blob_read (close_slot t op) = None"
  by (cases "op_pending_blob_write op"; cases "op_pending_blob_read op")
    (simp_all add: close_slot_def op_ok_def Let_def)

lemma op_step_close: "op_ok c op \<Longrightarrow> op_step c op (close_slot t op)"
  using close_slot_pending [of c op t]
  by (simp add: op_step_def op_ok_def op_charge_def option_length_def)

lemma op_evolves_close:
  "t \<noteq> T_Completed \<Longrightarrow> op_evolves op (close_slot t op)"
  by (cases "op_terminal op = None \<or> ready_read op")
    (auto simp: op_evolves_def close_slot_def Let_def)

lemma total_map_values_le:
  "(\<And>v. v \<in> snd ` set m \<Longrightarrow> w (f v) \<le> (w v :: nat)) \<Longrightarrow> bt_total w (map (\<lambda>(k, v). (k, f v)) m) \<le> bt_total w m"
proof (induction m)
  case (Cons x m)
  obtain k v where x: "x = (k, v)" by (cases x)
  have "bt_total w (map (\<lambda>(k, v). (k, f v)) m) \<le> bt_total w m" by (rule Cons.IH) (use Cons.prems in auto)
  moreover have "w (f v) \<le> w v" by (rule Cons.prems) (simp add: x)
  ultimately show ?case by (simp add: x bt_total_def)
qed simp

lemma close_locked_shape:
  "close_locked t h =
     (let wakes = map fst (filter (\<lambda>(_, op). op_terminal op = None \<or> ready_read op) (hub_operations h)) in
      h\<lparr>hub_closed := True, hub_resources := [], hub_buffered_blob_bytes := 0,
        hub_free_resource_slots := [],
        hub_operations := map (\<lambda>(k, op). (k, close_slot t op)) (hub_operations h),
        hub_log := hub_log h
          @ (concat (map (\<lambda>(k, r). drop_events k r) (hub_resources h))
          @ concat (map (\<lambda>(k, op). cancel_events k op) (hub_operations h)) @ map Notified wakes)\<rparr>)"
  by (simp add: close_locked_def Let_def notify_all_def)

lemma wakes_close_locked:
  assumes "wakes_ok W h"
  shows "wakes_ok W (close_locked t h)"
  unfolding wakes_ok_def
proof (intro allI impI)
  fix k op'
  assume "bt_get (hub_operations (close_locked t h)) k = Some op'"
  then obtain op where op: "bt_get (hub_operations h) k = Some op"
    by (auto simp: close_locked_shape Let_def get_map_values)
  let ?ws = "map fst (filter (\<lambda>(_, op). op_terminal op = None \<or> ready_read op) (hub_operations h))"
  obtain es where log: "hub_log (close_locked t h) = (hub_log h @ es) @ map Notified ?ws"
    by (simp add: close_locked_def Let_def notify_all_def)
  show "k \<in> W \<or> Notified k \<in> set (hub_log (close_locked t h))"
  proof (cases "op_terminal op = None \<or> ready_read op")
    case True
    with map_of_SomeD [OF op] have "k \<in> set ?ws" by force
    then have "Notified k \<in> set (map Notified ?ws)" unfolding set_map by (rule imageI)
    then show ?thesis unfolding log set_append by blast
  next
    case False
    with assms op have "k \<in> W \<or> Notified k \<in> set (hub_log h)" unfolding wakes_ok_def by blast
    then show ?thesis unfolding log set_append by blast
  qed
qed

lemma hub_inv_close_locked:
  assumes inv: "hub_inv c W h"
  shows "hub_inv c W (close_locked t h)"
proof -
  note D = hub_invD [OF inv]
  let ?m = "map (\<lambda>(k, op). (k, close_slot t op)) (hub_operations h)"
  have ok: "op_ok c op" if "op \<in> snd ` set (hub_operations h)" for op
    using that hub_op_ok [OF inv] bt_value_iff [OF D(12)] by auto
  have le: "bt_total w ?m \<le> bt_total w (hub_operations h)"
    if "\<And>op. op_ok c op \<Longrightarrow> w (close_slot t op) \<le> (w op :: nat)" for w
    by (rule total_map_values_le) (use that ok in auto)
  show ?thesis
  proof (rule hub_invI)
    show "tables_ok (close_locked t h)"
      using D(1) by (auto simp: tables_ok_def close_locked_shape Let_def get_map_values comp_def
          case_prod_beta)
    show "quota_ok c (close_locked t h)"
      using D(2) le [of "\<lambda>op. if op_pending_blob_read op \<noteq> None then 1 else 0"]
        le [of "\<lambda>op. if op_pending_blob_write op \<noteq> None then 1 else 0"] close_slot_pending
      by (simp add: quota_ok_def close_locked_shape Let_def live_blobs_def pending_read_count_def
          pending_write_count_def bt_count_total del: not_None_eq)
    show "slots_ok (close_locked t h)"
      by (simp add: slots_ok_def slot_table_ok_def close_locked_shape Let_def)
    show "resources_ok c (close_locked t h)"
      by (simp add: resources_ok_def close_locked_shape Let_def)
    show "ops_ok c (close_locked t h)"
      using hub_op_ok [OF inv] op_step_close
      by (auto simp: ops_ok_def close_locked_shape Let_def get_map_values op_step_def)
    show "ledger_ok c (close_locked t h)"
      using D(6) le [of "\<lambda>op. option_length (op_pending_blob_write op)"]
        le [of "\<lambda>op. option_length (op_blob_read_result op)"] close_slot_pending
      by (simp add: ledger_ok_def close_locked_shape Let_def pending_write_bytes_def
          completed_read_bytes_def blob_charge_def option_length_def)
    show "transfer_ok c (close_locked t h)"
      using D(7) le [of op_charge] op_step_close
      by (simp add: transfer_ok_def close_locked_shape Let_def transfer_sum_def blob_charge_def
          op_step_def)
    show "tombstones_ok (close_locked t h)"
      using D(8) by (simp add: tombstones_ok_def close_locked_shape Let_def)
    show "closed_ok (close_locked t h)"
      by (auto simp: closed_ok_def close_locked_shape Let_def get_map_values)
    show "wakes_ok W (close_locked t h)"
      by (rule wakes_close_locked [OF D(10)])
    show "commits_ok (close_locked t h)"
      by (simp add: commits_ok_def close_locked_shape Let_def)
  qed
qed

lemma tracks_close_locked:
  assumes "tracks c W h0 h" "t \<noteq> T_Completed"
  shows "tracks c W h0 (close_locked t h)"
proof -
  have "evolves h (close_locked t h)"
    using op_evolves_close [OF assms(2)]
    by (auto simp: evolves_def close_locked_shape Let_def get_map_values)
  with assms(1) show ?thesis
    using hub_inv_close_locked changes_trans by (auto simp: tracks_def)
qed

end
