(* ===== verification/Hub_Sections.thy ===== *)
theory Hub_Sections
  imports Hub_Track
begin

text \<open>
  Every locked section of the hub keeps the invariant and moves the hub forward
  (\<open>tracks\<close>), from any state the invariant allows and with any arguments. The sections stand
  in the order of the code.
\<close>

section \<open>Sections of one method\<close>

lemmas op_flag_defs = op_step_def op_ok_def op_charge_def op_evolves_def role_ok_def reads_process_def

lemma tracks_flag_operation:
  assumes T: "tracks c W h0 h"
    and f: "\<And>op. bt_get (hub_operations h) t = Some op \<Longrightarrow> op_ok c op \<Longrightarrow>
      op_step c op (f op) \<and> (t \<le> hub_next_opaque_token h0 \<longrightarrow> op_evolves op (f op))
      \<and> op_terminal (f op) = op_terminal op \<and> role_ok h op (f op)"
  shows "tracks c W h0 (update_operation t f h)"
proof (cases "bt_get (hub_operations h) t")
  case None
  with T show ?thesis by (simp add: update_operation_absent)
next
  case (Some op)
  with T have "op_ok c op" by (auto simp: tracks_def intro: hub_op_ok)
  with f [OF Some] T Some show ?thesis
    by (intro tracks_update_operation [of c W h0 h t op]) simp_all
qed

lemma tracks_attach_created:
  "tracks c W h0 h \<Longrightarrow> tracks c W h0 (snd (attach_created_resource operation resource h))"
  by (auto simp: attach_created_resource_def op_flag_defs
      split: option.splits
      intro!: tracks_release_reservation tracks_remove_operation tracks_flag_operation)

lemma tracks_take_terminal:
  "tracks c W h0 h \<Longrightarrow> tracks c W h0 (snd (take_terminal t store h))"
  by (auto simp: take_terminal_def split: option.splits intro!: tracks_remove_operation)

lemma tracks_bind_producer:
  "tracks c W h0 h \<Longrightarrow> tracks c W h0 (snd (bind_producer_cancellation store t h))"
  by (auto simp: bind_producer_cancellation_def op_flag_defs
      split: option.splits intro!: tracks_log tracks_flag_operation)

lemma tracks_finish_external_open:
  assumes "tracks c W h0 h"
  shows "tracks c W h0 (snd (finish_external_open operation resource h))"
proof (cases "terminal_locked operation \<lparr>tr_terminal = T_Completed, tr_resource = Some resource\<rparr> h")
  case (Pair n h')
  from tracks_terminal_locked [OF assms this] assms Pair show ?thesis
    by (auto simp: finish_external_open_def split: sum.splits intro: tracks_notify_option)
qed

lemma tracks_natives:
  "tracks c W h0 h \<Longrightarrow> tracks c W h0 (snd (acquire_native_open c' h))"
  "tracks c W h0 h \<Longrightarrow> tracks c W h0 (snd (acquire_native_capture c' h))"
  "tracks c W h0 h \<Longrightarrow> tracks c W h0 (drop_native_open h)"
  "tracks c W h0 h \<Longrightarrow> tracks c W h0 (drop_native_capture h)"
  by (simp_all add: acquire_native_open_def acquire_native_capture_def drop_native_open_def
      drop_native_capture_def)

section \<open>Moving capacity\<close>

text \<open>Charges outside of the tables, with the high-water mark.\<close>

lemma tracks_charges:
  assumes T: "tracking s c W h0 h"
    and sum: "transfer_sum h + (n + p + q)
      \<le> peak + (hub_native_transfer_capacity h + hub_reserved_process_output_bytes h
                + hub_reserved_native_process_output_bytes h)"
    and peak: "peak \<le> maximum_transfer_bytes (hc_blob_limits c)"
  shows "tracking s c W h0 (h\<lparr>hub_native_transfer_capacity := n, hub_reserved_process_output_bytes := p,
           hub_reserved_native_process_output_bytes := q,
           hub_peak_retained_transfer_capacity := peak\<rparr>)"
proof -
  note D = hub_invD [OF tracks_inv [OF T]]
  have "transfer_ok c (h\<lparr>hub_native_transfer_capacity := n, hub_reserved_process_output_bytes := p,
           hub_reserved_native_process_output_bytes := q,
           hub_peak_retained_transfer_capacity := peak\<rparr>)"
    using sum peak by (simp add: transfer_ok_def transfer_sum_def)
  with D T show ?thesis
    by (simp add: tracks_def hub_inv_def hub_inv_group_defs evolves_def)
qed

text \<open>A buffer changes, together with the ledger and both high-water marks.\<close>

lemma groups_buffer [simp]:
  "tables_ok (h\<lparr>hub_buffered_blob_bytes := a, hub_peak_buffered_blob_bytes := p,
     hub_peak_retained_transfer_capacity := q\<rparr>) = tables_ok h"
  "quota_ok c (h\<lparr>hub_buffered_blob_bytes := a, hub_peak_buffered_blob_bytes := p,
     hub_peak_retained_transfer_capacity := q\<rparr>) = quota_ok c h"
  "slots_ok (h\<lparr>hub_buffered_blob_bytes := a, hub_peak_buffered_blob_bytes := p,
     hub_peak_retained_transfer_capacity := q\<rparr>) = slots_ok h"
  "resources_ok c (h\<lparr>hub_buffered_blob_bytes := a, hub_peak_buffered_blob_bytes := p,
     hub_peak_retained_transfer_capacity := q\<rparr>) = resources_ok c h"
  "ops_ok c (h\<lparr>hub_buffered_blob_bytes := a, hub_peak_buffered_blob_bytes := p,
     hub_peak_retained_transfer_capacity := q\<rparr>) = ops_ok c h"
  "tombstones_ok (h\<lparr>hub_buffered_blob_bytes := a, hub_peak_buffered_blob_bytes := p,
     hub_peak_retained_transfer_capacity := q\<rparr>) = tombstones_ok h"
  "closed_ok (h\<lparr>hub_buffered_blob_bytes := a, hub_peak_buffered_blob_bytes := p,
     hub_peak_retained_transfer_capacity := q\<rparr>) = closed_ok h"
  "wakes_ok W (h\<lparr>hub_buffered_blob_bytes := a, hub_peak_buffered_blob_bytes := p,
     hub_peak_retained_transfer_capacity := q\<rparr>) = wakes_ok W h"
  "commits_ok (h\<lparr>hub_buffered_blob_bytes := a, hub_peak_buffered_blob_bytes := p,
     hub_peak_retained_transfer_capacity := q\<rparr>) = commits_ok h"
  "changes s h0 (h\<lparr>hub_buffered_blob_bytes := a, hub_peak_buffered_blob_bytes := p,
     hub_peak_retained_transfer_capacity := q\<rparr>) = changes s h0 h"
  by (simp_all add: hub_inv_group_defs evolves_def)

lemma value_evolves_blob: "value_evolves v v' \<Longrightarrow> is_blob v' = is_blob v"
  by (cases v; cases v') auto

lemma value_evolves_sealed: "value_evolves v v' \<Longrightarrow> is_sealed v \<Longrightarrow> is_sealed v'"
  by (cases v; cases v') auto

lemma tracks_change_buffer:
  assumes T: "tracking s c W h0 h" and r: "bt_get (hub_resources h) t = Some r"
    and f: "resource_ok c (f r)" "resource_change s r (f r)" "rs_committing (f r) = rs_committing r"
    and bytes: "buffered + blob_length (rs_value r)
        = hub_buffered_blob_bytes h + blob_length (rs_value (f r))"
      "buffered \<le> pb" "pb \<le> maximum_sketch_bytes (hc_blob_limits c)"
    and charge: "blob_charge (hub_resources h) + blob_capacity (rs_value (f r))
        \<le> maximum_sketch_bytes (hc_blob_limits c) + blob_capacity (rs_value r)"
      "transfer_sum h + blob_capacity (rs_value (f r)) \<le> pt + blob_capacity (rs_value r)"
      "pt \<le> maximum_transfer_bytes (hc_blob_limits c)"
  shows "tracking s c W h0 ((update_resource t f h)\<lparr>hub_buffered_blob_bytes := buffered,
           hub_peak_buffered_blob_bytes := pb, hub_peak_retained_transfer_capacity := pt\<rparr>)"
proof -
  note inv = tracks_inv [OF T]
  note D = hub_invD [OF inv]
  let ?h = "(update_resource t f h)\<lparr>hub_buffered_blob_bytes := buffered,
           hub_peak_buffered_blob_bytes := pb, hub_peak_retained_transfer_capacity := pt\<rparr>"
  have E: "id_slot (rs_identity (f r)) = id_slot (rs_identity r)"
    "id_generation (rs_identity (f r)) = id_generation (rs_identity r)"
    "is_blob (rs_value (f r)) = is_blob (rs_value r)"
    using f(2) by (simp_all add: resource_evolves_def value_evolves_blob)
  have "value_evolves (rs_value r) (rs_value (f r))" using f(2) by (simp add: resource_change_def)
  note sealed = value_evolves_sealed [OF this]
  note G = groups_update_resource [where f = f, OF inv r f(1) E]
    commits_update_resource [where f = f, OF D(13) r E(3) iffD1 [OF f(3)] sealed]
  have len: "buffered = bt_total (\<lambda>r. blob_length (rs_value r)) (bt_modify t f (hub_resources h))"
    using bt.total_modify [OF D(11) r, of "\<lambda>r. blob_length (rs_value r)" f] bytes(1) D(6)
    by (simp add: ledger_ok_def)
  have cap: "blob_charge (bt_modify t f (hub_resources h)) + blob_capacity (rs_value r)
      = blob_charge (hub_resources h) + blob_capacity (rs_value (f r))"
    unfolding blob_charge_def by (rule bt.total_modify [OF D(11) r])
  have "ledger_ok c ?h"
    using D(6) len cap bytes charge(1)
    by (simp add: ledger_ok_def update_resource_def pending_write_bytes_def completed_read_bytes_def)
  moreover have "transfer_ok c ?h"
    using cap charge(2,3) by (simp add: transfer_ok_def transfer_sum_def update_resource_def)
  moreover have "changes s h0 (update_resource t f h)"
    using T r f(2) by (auto simp: tracks_def intro: evolves_update_resource)
  ultimately show ?thesis using G by (simp add: tracks_def hub_inv_def)
qed

text \<open>An operation takes up charge, within the bounds.\<close>

lemma tracks_charge_operation:
  assumes T: "tracks c W h0 h" and op: "bt_get (hub_operations h) t = Some op"
    and f: "op_ok c (f op)" "t \<le> hub_next_opaque_token h0 \<Longrightarrow> op_evolves op (f op)"
      "op_resource (f op) = op_resource op" "op_terminal (f op) = op_terminal op"
      "reads_process (f op) = reads_process op"
    and blob: "\<And>b r. op_pending_blob_write (f op) \<noteq> None \<or> op_pending_blob_read (f op) \<noteq> None \<Longrightarrow>
        op_resource op = Some b \<Longrightarrow> bt_get (hub_resources h) b = Some r \<Longrightarrow> is_blob (rs_value r)"
    and waits: "op_pending_blob_read (f op) \<noteq> None \<Longrightarrow> op_pending_blob_read op = None \<Longrightarrow>
        pending_read_count h < maximum_pending_reads (hc_blob_limits c)"
      "op_pending_blob_write (f op) \<noteq> None \<Longrightarrow> op_pending_blob_write op = None \<Longrightarrow>
        pending_write_count h < maximum_pending_writes (hc_blob_limits c)"
    and bytes: "pending_write_bytes h + option_length (op_pending_blob_write (f op))
        \<le> maximum_sketch_bytes (hc_blob_limits c) + option_length (op_pending_blob_write op)"
      "completed_read_bytes h + option_length (op_blob_read_result (f op))
        \<le> maximum_sketch_bytes (hc_blob_limits c) + option_length (op_blob_read_result op)"
    and charge: "transfer_sum h + op_charge (f op) + p
        \<le> peak + op_charge op + hub_reserved_process_output_bytes h"
      "peak \<le> maximum_transfer_bytes (hc_blob_limits c)"
  shows "tracks c W h0 ((update_operation t f h)\<lparr>hub_reserved_process_output_bytes := p,
           hub_peak_retained_transfer_capacity := peak\<rparr>)" (is "tracks c W h0 ?h")
proof -
  note D = hub_invD [OF tracks_inv [OF T]]
  have tot: "bt_total w (bt_modify t f (hub_operations h)) + w op = bt_total w (hub_operations h) + w (f op)" for w
    by (rule bt.total_modify [OF D(12) op])
  have count: "bt_count P (bt_modify t f (hub_operations h)) \<le> m"
    if "bt_count P (hub_operations h) \<le> m" "P (f op) \<Longrightarrow> \<not> P op \<Longrightarrow> bt_count P (hub_operations h) < m" for P m
    using that tot [of "\<lambda>op. if P op then 1 else 0"]
    by (auto simp: bt_count_total split: if_splits)
  have q: "quota_ok c ?h"
    using D(2) waits count [of "\<lambda>op. op_pending_blob_read op \<noteq> None"]
      count [of "\<lambda>op. op_pending_blob_write op \<noteq> None"]
    by (simp add: quota_ok_def update_operation_def live_blobs_def pending_read_count_def
        pending_write_count_def del: not_None_eq)
  have l: "ledger_ok c ?h"
    using D(6) bytes tot [of "\<lambda>op. option_length (op_pending_blob_write op)"]
      tot [of "\<lambda>op. option_length (op_blob_read_result op)"]
    by (simp add: ledger_ok_def update_operation_def pending_write_bytes_def completed_read_bytes_def)
  have s: "transfer_ok c ?h"
    using charge tot [of op_charge] by (simp add: transfer_ok_def transfer_sum_def update_operation_def)
  have o: "ops_ok c ?h"
    using D(5) f(1,3) blob op by (auto simp: ops_ok_def update_operation_def)
  have t: "tables_ok ?h"
    using D(1) f(3) op by (auto simp: tables_ok_def update_operation_def)
  have w: "closed_ok ?h" "wakes_ok W ?h"
    using D(9,10) f(4) op by (auto simp: closed_ok_def wakes_ok_def update_operation_def)
  have m: "commits_ok ?h"
    using D(13) f(3-5) op by (auto simp: commits_ok_def update_operation_def)
  have e: "evolves h0 ?h"
    using evolves_update_operation [of h0 h t op f] T op f(2)
    by (simp add: tracks_def evolves_def update_operation_def)
  show ?thesis
    unfolding tracks_def hub_inv_def using q l s o t w e m D(3,4,8)
    by (simp add: slots_ok_def resources_ok_def tombstones_ok_def update_operation_def)
qed

section \<open>Buffers\<close>

lemma limitsD:
  assumes "limits_ok c"
  shows "maximum_sketch_bytes (hc_blob_limits c) < usize_max"
    "maximum_blob_bytes (hc_blob_limits c) < usize_max"
    "maximum_transfer_bytes (hc_blob_limits c) < usize_max"
    "transfer_maximum c \<le> maximum_transfer_bytes (hc_blob_limits c)"
    "transfer_maximum c < usize_max"
    "maximum_sketch_bytes (hc_blob_limits c) \<le> maximum_transfer_bytes (hc_blob_limits c)"
  using assms by (auto simp: limits_ok_def transfer_maximum_def)

lemma saturating_min_le:
  "m < usize_max \<Longrightarrow> saturating_add (min a usize_max) b \<le> m \<longleftrightarrow> a + b \<le> m"
  by (auto simp: saturating_add_def min_def)

lemma resource_value_Some:
  "resource_value h b = Some v \<longleftrightarrow> (\<exists>r. bt_get (hub_resources h) b = Some r \<and> rs_value r = v)"
  by (auto simp: resource_value_def)

lemma set_buffer_simps [simp]:
  "rs_identity (set_buffer d r) = rs_identity r" "rs_store (set_buffer d r) = rs_store r"
  "rs_shareable (set_buffer d r) = rs_shareable r" "rs_reserved (set_buffer d r) = rs_reserved r"
  "rs_committing (set_buffer d r) = rs_committing r"
  "rs_value r = Blob d0 sealed \<Longrightarrow> rs_value (set_buffer d r) = Blob d sealed"
  by (simp_all add: set_buffer_def split: ResourceValue.splits)

lemma resource_keeps:
  assumes "resource_ok c r" "rs_identity r' = rs_identity r" "rs_store r' = rs_store r"
    "rs_shareable r' = rs_shareable r" "rs_reserved r' = rs_reserved r" "rs_committing r' = rs_committing r"
    "value_evolves (rs_value r) (rs_value r')" "value_ok c (rs_value r')"
    "s \<longrightarrow> rs_committing r \<longrightarrow> rs_value r' = rs_value r"
  shows "resource_ok c r'" "resource_change s r r'"
proof -
  have "value_kind (rs_value r') = value_kind (rs_value r)"
    using assms(7) by (cases "rs_value r"; cases "rs_value r'") auto
  with assms show "resource_ok c r'" "resource_change s r r'"
    by (simp_all add: resource_ok_def resource_evolves_def value_evolves_blob)
qed

text \<open>A blob that still takes writes, or that an open operation waits for, is not being committed.\<close>

lemma not_committing:
  assumes "hub_inv c W h" "bt_get (hub_resources h) b = Some r"
  shows "\<not> is_sealed (rs_value r) \<Longrightarrow> \<not> rs_committing r"
    "bt_get (hub_operations h) t = Some op \<Longrightarrow> op_resource op = Some b \<Longrightarrow> op_terminal op = None \<Longrightarrow>
       \<not> rs_committing r"
  using hub_invD(13) [OF assms(1)] assms(2) unfolding commits_ok_def by blast+

lemma drop_self [simp]: "\<exists>n. xs = drop n xs"
  by (rule exI [of _ 0]) simp

text \<open>The growth of a buffer, and when it happens.\<close>

lemma tracks_reserve:
  assumes T: "tracks c W h0 h" and lim: "limits_ok c"
    and call: "reserve_blob_capacity c b n (maximum_sketch_bytes (hc_blob_limits c)) (transfer_maximum c) h = (x, h')"
    and free: "\<And>r. bt_get (hub_resources h) b = Some r \<Longrightarrow> \<not> rs_committing r"
  shows "tracks c W h0 h' \<and> hub_operations h' = hub_operations h \<and> hub_closed h' = hub_closed h
    \<and> hub_buffered_blob_bytes h' = hub_buffered_blob_bytes h
    \<and> hub_next_opaque_token h' = hub_next_opaque_token h
    \<and> (x = Inr () \<longrightarrow> (\<exists>r d sealed d'. bt_get (hub_resources h) b = Some r \<and> rs_value r = Blob d sealed
         \<and> bt_get (hub_resources h') b = Some (set_buffer d' r) \<and> dq_bytes d' = dq_bytes d
         \<and> length (dq_bytes d) + n \<le> dq_capacity d'))"
proof (cases "x = Inr ()")
  case False
  then have "h' = h"
    using call by (auto simp: reserve_blob_capacity_def Let_def split: option.splits ResourceValue.splits if_splits)
  with False T show ?thesis by simp
next
  case True
  note inv = tracks_inv [OF T] and L = limitsD [OF lim]
  obtain d sealed where v: "resource_value h b = Some (Blob d sealed)"
    using True call by (auto simp: reserve_blob_capacity_def Let_def split: option.splits ResourceValue.splits)
  then obtain r where r: "bt_get (hub_resources h) b = Some r" "rs_value r = Blob d sealed"
    by (auto simp: resource_value_Some)
  let ?g = "length (dq_bytes d) + n - dq_capacity d"
  obtain d' where d': "try_reserve_exact c n d = Some d'"
    and h': "h' = record_transfer_capacity (update_resource b (set_buffer d') h)"
    and le: "saturating_add (retained_blob_capacity h) ?g \<le> maximum_sketch_bytes (hc_blob_limits c)"
      "saturating_add (transfer_capacity h) ?g \<le> transfer_maximum c"
    using True call v
    by (auto simp: reserve_blob_capacity_def Let_def checked_add_def split: option.splits if_splits)
  have cap: "dq_bytes d' = dq_bytes d" "dq_capacity d' = dq_capacity d + ?g"
    "length (dq_bytes d) + n \<le> dq_capacity d'"
    using d' by (auto simp: try_reserve_exact_def Let_def split: if_splits)
  have sums: "blob_charge (hub_resources h) + ?g \<le> maximum_sketch_bytes (hc_blob_limits c)"
    "transfer_sum h + ?g \<le> transfer_maximum c"
    using le L by (simp_all add: retained_blob_capacity_charge transfer_capacity_sum saturating_min_le)
  have ok: "resource_ok c r" using inv r(1) by (simp add: hub_inv_def resources_ok_def)
  have D: "ledger_ok c h" "transfer_ok c h" "bt_wf (hub_resources h)" using inv by (simp_all add: hub_inv_def tables_ok_def)
  have sum': "transfer_sum (update_resource b (set_buffer d') h) = transfer_sum h + ?g"
    using bt.total_modify_plus [OF D(3) r(1), of "\<lambda>r. blob_capacity (rs_value r)" "set_buffer d'" ?g] r(2) cap(2)
    by (simp add: transfer_sum_def update_resource_def blob_charge_def)
  have "tracks c W h0 ((update_resource b (set_buffer d') h)
      \<lparr>hub_buffered_blob_bytes := hub_buffered_blob_bytes h,
       hub_peak_buffered_blob_bytes := hub_peak_buffered_blob_bytes h,
       hub_peak_retained_transfer_capacity := max (hub_peak_retained_transfer_capacity h) (transfer_sum h + ?g)\<rparr>)"
  proof (rule tracks_change_buffer [OF T r(1)])
    have "value_ok c (rs_value (set_buffer d' r))"
      using ok r(2) cap by (simp add: resource_ok_def value_ok_def)
    then show "resource_ok c (set_buffer d' r)" "resource_evolves r (set_buffer d' r)"
      using resource_keeps [OF ok, of "set_buffer d' r" True] r(2) cap free [OF r(1)] by simp_all
  qed (use D sums L r(2) cap in \<open>auto simp: ledger_ok_def transfer_ok_def\<close>)
  moreover have "transfer_capacity (update_resource b (set_buffer d') h) = transfer_sum h + ?g"
    using sum' sums(2) L by (simp add: transfer_capacity_sum)
  ultimately show ?thesis
    using True h' r cap by (auto simp: record_transfer_capacity_def update_resource_def)
qed

lemma extend_slot_simps [simp]:
  "rs_identity (extend_slot bytes r) = rs_identity r" "rs_store (extend_slot bytes r) = rs_store r"
  "rs_shareable (extend_slot bytes r) = rs_shareable r" "rs_reserved (extend_slot bytes r) = rs_reserved r"
  "rs_committing (extend_slot bytes r) = rs_committing r"
  by (simp_all add: extend_slot_def split: ResourceValue.splits)

lemma extend_slot_value:
  "rs_value r = Blob d sealed \<Longrightarrow>
   rs_value (extend_slot bytes r) = Blob (d\<lparr>dq_bytes := dq_bytes d @ bytes\<rparr>) sealed"
  by (simp add: extend_slot_def)

lemma tracks_append:
  assumes T: "tracks c W h0 h" and r: "bt_get (hub_resources h) b = Some r" "rs_value r = Blob d False"
    and room: "length (dq_bytes d) + length bytes \<le> dq_capacity d"
      "length (dq_bytes d) + length bytes \<le> maximum_blob_bytes (hc_blob_limits c)"
      "hub_buffered_blob_bytes h + length bytes \<le> maximum_sketch_bytes (hc_blob_limits c)"
  shows "tracks c W h0 (append_blob b bytes h)"
proof -
  note inv = tracks_inv [OF T]
  have ok: "resource_ok c r" using inv r(1) by (simp add: hub_inv_def resources_ok_def)
  have D: "ledger_ok c h" "transfer_ok c h" using inv by (simp_all add: hub_inv_def)
  note v = extend_slot_value [OF r(2), of bytes]
  have "tracks c W h0 ((update_resource b (extend_slot bytes) h)
      \<lparr>hub_buffered_blob_bytes := hub_buffered_blob_bytes h + length bytes,
       hub_peak_buffered_blob_bytes := max (hub_peak_buffered_blob_bytes h) (hub_buffered_blob_bytes h + length bytes),
       hub_peak_retained_transfer_capacity := hub_peak_retained_transfer_capacity h\<rparr>)"
  proof (rule tracks_change_buffer [OF T r(1)])
    have "value_ok c (rs_value (extend_slot bytes r))"
      using room by (simp add: v value_ok_def)
    then show "resource_ok c (extend_slot bytes r)" "resource_evolves r (extend_slot bytes r)"
      using resource_keeps [OF ok, of "extend_slot bytes r" True] r(2) v not_committing(1) [OF inv r(1)] by simp_all
  qed (use D r(2) room v in \<open>auto simp: ledger_ok_def transfer_ok_def\<close>)
  then show ?thesis by (simp add: append_blob_def Let_def update_resource_def)
qed

lemma drain_slot_simps [simp]:
  "rs_identity (drain_slot n r) = rs_identity r" "rs_store (drain_slot n r) = rs_store r"
  "rs_shareable (drain_slot n r) = rs_shareable r" "rs_reserved (drain_slot n r) = rs_reserved r"
  "rs_committing (drain_slot n r) = rs_committing r"
  by (simp_all add: drain_slot_def Let_def split: ResourceValue.splits)

lemma drain_slot_value:
  assumes "rs_value r = Blob d sealed" "length (dq_bytes d) \<le> dq_capacity d"
  obtains d' where "rs_value (drain_slot n r) = Blob d' sealed" "dq_bytes d' = drop n (dq_bytes d)"
    "dq_capacity d' \<le> dq_capacity d" "length (dq_bytes d') \<le> dq_capacity d'"
  using assms that
  by (cases "drop n (dq_bytes d) = []") (simp_all add: drain_slot_def Let_def vec_deque_new_def)

lemma tracks_drain:
  assumes T: "tracking s c W h0 h" and r: "bt_get (hub_resources h) b = Some r" "rs_value r = Blob d sealed"
    and n: "n \<le> length (dq_bytes d)" and free: "s \<longrightarrow> \<not> rs_committing r"
    and peak: "hub_peak_retained_transfer_capacity h \<le> peak" "peak \<le> maximum_transfer_bytes (hc_blob_limits c)"
  shows "tracking s c W h0 ((update_resource b (drain_slot n) h)
      \<lparr>hub_buffered_blob_bytes := hub_buffered_blob_bytes h - n,
       hub_peak_retained_transfer_capacity := peak\<rparr>)"
    and "transfer_sum ((update_resource b (drain_slot n) h)
      \<lparr>hub_buffered_blob_bytes := hub_buffered_blob_bytes h - n,
       hub_peak_retained_transfer_capacity := peak\<rparr>) \<le> transfer_sum h"
    and "n \<le> hub_buffered_blob_bytes h"
proof -
  note inv = tracks_inv [OF T]
  have ok: "resource_ok c r" using inv r(1) by (simp add: hub_inv_def resources_ok_def)
  have D: "ledger_ok c h" "transfer_ok c h" "bt_wf (hub_resources h)"
    using inv by (simp_all add: hub_inv_def tables_ok_def)
  have "length (dq_bytes d) \<le> dq_capacity d" "length (dq_bytes d) \<le> maximum_blob_bytes (hc_blob_limits c)"
    using ok r(2) by (simp_all add: resource_ok_def value_ok_def)
  with drain_slot_value [OF r(2)] obtain d' where
    d': "rs_value (drain_slot n r) = Blob d' sealed" "dq_bytes d' = drop n (dq_bytes d)"
      "dq_capacity d' \<le> dq_capacity d" "length (dq_bytes d') \<le> dq_capacity d'"
      "length (dq_bytes d) \<le> maximum_blob_bytes (hc_blob_limits c)" by metis
  have le: "length (dq_bytes d) \<le> hub_buffered_blob_bytes h"
    using bt.entry_le_total [OF D(3) r(1), of "\<lambda>r. blob_length (rs_value r)"] D(1) r(2)
    by (simp add: ledger_ok_def)
  then show "n \<le> hub_buffered_blob_bytes h" using n by simp
  have "blob_charge (bt_modify b (drain_slot n) (hub_resources h)) \<le> blob_charge (hub_resources h)"
    unfolding blob_charge_def using r d' by (intro bt.total_modify_le [OF D(3)]) simp
  then show "transfer_sum ((update_resource b (drain_slot n) h)
      \<lparr>hub_buffered_blob_bytes := hub_buffered_blob_bytes h - n,
       hub_peak_retained_transfer_capacity := peak\<rparr>) \<le> transfer_sum h"
    by (simp add: transfer_sum_def update_resource_def)
  have "tracking s c W h0 ((update_resource b (drain_slot n) h)
      \<lparr>hub_buffered_blob_bytes := hub_buffered_blob_bytes h - n,
       hub_peak_buffered_blob_bytes := hub_peak_buffered_blob_bytes h,
       hub_peak_retained_transfer_capacity := peak\<rparr>)"
  proof (rule tracks_change_buffer [OF T r(1)])
    have "value_ok c (rs_value (drain_slot n r))"
      using d' by (simp add: value_ok_def)
    then show "resource_ok c (drain_slot n r)" "resource_change s r (drain_slot n r)"
      using resource_keeps [OF ok, of "drain_slot n r" s] r(2) d'(1,2) free by auto
  qed (use D r(2) d' le n peak in \<open>auto simp: ledger_ok_def transfer_ok_def\<close>)
  then show "tracking s c W h0 ((update_resource b (drain_slot n) h)
      \<lparr>hub_buffered_blob_bytes := hub_buffered_blob_bytes h - n,
       hub_peak_retained_transfer_capacity := peak\<rparr>)" by (simp add: update_resource_def)
qed

section \<open>Turns and passes\<close>

text \<open>
  The contract of a turn towards the invariant: on a waiting operation it does not fail,
  returns the operation it ended for waking, and leaves the other operations as they are.
\<close>

locale tracked_pass =
  fixes turn :: "hub_config \<Rightarrow> token \<Rightarrow> (token list \<times> token list) hub_result"
    and waiting :: "OperationSlot \<Rightarrow> bool"
  assumes turn_tracks: "limits_ok c \<Longrightarrow> tracks c W h0 h \<Longrightarrow> bt_get (hub_operations h) t = Some op \<Longrightarrow>
      waiting op \<Longrightarrow>
      \<exists>ws ps h'. turn c t h = (Inr (ws, ps), h') \<and> tracks c (set ws \<union> W) h0 h'
        \<and> (\<forall>x. x \<noteq> t \<longrightarrow> bt_get (hub_operations h') x = bt_get (hub_operations h) x)"
begin

lemma loop_tracks:
  assumes "limits_ok c" "tracks c W h0 h" "distinct ts"
    "\<forall>t\<in>set ts. \<exists>op. bt_get (hub_operations h) t = Some op \<and> waiting op"
  shows "\<exists>ws ps h'. pass_loop (turn c) ts h = (Inr (ws, ps), h') \<and> tracks c (set ws \<union> W) h0 h'"
  using assms
proof (induction ts arbitrary: h W)
  case Nil
  then show ?case by (simp add: s_return_def)
next
  case (Cons t ts)
  from Cons.prems(4) obtain op where "bt_get (hub_operations h) t = Some op" "waiting op" by auto
  with turn_tracks [OF Cons.prems(1,2)] obtain ws ps h1
    where t: "turn c t h = (Inr (ws, ps), h1)" "tracks c (set ws \<union> W) h0 h1"
      "\<forall>x. x \<noteq> t \<longrightarrow> bt_get (hub_operations h1) x = bt_get (hub_operations h) x" by metis
  have "\<forall>x\<in>set ts. \<exists>op. bt_get (hub_operations h1) x = Some op \<and> waiting op"
    using t(3) Cons.prems(3,4) by auto
  with Cons.IH [OF Cons.prems(1) t(2)] Cons.prems(3) obtain ws' ps' h'
    where "pass_loop (turn c) ts h1 = (Inr (ws', ps'), h')" "tracks c (set ws' \<union> (set ws \<union> W)) h0 h'"
    by auto
  with t show ?case by (auto simp: s_bind_def s_return_def Un_ac)
qed

lemma pass_tracks:
  assumes "limits_ok c" "tracks c W h0 h"
  shows "\<exists>b h'. run_pass (turn c) waiting h = (Inr b, h') \<and> tracks c W h0 h'"
proof -
  have "bt_wf (hub_operations h)" using hub_invD(12) [OF tracks_inv [OF assms(2)]] .
  then have "distinct (select_operations waiting h)"
    unfolding select_operations_def by (intro distinct_filter bt_wf_distinct)
  moreover have "\<forall>t\<in>set (select_operations waiting h).
      \<exists>op. bt_get (hub_operations h) t = Some op \<and> waiting op"
    by (auto simp: select_operations_def split: option.splits)
  ultimately obtain ws ps h' where
    "pass_loop (turn c) (select_operations waiting h) h = (Inr (ws, ps), h')" "tracks c (set ws \<union> W) h0 h'"
    using loop_tracks [OF assms] by blast
  then show ?thesis
    by (auto simp: run_pass_def s_bind_def intro: tracks_notify_all tracks_reports)
qed

end

lemma terminal_locked_others:
  "terminal_locked t r h = (n, h') \<Longrightarrow> x \<noteq> t \<Longrightarrow>
   bt_get (hub_operations h') x = bt_get (hub_operations h) x"
  by (cases rule: terminal_locked_cases [of h t r]) auto

lemma tracks_finish_transfer:
  assumes T: "tracks c W h0 h" and op: "bt_get (hub_operations h) t = Some op"
  shows "\<exists>ws h'. finish_transfer t k ps h = (Inr (ws, ps), h') \<and> tracks c (set ws \<union> W) h0 h'
    \<and> (\<forall>x. x \<noteq> t \<longrightarrow> bt_get (hub_operations h') x = bt_get (hub_operations h) x)"
proof -
  obtain n h' where l: "terminal_locked t \<lparr>tr_terminal = k, tr_resource = None\<rparr> h = (n, h')"
    by (cases "terminal_locked t \<lparr>tr_terminal = k, tr_resource = None\<rparr> h")
  obtain w where w: "n = Inr w"
    using l op by (cases rule: terminal_locked_cases [of h t "\<lparr>tr_terminal = k, tr_resource = None\<rparr>"]) auto
  from tracks_terminal_locked [OF T l] terminal_locked_others [OF l] show ?thesis
    using l w by (cases w) (auto simp: finish_transfer_def s_bind_def s_return_def)
qed

lemma tracks_complete_write:
  assumes T: "tracks c W h0 h" and op: "bt_get (hub_operations h) t = Some op"
    and r: "bt_get (hub_resources h) b = Some r" "rs_value r = Blob d False"
    and room: "length (dq_bytes d) + length bytes \<le> dq_capacity d"
      "length (dq_bytes d) + length bytes \<le> maximum_blob_bytes (hc_blob_limits c)"
      "hub_buffered_blob_bytes h + length bytes \<le> maximum_sketch_bytes (hc_blob_limits c)"
  shows "\<exists>ws ps h'. complete_write t b bytes h = (Inr (ws, ps), h') \<and> tracks c (set ws \<union> W) h0 h'
    \<and> (\<forall>x. x \<noteq> t \<longrightarrow> bt_get (hub_operations h') x = bt_get (hub_operations h) x)"
proof -
  let ?f = "op_pending_blob_write_update (\<lambda>_. None)"
  let ?h1 = "update_operation t ?f h"
  let ?h2 = "append_blob b bytes ?h1"
  have "tracks c W h0 ?h1"
    by (rule tracks_flag_operation [OF T])
      (auto simp: op_flag_defs option_length_def)
  then have "tracks c W h0 ?h2"
    using r room by (intro tracks_append) (simp_all add: update_operation_def)
  from tracks_finish_transfer [OF this, of t "?f op" T_Completed "[b]"] op
  obtain ws h' where f: "finish_transfer t T_Completed [b] ?h2 = (Inr (ws, [b]), h')"
    "tracks c (set ws \<union> W) h0 h'"
    "\<forall>x. x \<noteq> t \<longrightarrow> bt_get (hub_operations h') x = bt_get (hub_operations ?h2) x" by auto
  moreover have "bt_get (hub_resources ?h2) b = Some (extend_slot bytes r)"
    using r by (simp add: append_blob_def Let_def update_resource_def update_operation_def)
  ultimately have "complete_write t b bytes h = (Inr (ws, [b]), h')"
    by (simp add: complete_write_def Let_def)
  with f show ?thesis by auto
qed

lemma tracks_write_turn:
  assumes lim: "limits_ok c" and T: "tracks c W h0 h"
    and op: "bt_get (hub_operations h) t = Some op" "pending_write op"
  shows "\<exists>ws ps h'. write_turn c t h = (Inr (ws, ps), h') \<and> tracks c (set ws \<union> W) h0 h'
    \<and> (\<forall>x. x \<noteq> t \<longrightarrow> bt_get (hub_operations h') x = bt_get (hub_operations h) x)"
proof -
  have "op_ok c op" using hub_op_ok [OF tracks_inv [OF T] op(1)] .
  with op(2) obtain b bytes where b: "op_resource op = Some b" "op_pending_blob_write op = Some bytes"
    by (auto simp: op_ok_def pending_write_def)
  let ?reserve = "reserve_blob_capacity c b (length bytes) (maximum_sketch_bytes (hc_blob_limits c))
      (transfer_maximum c) h"
  obtain x h1 where res: "?reserve = (x, h1)" by (cases ?reserve)
  have "op_terminal op = None" using op(2) by (simp add: pending_write_def)
  note R = tracks_reserve [OF T lim res not_committing(2) [OF tracks_inv [OF T] _ op(1) b(1) this]]
  consider "write_terminal c b (length bytes) h = None"
    | k where "write_terminal c b (length bytes) h = Some k" "k \<noteq> T_Completed"
    | "write_terminal c b (length bytes) h = Some T_Completed" "x = Inl Quota"
    | e where "write_terminal c b (length bytes) h = Some T_Completed" "x = Inl e" "e \<noteq> Quota"
    | "write_terminal c b (length bytes) h = Some T_Completed" "x = Inr ()"
    by (cases "write_terminal c b (length bytes) h"; cases x) auto
  then show ?thesis
  proof cases
    case 1
    with op b T show ?thesis by (simp add: write_turn_def)
  next
    case (2 k)
    with tracks_finish_transfer [OF T op(1), of k "[]"] op b show ?thesis
      by (auto simp: write_turn_def)
  next
    case 3
    with op b T res R show ?thesis by (simp add: write_turn_def)
  next
    case (4 e)
    with tracks_finish_transfer [of c W h0 h1 t op T_Rejected "[]"] R op b res show ?thesis
      by (auto simp: write_turn_def)
  next
    case 5
    from R 5(2) obtain r d sealed d' where r: "bt_get (hub_resources h) b = Some r" "rs_value r = Blob d sealed"
      "bt_get (hub_resources h1) b = Some (set_buffer d' r)" "dq_bytes d' = dq_bytes d"
      "length (dq_bytes d) + length bytes \<le> dq_capacity d'" by blast
    from 5(1) r(1,2) limitsD [OF lim] have unsealed: "\<not> sealed"
      and room: "length (dq_bytes d) + length bytes \<le> maximum_blob_bytes (hc_blob_limits c)"
      "hub_buffered_blob_bytes h + length bytes \<le> maximum_sketch_bytes (hc_blob_limits c)"
      by (auto simp: write_terminal_def resource_value_def saturating_add_le_iff not_less split: if_splits)
    from tracks_complete_write [of c W h0 h1 t op b "set_buffer d' r" d' bytes] R r room unsealed op(1)
    have "\<exists>ws ps h'. complete_write t b bytes h1 = (Inr (ws, ps), h') \<and> tracks c (set ws \<union> W) h0 h'
      \<and> (\<forall>x. x \<noteq> t \<longrightarrow> bt_get (hub_operations h') x = bt_get (hub_operations h1) x)" by simp
    with 5 op b res R show ?thesis by (auto simp: write_turn_def)
  qed
qed

interpretation tracked_write: tracked_pass write_turn pending_write
  by unfold_locales (rule tracks_write_turn)

lemma tracks_read_out:
  assumes lim: "limits_ok c" and T: "tracks c W h0 h"
    and op: "bt_get (hub_operations h) t = Some op" "op_pending_blob_read op = Some m"
    and r: "bt_get (hub_resources h) b = Some r" "rs_value r = Blob d sealed" "\<not> rs_committing r"
    and n: "n = min m (length (dq_bytes d))"
    and room: "saturating_add (completed_read_bytes h) n \<le> maximum_sketch_bytes (hc_blob_limits c)"
      "saturating_add (transfer_capacity h) n \<le> maximum_transfer_bytes (hc_blob_limits c)"
  shows "tracks c W h0 (read_out t b n (take n (dq_bytes d)) h)"
proof -
  note L = limitsD [OF lim]
  have D: "transfer_ok c h" "op_ok c op" "ops_ok c h"
    using hub_op_ok [OF tracks_inv [OF T] op(1)] hub_invD [OF tracks_inv [OF T]] by simp_all
  have sums: "completed_read_bytes h + n \<le> maximum_sketch_bytes (hc_blob_limits c)"
    "transfer_sum h + n \<le> maximum_transfer_bytes (hc_blob_limits c)"
    using room L by (simp_all add: saturating_add_le_iff saturating_min_le transfer_capacity_sum)
  let ?peak = "max (hub_peak_retained_transfer_capacity h) (saturating_add (transfer_capacity h) n)"
  have peak: "saturating_add (transfer_capacity h) n = transfer_sum h + n"
    using sums(2) L by (simp add: transfer_capacity_sum saturating_add_def)
  let ?h1 = "(update_resource b (drain_slot n) h)\<lparr>hub_buffered_blob_bytes := hub_buffered_blob_bytes h - n,
      hub_peak_retained_transfer_capacity := ?peak\<rparr>"
  have peak_le: "?peak \<le> maximum_transfer_bytes (hc_blob_limits c)"
    using D(1) sums(2) peak by (simp add: transfer_ok_def)
  have T1: "tracks c W h0 ?h1" and s1: "transfer_sum ?h1 \<le> transfer_sum h"
    using tracks_drain [OF T r(1,2), of n ?peak] r(3) n peak_le by simp_all
  let ?f = "op_blob_read_result_update (\<lambda>_. Some (take n (dq_bytes d)))"
  have "tracks c W h0 ((update_operation t ?f ?h1)
      \<lparr>hub_reserved_process_output_bytes := hub_reserved_process_output_bytes h,
       hub_peak_retained_transfer_capacity := ?peak\<rparr>)"
  proof (rule tracks_charge_operation [OF T1])
    show "bt_get (hub_operations ?h1) t = Some op" using op(1) by (simp add: update_resource_def)
    show "op_ok c (?f op)" using D(2) op(2) n by (auto simp: op_ok_def)
    show "op_evolves op (?f op)" by (simp add: op_evolves_def)
    have "op_charge (?f op) \<le> op_charge op + n" using n by (simp add: op_charge_def option_length_def)
    moreover have "transfer_sum h + n \<le> ?peak" using peak by simp
    moreover have "hub_reserved_process_output_bytes ?h1 = hub_reserved_process_output_bytes h"
      by (simp add: update_resource_def)
    ultimately show "transfer_sum ?h1 + op_charge (?f op) + hub_reserved_process_output_bytes h
        \<le> ?peak + op_charge op + hub_reserved_process_output_bytes ?h1"
      using s1 by linarith
    show "completed_read_bytes ?h1 + option_length (op_blob_read_result (?f op))
        \<le> maximum_sketch_bytes (hc_blob_limits c) + option_length (op_blob_read_result op)"
      using sums(1) n by (simp add: option_length_def update_resource_def completed_read_bytes_def)
    show "pending_write_bytes ?h1 + option_length (op_pending_blob_write (?f op))
        \<le> maximum_sketch_bytes (hc_blob_limits c) + option_length (op_pending_blob_write op)"
      using hub_invD(6) [OF tracks_inv [OF T]]
      by (simp add: ledger_ok_def update_resource_def pending_write_bytes_def)
    show "is_blob (rs_value r')" if "op_pending_blob_write (?f op) \<noteq> None \<or> op_pending_blob_read (?f op) \<noteq> None"
      "op_resource op = Some x" "bt_get (hub_resources ?h1) x = Some r'" for x r'
      using hub_invD(5) [OF tracks_inv [OF T1]] that op(1)
      by (auto simp: ops_ok_def update_resource_def)
  qed (use peak_le in auto)
  moreover have "read_out t b n (take n (dq_bytes d)) h = (update_operation t ?f ?h1)
      \<lparr>hub_reserved_process_output_bytes := hub_reserved_process_output_bytes h,
       hub_peak_retained_transfer_capacity := ?peak\<rparr>"
    by (rule hub.equality) (simp_all add: read_out_def Let_def update_operation_def update_resource_def)
  ultimately show ?thesis by simp
qed

lemma tracks_read_turn:
  assumes lim: "limits_ok c" and T: "tracks c W h0 h"
    and op: "bt_get (hub_operations h) t = Some op" "pending_read op"
  shows "\<exists>ws ps h'. read_turn c t h = (Inr (ws, ps), h') \<and> tracks c (set ws \<union> W) h0 h'
    \<and> (\<forall>x. x \<noteq> t \<longrightarrow> bt_get (hub_operations h') x = bt_get (hub_operations h) x)"
proof (cases rule: read_turn_cases [of c t h])
  case failed
  have "op_ok c op" using hub_op_ok [OF tracks_inv [OF T] op(1)] .
  with failed(2) [OF op(1)] op(2) show ?thesis by (auto simp: op_ok_def pending_read_def)
next
  case skipped
  with T show ?thesis by simp
next
  case (read op' b d sealed m)
  let ?n = "min m (length (dq_bytes d))"
  let ?h = "read_out t b ?n (take ?n (dq_bytes d)) h"
  from read(4) obtain r where r: "bt_get (hub_resources h) b = Some r" "rs_value r = Blob d sealed"
    by (auto simp: resource_value_Some)
  have "\<not> rs_committing r"
    using not_committing(2) [OF tracks_inv [OF T] r(1) read(1)] read(1,2) op by (simp add: pending_read_def)
  then have "tracks c W h0 ?h"
    by (rule tracks_read_out [OF lim T read(1,3) r _ refl read(6,7)])
  from tracks_finish_transfer [OF this, of t "op'\<lparr>op_blob_read_result := Some (take ?n (dq_bytes d))\<rparr>" T_Completed "[b]"]
  have "\<exists>ws h'. finish_transfer t T_Completed [b] ?h = (Inr (ws, [b]), h') \<and> tracks c (set ws \<union> W) h0 h'
      \<and> (\<forall>x. x \<noteq> t \<longrightarrow> bt_get (hub_operations h') x = bt_get (hub_operations ?h) x)"
    using read(1) by (simp add: hub_operations_read_out)
  then show ?thesis unfolding read(8) by (auto simp: hub_operations_read_out)
qed

interpretation tracked_read: tracked_pass read_turn pending_read
  by unfold_locales (rule tracks_read_turn)

text \<open>The passes and the loop over them never fail.\<close>

lemma tracks_drive_reads:
  assumes "limits_ok c" "tracks c W h0 h"
  shows "\<exists>h'. drive_blob_reads c h = (Inr (), h') \<and> tracks c W h0 h'"
  using tracked_read.pass_tracks [OF assms]
  by (auto simp: drive_blob_reads_def drive_blob_read_pass_def s_bind_def s_return_def)

lemma tracks_drive_write_pass:
  assumes "limits_ok c" "tracks c W h0 h"
  shows "\<exists>b h'. drive_blob_write_pass c h = (Inr b, h') \<and> tracks c W h0 h'"
proof -
  obtain b h1 where 1: "write_section c h = (Inr b, h1)" "tracks c W h0 h1"
    using tracked_write.pass_tracks [OF assms] by (auto simp: write_section_def)
  obtain b' h2 where "drive_blob_read_pass c h1 = (Inr b', h2)" "tracks c W h0 h2"
    using tracked_read.pass_tracks [OF assms(1) 1(2)] by (auto simp: drive_blob_read_pass_def)
  with 1 show ?thesis by (simp add: drive_blob_write_pass_def s_bind_def s_return_def)
qed

lemma tracks_drive_writes:
  assumes "limits_ok c" "tracks c W h0 h"
  shows "\<exists>h'. drive_blob_writes c h = (Inr (), h') \<and> tracks c W h0 h'"
  using assms
proof (induction c h rule: drive_blob_writes.induct)
  case (1 c h)
  obtain b h' where p: "drive_blob_write_pass c h = (Inr b, h')" "tracks c W h0 h'"
    using tracks_drive_write_pass [OF 1(2,3)] by auto
  show ?case
  proof (cases b)
    case True
    with 1(1) [OF p(1) [symmetric] _ _ 1(2) p(2)] p(1) show ?thesis
      by (subst drive_blob_writes.simps) auto
  next
    case False
    with p show ?thesis by (subst drive_blob_writes.simps) auto
  qed
qed

section \<open>Blob methods\<close>

lemma bt_modify_modify: "bt_modify k f (bt_modify k g m) = bt_modify k (\<lambda>v. f (g v)) m"
  by (simp add: bt_modify_def comp_def case_prod_beta)

lemma resource_okD: "tracks c W h0 h \<Longrightarrow> bt_get (hub_resources h) t = Some r \<Longrightarrow> resource_ok c r"
  by (simp add: tracks_def hub_inv_def resources_ok_def)

text \<open>A change of a value that is no buffer, or leaves the buffer alone.\<close>

lemma tracks_value:
  assumes T: "tracks c W h0 h"
    and f: "\<And>r. bt_get (hub_resources h) t = Some r \<Longrightarrow> resource_ok c r \<Longrightarrow>
      (is_sealed (rs_value r) \<longrightarrow> rs_value (f r) = rs_value r) \<and> rs_identity (f r) = rs_identity r \<and> rs_store (f r) = rs_store r
      \<and> rs_shareable (f r) = rs_shareable r \<and> rs_reserved (f r) = rs_reserved r
      \<and> rs_committing (f r) = rs_committing r
      \<and> value_evolves (rs_value r) (rs_value (f r)) \<and> value_ok c (rs_value (f r))
      \<and> blob_length (rs_value (f r)) = blob_length (rs_value r)
      \<and> blob_capacity (rs_value (f r)) \<le> blob_capacity (rs_value r)"
  shows "tracks c W h0 (update_resource t f h)"
proof (cases "bt_get (hub_resources h) t")
  case None
  with T show ?thesis by (simp add: update_resource_absent)
next
  case (Some r)
  note ok = resource_okD [OF T Some]
  have "resource_ok c (f r)" "resource_evolves r (f r)"
    using resource_keeps [OF ok, of "f r" True] f [OF Some ok] not_committing(1) [OF tracks_inv [OF T] Some]
    by auto
  moreover from this have "resource_step c r (f r)"
    using f [OF Some ok] by (simp add: resource_step_def value_evolves_blob value_evolves_sealed)
  ultimately show ?thesis by (intro tracks_update_resource [OF T Some])
qed

lemma tracks_seal_section:
  "tracks c W h0 h \<Longrightarrow> tracks c W h0 (snd (seal_section store b rights h))"
  by (auto simp: seal_section_def seal_slot_def resource_ok_def value_ok_def
      split: option.splits sum.splits ResourceValue.splits intro!: tracks_value)

lemma check_blob_write_Inr:
  assumes "check_blob_write c store b n unpublished h = Inr u" "limits_ok c"
  obtains r d where "bt_get (hub_resources h) b = Some r" "rs_value r = Blob d False"
    "length (dq_bytes d) + n \<le> maximum_blob_bytes (hc_blob_limits c)"
    "hub_buffered_blob_bytes h + n \<le> maximum_sketch_bytes (hc_blob_limits c)"
  using assms limitsD [OF assms(2)]
  by (auto simp: check_blob_write_def and_then_def ok_or_def saturating_add_le_iff not_less
      split: if_splits option.splits sum.splits ResourceValue.splits)

lemma tracks_blob_write_section:
  assumes lim: "limits_ok c" and T: "tracks c W h0 h"
  shows "tracks c W h0 (snd (blob_write_section c store b bytes unpublished h))"
proof (cases "check_blob_write c store b (length bytes) unpublished h")
  case (Inl e)
  with T show ?thesis by (simp add: blob_write_section_def)
next
  case (Inr u)
  then obtain r d where r: "bt_get (hub_resources h) b = Some r" "rs_value r = Blob d False"
    "length (dq_bytes d) + length bytes \<le> maximum_blob_bytes (hc_blob_limits c)"
    "hub_buffered_blob_bytes h + length bytes \<le> maximum_sketch_bytes (hc_blob_limits c)"
    using check_blob_write_Inr [OF _ lim] by metis
  let ?reserve = "reserve_blob_capacity c b (length bytes) (maximum_sketch_bytes (hc_blob_limits c))
      (transfer_maximum c) h"
  obtain x h1 where res: "?reserve = (x, h1)" by (cases ?reserve)
  have "\<not> rs_committing r" using not_committing(1) [OF tracks_inv [OF T] r(1)] r(2) by simp
  with r(1) have "\<And>r. bt_get (hub_resources h) b = Some r \<Longrightarrow> \<not> rs_committing r" by simp
  note R = tracks_reserve [OF T lim res this]
  show ?thesis
  proof (cases x)
    case (Inl e)
    with Inr res R show ?thesis by (simp add: blob_write_section_def s_bind_def)
  next
    case x: (Inr v)
    with R r obtain d' where d': "bt_get (hub_resources h1) b = Some (set_buffer d' r)"
      "dq_bytes d' = dq_bytes d" "length (dq_bytes d) + length bytes \<le> dq_capacity d'" by auto
    have "tracks c W h0 (append_blob b bytes h1)"
      using R r d' by (intro tracks_append [of c W h0 h1 b "set_buffer d' r" d']) simp_all
    with Inr res x show ?thesis
      by (simp add: blob_write_section_def s_bind_def tracks_reports)
  qed
qed

lemma tracks_read_chunk_section:
  assumes lim: "limits_ok c" and T: "tracking s c W h0 h" and free: "s \<longrightarrow> \<not> committing"
  shows "tracking s c W h0 (snd (read_chunk_section c store b m committing h))"
proof (cases "\<exists>r d sealed. bt_get (hub_resources h) b = Some r \<and> rs_committing r = committing
    \<and> validate_resource r store BLOB_RESOURCE_KIND BLOB_RIGHT_READ = Inr () \<and> rs_value r = Blob d sealed
    \<and> saturating_add (transfer_capacity h) (min m (length (dq_bytes d))) \<le> maximum_transfer_bytes (hc_blob_limits c)")
  case False
  then have "snd (read_chunk_section c store b m committing h) = h"
    by (auto simp: read_chunk_section_def Let_def not_le
        split: option.splits sum.splits ResourceValue.splits if_splits)
  with T show ?thesis by simp
next
  case True
  then obtain r d sealed where r: "bt_get (hub_resources h) b = Some r" "rs_committing r = committing"
    "validate_resource r store BLOB_RESOURCE_KIND BLOB_RIGHT_READ = Inr ()" "rs_value r = Blob d sealed"
    and le: "saturating_add (transfer_capacity h) (min m (length (dq_bytes d))) \<le> maximum_transfer_bytes (hc_blob_limits c)"
    by blast
  define n where "n = min m (length (dq_bytes d))"
  let ?peak = "max (hub_peak_retained_transfer_capacity h) (saturating_add (transfer_capacity h) n)"
  have sum: "transfer_sum h + n \<le> maximum_transfer_bytes (hc_blob_limits c)"
    using le limitsD [OF lim] by (simp add: n_def transfer_capacity_sum saturating_min_le)
  then have peak: "saturating_add (transfer_capacity h) n = transfer_sum h + n"
    using limitsD [OF lim] by (simp add: transfer_capacity_sum saturating_add_def)
  have peak_le: "?peak \<le> maximum_transfer_bytes (hc_blob_limits c)"
    using sum peak hub_invD(7) [OF tracks_inv [OF T]] by (simp add: transfer_ok_def)
  let ?h1 = "(update_resource b (drain_slot n) h)\<lparr>hub_buffered_blob_bytes := hub_buffered_blob_bytes h - n,
      hub_peak_retained_transfer_capacity := ?peak\<rparr>"
  have "tracking s c W h0 ?h1" "transfer_sum ?h1 \<le> transfer_sum h"
    using tracks_drain [OF T r(1,4), of n ?peak] peak_le r(2) free by (simp_all add: n_def)
  moreover have "transfer_sum h + n \<le> ?peak" using peak by simp
  ultimately have "tracking s c W h0 (?h1\<lparr>hub_native_transfer_capacity := hub_native_transfer_capacity ?h1 + n,
      hub_reserved_process_output_bytes := hub_reserved_process_output_bytes ?h1,
      hub_reserved_native_process_output_bytes := hub_reserved_native_process_output_bytes ?h1,
      hub_peak_retained_transfer_capacity := ?peak\<rparr>)"
    using peak_le by (intro tracks_charges) linarith+
  moreover have "snd (read_chunk_section c store b m committing h)
      = ?h1\<lparr>hub_native_transfer_capacity := hub_native_transfer_capacity ?h1 + n,
      hub_reserved_process_output_bytes := hub_reserved_process_output_bytes ?h1,
      hub_reserved_native_process_output_bytes := hub_reserved_native_process_output_bytes ?h1,
      hub_peak_retained_transfer_capacity := ?peak\<rparr>"
    by (rule hub.equality)
      (use r le in \<open>simp_all add: read_chunk_section_def Let_def not_less n_def update_resource_def\<close>)
  ultimately show ?thesis by simp
qed

lemma tracks_release_chunk:
  assumes T: "tracks c W h0 h"
  shows "tracks c W h0 (release_chunk_section chunk h)"
proof -
  have "tracks c W h0 (h\<lparr>hub_native_transfer_capacity := hub_native_transfer_capacity h - length (nc_bytes chunk),
      hub_reserved_process_output_bytes := hub_reserved_process_output_bytes h,
      hub_reserved_native_process_output_bytes := hub_reserved_native_process_output_bytes h,
      hub_peak_retained_transfer_capacity := hub_peak_retained_transfer_capacity h\<rparr>)"
    using hub_invD(7) [OF tracks_inv [OF T]] by (intro tracks_charges [OF T]) (auto simp: transfer_ok_def)
  with T show ?thesis by (simp add: release_chunk_section_def Let_def tracks_reports)
qed

text \<open>The operation a transfer is queued on borrows a blob.\<close>

definition targets_blob :: "hub \<Rightarrow> token \<Rightarrow> bool" where
  "targets_blob h t \<longleftrightarrow>
     (\<forall>op. bt_get (hub_operations h) t = Some op \<longrightarrow>
        (\<exists>b. op_resource op = Some b
           \<and> (\<forall>r. bt_get (hub_resources h) b = Some r \<longrightarrow> is_blob (rs_value r))))"

lemma targets_blobD:
  "targets_blob h t \<Longrightarrow> bt_get (hub_operations h) t = Some op \<Longrightarrow> op_resource op = Some b \<Longrightarrow>
   bt_get (hub_resources h) b = Some r \<Longrightarrow> is_blob (rs_value r)"
  by (auto simp: targets_blob_def)

lemma targets_blob_evolves:
  assumes "targets_blob h t" "tables_ok h" "t \<le> hub_next_opaque_token h" "changes s h h'"
  shows "targets_blob h' t"
  unfolding targets_blob_def
proof (intro allI impI)
  fix op' assume "bt_get (hub_operations h') t = Some op'"
  from evolvesD(4) [OF assms(4) this assms(3)]
  obtain op where op: "bt_get (hub_operations h) t = Some op" "op_resource op' = op_resource op"
    by (auto simp: op_evolves_def)
  obtain b where b: "op_resource op = Some b"
    "\<And>r. bt_get (hub_resources h) b = Some r \<Longrightarrow> is_blob (rs_value r)"
    using assms(1) op(1) by (auto simp: targets_blob_def)
  have "b \<le> hub_next_opaque_token h" using assms(2) op(1) b(1) by (auto simp: tables_ok_def)
  then have "is_blob (rs_value r')" if "bt_get (hub_resources h') b = Some r'" for r'
    using evolvesD(5) [OF assms(4) that] b(2) by (auto simp: resource_evolves_def value_evolves_blob)
  with op b(1) show "\<exists>b. op_resource op' = Some b
      \<and> (\<forall>r. bt_get (hub_resources h') b = Some r \<longrightarrow> is_blob (rs_value r))" by auto
qed

lemma tracks_queue_read:
  assumes T: "tracks c W h0 h" and b: "targets_blob h t"
    and m: "0 < m" "m \<le> maximum_chunk_bytes (hc_blob_limits c)"
  shows "tracks c W h0 (snd (queue_read_section c t m h))"
proof (cases "maximum_pending_reads (hc_blob_limits c) \<le> pending_read_count h \<or> bt_get (hub_operations h) t = None")
  case True
  then show ?thesis using T by (auto simp: queue_read_section_def tracks_remove_operation)
next
  case False
  then obtain op where op: "bt_get (hub_operations h) t = Some op" by auto
  let ?f = "\<lambda>op. (if op_terminal op = None then op\<lparr>op_pending_blob_read := Some m\<rparr> else op)\<lparr>op_is_blob_read := True\<rparr>"
  note D = hub_invD [OF tracks_inv [OF T]]
  have ok: "op_ok c op" using hub_op_ok [OF tracks_inv [OF T] op] .
  obtain x where x: "op_resource op = Some x" using b op by (auto simp: targets_blob_def)
  have "tracks c W h0 ((update_operation t ?f h)
      \<lparr>hub_reserved_process_output_bytes := hub_reserved_process_output_bytes h,
       hub_peak_retained_transfer_capacity := hub_peak_retained_transfer_capacity h\<rparr>)"
  proof (rule tracks_charge_operation [OF T op])
    show "op_ok c (?f op)" using ok x m by (auto simp: op_ok_def)
    show "is_blob (rs_value r)" if "op_resource op = Some b'" "bt_get (hub_resources h) b' = Some r" for b' r
      using targets_blobD [OF b op that] .
    show "pending_write_count h < maximum_pending_writes (hc_blob_limits c)"
      if "op_pending_blob_write (?f op) \<noteq> None" "op_pending_blob_write op = None"
      using that by (auto split: if_splits)
  qed (use False D(6,7) in \<open>auto simp: op_evolves_def op_charge_def ledger_ok_def transfer_ok_def\<close>)
  with False op show ?thesis by (simp add: queue_read_section_def update_operation_def)
qed

lemma tracks_queue_write:
  assumes lim: "limits_ok c" and T: "tracks c W h0 h" and b: "targets_blob h t"
    and n: "length copy = n" "n \<le> maximum_chunk_bytes (hc_blob_limits c)"
  shows "tracks c W h0 (snd (queue_write_section c t n copy h))"
proof (cases "maximum_pending_writes (hc_blob_limits c) \<le> pending_write_count h
    \<or> maximum_sketch_bytes (hc_blob_limits c) < saturating_add (pending_write_bytes h) n
    \<or> transfer_maximum c < saturating_add (transfer_capacity h) n
    \<or> bt_get (hub_operations h) t = None")
  case True
  then show ?thesis using T by (auto simp: queue_write_section_def tracks_remove_operation)
next
  case False
  then obtain op where op: "bt_get (hub_operations h) t = Some op" by auto
  note D = hub_invD [OF tracks_inv [OF T]] and L = limitsD [OF lim]
  have ok: "op_ok c op" using hub_op_ok [OF tracks_inv [OF T] op] .
  obtain x where x: "op_resource op = Some x" using b op by (auto simp: targets_blob_def)
  let ?g = "op_is_blob_write_update (\<lambda>_. True)"
  have T1: "tracks c W h0 (update_operation t ?g h)"
    by (rule tracks_flag_operation [OF T])
      (auto simp: op_flag_defs)
  show ?thesis
  proof (cases "op_terminal op = None")
    case ended: False
    with False op T1 show ?thesis by (auto simp: queue_write_section_def Let_def)
  next
    case waits: True
    let ?f = "\<lambda>op. op\<lparr>op_is_blob_write := True, op_pending_blob_write := Some copy\<rparr>"
    have sums: "pending_write_bytes h + n \<le> maximum_sketch_bytes (hc_blob_limits c)"
      "transfer_sum h + n \<le> transfer_maximum c"
      using False L by (auto simp: not_less saturating_add_le_iff saturating_min_le transfer_capacity_sum)
    have charge: "op_charge (?f op) \<le> op_charge op + n"
      using n by (simp add: op_charge_def option_length_def)
    let ?h = "update_operation t ?f h"
    have "bt_total op_charge (bt_modify t ?f (hub_operations h)) + op_charge op
        = bt_total op_charge (hub_operations h) + op_charge (?f op)"
      by (rule bt.total_modify [OF D(12) op])
    then have sum: "transfer_sum ?h + op_charge op = transfer_sum h + op_charge (?f op)"
      by (simp add: transfer_sum_def update_operation_def)
    then have cap: "transfer_capacity ?h = transfer_sum ?h"
      using sums(2) L charge by (simp add: transfer_capacity_sum)
    let ?peak = "max (hub_peak_retained_transfer_capacity h) (transfer_sum ?h)"
    have "tracks c W h0 (?h
        \<lparr>hub_reserved_process_output_bytes := hub_reserved_process_output_bytes h,
         hub_peak_retained_transfer_capacity := ?peak\<rparr>)"
    proof (rule tracks_charge_operation [OF T op])
      show "op_ok c (?f op)" using ok x n waits by (auto simp: op_ok_def)
      show "is_blob (rs_value r)" if "op_resource op = Some b'" "bt_get (hub_resources h) b' = Some r" for b' r
        using targets_blobD [OF b op that] .
      show "?peak \<le> maximum_transfer_bytes (hc_blob_limits c)"
        using sum sums(2) charge L D(7) by (simp add: transfer_ok_def)
      show "transfer_sum h + op_charge (?f op) + hub_reserved_process_output_bytes h
          \<le> ?peak + op_charge op + hub_reserved_process_output_bytes h"
        using sum by simp
    qed (use False D(6) sums n in \<open>auto simp: op_evolves_def ledger_ok_def option_length_def\<close>)
    moreover have "snd (queue_write_section c t n copy h) = ?h
        \<lparr>hub_reserved_process_output_bytes := hub_reserved_process_output_bytes h,
         hub_peak_retained_transfer_capacity := ?peak\<rparr>"
    proof -
      have two: "update_operation t (op_pending_blob_write_update (\<lambda>_. Some copy)) (update_operation t ?g h) = ?h"
        by (simp add: update_operation_def bt_modify_modify)
      show ?thesis
        using False op waits cap unfolding queue_write_section_def Let_def
        by (simp add: two record_transfer_capacity_def) (simp add: update_operation_def)
    qed
    ultimately show ?thesis by simp
  qed
qed

lemma tracks_collect_section:
  "tracks c W h0 h \<Longrightarrow> tracks c W h0 (snd (collect_section store t capacity h))"
  by (auto simp: collect_section_def Let_def split: option.splits intro: tracks_remove_operation)

lemma tracks_abandon_transfer:
  "tracks c W h0 h \<Longrightarrow> tracks c W h0 (snd (abandon_transfer_section store t h))"
  using tracks_log [OF tracks_remove_operation [of c W h0 h t], of "[ProducerCancelled t]"]
  by (auto simp: abandon_transfer_section_def Let_def split: option.splits
      intro!: tracks_reports tracks_remove_operation)

lemma tracks_abandon_blob:
  "tracks c W h0 h \<Longrightarrow> tracks c W h0 (snd (abandon_blob_section store t h))"
  by (auto simp: abandon_blob_section_def split: option.splits intro: tracks_close_section)

section \<open>Suspension, clocks and idle timers\<close>


lemma tracks_suspend_section:
  assumes T: "tracks c W h0 h"
  shows "tracks c W h0 (snd (suspend_section t store h))"
proof -
  have "tracks c W h0 (update_operation t (\<lambda>op. op\<lparr>op_suspended := True, op_deferred_completion := None\<rparr>) h)"
    by (rule tracks_flag_operation [OF T]) (auto simp: op_flag_defs)
  with T show ?thesis
    by (auto simp: suspend_section_def tracks_reports split: option.splits)
qed

lemma tracks_complete_section:
  assumes T: "tracks c W h0 h"
  shows "tracks c W h0 (snd (complete_section t d h))"
proof -
  have "tracks c W h0 (update_operation t (op_deferred_completion_update (\<lambda>_. Some d)) h)"
    by (rule tracks_flag_operation [OF T]) (auto simp: op_flag_defs)
  with T show ?thesis by (auto simp: complete_section_def split: option.splits)
qed

text \<open>Two things done under one lock: a resource is closed, then an operation ends.\<close>

lemma tracks_then_terminal:
  assumes T: "tracks c (set ws \<union> W) h0 h" and l: "terminal_locked t r h = (Inr n, h')"
  shows "tracks c W h0 (notify_all (ws @ (case n of None \<Rightarrow> [] | Some w \<Rightarrow> [w])) h')"
  using tracks_terminal_locked [OF T l]
  by (intro tracks_notify_all) (cases n, simp_all add: Un_ac)

lemma close_resource_Inr:
  "bt_get (hub_resources h) t \<noteq> None \<or> t \<in> hub_closed_resources h \<Longrightarrow>
   \<exists>ws h'. close_resource_with_terminal_locked t k h = (Inr ws, h')"
proof (cases "bt_get (hub_resources h) t")
  case (Some r)
  let ?h1 = "bury t (without_resource t r h)"
  let ?ts = "select_operations (\<lambda>op. op_resource op = Some t \<and> (op_terminal op = None \<or> ready_read op)) ?h1"
  have "\<forall>t\<in>set ?ts. bt_get (hub_operations ?h1) t \<noteq> None"
    by (rule ballI) (rule select_operations_live)
  then obtain ws h2 where "terminal_each ?ts \<lparr>tr_terminal = k, tr_resource = None\<rparr> ?h1 = (Inr ws, h2)"
    using terminal_each_succeeds by blast
  then show ?thesis unfolding close_resource_unfold [OF Some] by simp
qed (simp add: close_resource_with_terminal_locked_def)

lemma close_resource_Inl:
  "close_resource_with_terminal_locked t k h = (Inl e, h') \<Longrightarrow> h' = h"
  using close_resource_Inr [of h t k]
  by (cases "bt_get (hub_resources h) t")
    (auto simp: close_resource_with_terminal_locked_def split: if_splits)

lemma terminal_each_dom:
  "terminal_each ts r h = (n, h') \<Longrightarrow>
   bt_get (hub_operations h') x = None \<longleftrightarrow> bt_get (hub_operations h) x = None"
proof (induction ts arbitrary: h n h')
  case Nil
  then show ?case by (simp add: s_return_def)
next
  case (Cons t ts)
  obtain n1 h1 where l: "terminal_locked t r h = (n1, h1)" by (cases "terminal_locked t r h")
  obtain n2 h2 where e: "terminal_each ts r h1 = (n2, h2)" by (cases "terminal_each ts r h1")
  from Cons.prems l e Cons.IH [OF e] terminal_locked_dom [OF l] show ?case
    by (auto simp: s_bind_def s_return_def split: sum.splits)
qed

lemma bury_simps [simp]:
  "hub_operations (bury t h) = hub_operations h" "hub_resources (bury t h) = hub_resources h"
  "hub_next_opaque_token (bury t h) = hub_next_opaque_token h" "hub_closed (bury t h) = hub_closed h"
  by (simp_all add: bury_def expire_tombstones_eq [OF refl refl])

lemma close_resource_dom:
  "close_resource_with_terminal_locked t k h = (n, h') \<Longrightarrow>
   bt_get (hub_operations h') x = None \<longleftrightarrow> bt_get (hub_operations h) x = None"
proof (cases "bt_get (hub_resources h) t")
  case None
  then show "close_resource_with_terminal_locked t k h = (n, h') \<Longrightarrow> ?thesis"
    by (auto simp: close_resource_with_terminal_locked_def split: if_splits)
next
  case (Some r)
  assume call: "close_resource_with_terminal_locked t k h = (n, h')"
  let ?h1 = "bury t (without_resource t r h)"
  let ?ts = "select_operations (\<lambda>op. op_resource op = Some t \<and> (op_terminal op = None \<or> ready_read op)) ?h1"
  obtain m h2 where e: "terminal_each ?ts \<lparr>tr_terminal = k, tr_resource = None\<rparr> ?h1 = (m, h2)"
    by (cases "terminal_each ?ts \<lparr>tr_terminal = k, tr_resource = None\<rparr> ?h1")
  with call have "hub_operations h' = hub_operations h2"
    unfolding close_resource_unfold [OF Some] by auto
  with terminal_each_dom [OF e] show ?thesis by (simp add: without_resource_def)
qed

lemma terminal_locked_Inr:
  "bt_get (hub_operations h) t \<noteq> None \<Longrightarrow> \<exists>n h'. terminal_locked t r h = (Inr n, h')"
  by (cases rule: terminal_locked_cases [of h t r]) auto

lemma tracks_finish_deferred:
  assumes T: "tracks c W h0 h"
  shows "tracks c W h0 (snd (finish_deferred_section t d h))"
proof (cases "\<exists>op. bt_get (hub_operations h) t = Some op \<and> op_terminal op = None")
  case False
  with T show ?thesis by (auto simp: finish_deferred_section_def split: option.splits)
next
  case True
  then have live: "bt_get (hub_operations h) t \<noteq> None" by auto
  show ?thesis
  proof (cases "dc_revoke d")
    case None
    obtain n h1 where l: "terminal_locked t (dc_result d) h = (Inr n, h1)"
      using terminal_locked_Inr [OF live] by blast
    from tracks_then_terminal [of c "[]" W h0 h, OF _ l] T True None l show ?thesis
      by (auto simp: finish_deferred_section_def s_bind_def s_return_def)
  next
    case (Some b)
    obtain m h1 where cl: "close_resource_with_terminal_locked b T_Closed h = (m, h1)"
      by (cases "close_resource_with_terminal_locked b T_Closed h")
    note T1 = tracks_close_resource [OF T cl]
    show ?thesis
    proof (cases m)
      case (Inl e)
      with T1 True Some cl show ?thesis by (auto simp: finish_deferred_section_def s_bind_def)
    next
      case (Inr ws)
      obtain n h2 where l: "terminal_locked t (dc_result d) h1 = (Inr n, h2)"
        using terminal_locked_Inr close_resource_dom [OF cl] live by metis
      from tracks_then_terminal [OF _ l, of c ws W h0] T1 True Some cl Inr l show ?thesis
        by (auto simp: finish_deferred_section_def s_bind_def)
    qed
  qed
qed

lemma tracks_arm_idle:
  assumes T: "tracks c W h0 h"
  shows "tracks c W h0 (snd (arm_idle_section store t h))"
  using T by (auto simp: arm_idle_section_def op_flag_defs split: option.splits
      intro!: tracks_flag_operation)

lemma tracks_clocks:
  "tracks c W h0 h \<Longrightarrow> tracks c W h0 (snd (acquire_clock c' h))"
  "tracks c W h0 h \<Longrightarrow> tracks c W h0 (drop_clock_lease h)"
  by (simp_all add: acquire_clock_def drop_clock_lease_def)

lemma tracks_poll_wire:
  assumes "tracks c W h0 h"
  shows "tracks c W h0 (snd (poll_wire store t h))"
  using tracks_take_terminal [OF assms, of t store] assms
  by (cases "take_terminal t store h") (auto simp: poll_wire_def split: sum.splits option.splits)

lemma tracks_take_output_jobs:
  "tracks c W h0 h \<Longrightarrow> tracks c W h0 (snd (take_output_jobs h))"
  by (simp add: take_output_jobs_def)

end
