(* ===== verification/Hub_Process_Sections.thy ===== *)
theory Hub_Process_Sections
  imports Hub_Sections
begin

text \<open>
  The sections of the compiler processes, of output events, file commits, the encoder and the
  hasher keep the invariant and move the hub forward.
\<close>

section \<open>What submitting and creating charge\<close>

lemma next_token_shape:
  "next_token h = (r, h') \<Longrightarrow>
   (\<exists>n. h' = h\<lparr>hub_next_opaque_token := n\<rparr>) \<and> (\<forall>t. r = Inr t \<longrightarrow> hub_next_opaque_token h < t)"
  by (auto simp: next_token_def hub_next_def s_bind_def s_lift_def s_return_def
      split: option.splits if_splits intro: exI [of _ "hub_next_opaque_token h"])

lemma transfer_sum_counter [simp]: "transfer_sum (h\<lparr>hub_next_opaque_token := n\<rparr>) = transfer_sum h"
  by (simp add: transfer_sum_def)

lemma submit_charge:
  assumes inv: "hub_inv c W h" and call: "submit_locked c' store resource kind rights h = (r, h')"
  shows "transfer_sum h' = transfer_sum h
    \<and> hub_peak_retained_transfer_capacity h' = hub_peak_retained_transfer_capacity h"
proof (cases rule: submit_cases [of c' store resource kind rights h])
  case (refused e)
  with call show ?thesis by simp
next
  case admitted
  obtain r1 h1 where t: "next_token h = (r1, h1)" by (cases "next_token h")
  note N = next_token_shape [OF t]
  show ?thesis
  proof (cases r1)
    case (Inl e)
    with call admitted(4) t N show ?thesis by (auto simp: s_bind_def)
  next
    case (Inr x)
    with N have "bt_get (hub_operations h) x = None" using fresh_token(2) [OF inv] by blast
    with call admitted(4) t N Inr hub_invD(12) [OF inv] show ?thesis
      by (auto simp: s_bind_def transfer_sum_def bt.total_insert)
  qed
qed

text \<open>Creating a resource without a buffer charges nothing.\<close>

definition same_charges :: "hub \<Rightarrow> hub \<Rightarrow> bool" where
  "same_charges h h' \<longleftrightarrow> transfer_sum h' = transfer_sum h
     \<and> hub_peak_retained_transfer_capacity h' = hub_peak_retained_transfer_capacity h
     \<and> hub_reserved_native_process_output_bytes h' = hub_reserved_native_process_output_bytes h
     \<and> hub_reserved_process_output_bytes h' = hub_reserved_process_output_bytes h
     \<and> hub_native_transfer_capacity h' = hub_native_transfer_capacity h"

lemma take_slot_charge: "take_resource_slot h = (r, h') \<Longrightarrow> same_charges h h'"
  by (auto simp: take_resource_slot_def same_charges_def transfer_sum_def split: if_splits option.splits)

lemma next_generation_charge: "next_generation s h = (r, h') \<Longrightarrow> same_charges h h'"
  by (auto simp: next_generation_def same_charges_def transfer_sum_def split: option.splits)

lemma next_token_charge: "next_token h = (r, h') \<Longrightarrow> same_charges h h'"
  using next_token_shape by (fastforce simp: same_charges_def)

lemma same_charges_trans: "same_charges a b \<Longrightarrow> same_charges b d \<Longrightarrow> same_charges a d"
  by (simp add: same_charges_def)

lemma same_charges_refl [simp]: "same_charges h h"
  by (simp add: same_charges_def)

lemma create_charge:
  assumes T: "tracks c W h0 h" and v: "blob_capacity v = 0"
    and call: "create_resource_value_locked c store kind rights shareable v h = (r, h')"
  shows "same_charges h h'"
proof (cases "hub_closed h \<or> hc_maximum_resources c \<le> length (hub_resources h)
    \<or> is_blob v \<and> maximum_live_blobs (hc_blob_limits c) \<le> live_blobs h")
  case True
  with call show ?thesis by (auto simp: create_resource_value_locked_def split: if_splits)
next
  case room: False
  obtain r1 h1 where c1: "take_resource_slot h = (r1, h1)" by (cases "take_resource_slot h")
  note T1 = tracks_take_slot [OF T c1] and s1 = take_slot_charge [OF c1]
  show ?thesis
  proof (cases r1)
    case (Inl e)
    with room call c1 s1 show ?thesis by (auto simp: create_resource_value_locked_def s_bind_def)
  next
    case (Inr s)
    obtain r2 h2 where c2: "next_generation s h1 = (r2, h2)" by (cases "next_generation s h1")
    note s2 = same_charges_trans [OF s1 next_generation_charge [OF c2]]
    have T2: "tracks c W h0 h2" using tracks_next_generation [OF _ _ c2, of c W h0] T1 Inr by auto
    show ?thesis
    proof (cases r2)
      case (Inl e)
      with room call c1 Inr c2 s2 show ?thesis by (auto simp: create_resource_value_locked_def s_bind_def)
    next
      case g: (Inr g)
      obtain r3 h3 where c3: "next_token h2 = (r3, h3)" by (cases "next_token h2")
      note s3 = same_charges_trans [OF s2 next_token_charge [OF c3]] and N = next_token_shape [OF c3]
      show ?thesis
      proof (cases r3)
        case (Inl e)
        with room call c1 Inr c2 g c3 s3 show ?thesis
          by (auto simp: create_resource_value_locked_def s_bind_def)
      next
        case t: (Inr t)
        have "bt_get (hub_resources h3) t = None" "bt_wf (hub_resources h3)"
          using N t fresh_token(1) [OF tracks_inv [OF T2], of t] hub_invD(11) [OF tracks_inv [OF T2]] by auto
        then have "same_charges h3 (insert_resource t slot h3)" if "blob_capacity (rs_value slot) = 0" for slot
          using that by (simp add: same_charges_def insert_resource_def transfer_sum_def blob_charge_def
              bt.total_insert)
        with room call c1 Inr c2 g c3 t s3 v show ?thesis
          by (auto simp: create_resource_value_locked_def s_bind_def intro!: same_charges_trans [OF s3])
      qed
    qed
  qed
qed

section \<open>Compiler processes\<close>

lemma fresh_values [simp]:
  "fresh_value c GRANT_KIND rights (CompilerGrant g)"
  "fresh_value c PROCESS_KIND rights new_compiler_process"
  "fresh_value c HASH_KIND rights (Blake3 [])"
  "fresh_value c SYNTHETIC_RESOURCE_KIND rights Synthetic"
  "fresh_value c EXTERNAL_WEBVIEW_RESOURCE_KIND rights ExternalWebview"
  "fresh_value c WEBVIEW_URL_RESOURCE_KIND rights (WebviewUrl url)"
  "fresh_value c OUTPUT_RESOURCE_KIND rights (ExactOutput path)"
  "fresh_value c BLOB_RESOURCE_KIND (BLOB_RIGHT_READ OR BLOB_RIGHT_WRITE) (Blob vec_deque_new False)"
  by (simp_all add: fresh_value_def value_ok_def new_compiler_process_def vec_deque_new_def
      BLOB_RIGHT_READ_def BLOB_RIGHT_WRITE_def)

text \<open>A resource created and published in one section.\<close>

lemma tracks_create_publish:
  assumes T: "tracks c W h0 h" and v: "fresh_value c kind rights v"
  shows "tracks c W h0 (snd (s_bind (create_resource_value_locked c store kind rights shareable v) (\<lambda>t.
           s_bind (publish_resource e t) (\<lambda>_. s_return t)) h))"
proof -
  obtain r h1 where cr: "create_resource_value_locked c store kind rights shareable v h = (r, h1)"
    by (cases "create_resource_value_locked c store kind rights shareable v h")
  have T1: "tracks c W h0 h1" using tracks_create [OF T v cr] by simp
  show ?thesis
  proof (cases r)
    case (Inl x)
    with cr T1 show ?thesis by (simp add: s_bind_def)
  next
    case (Inr t)
    with cr tracks_publish [OF T1, of e t] show ?thesis
      by (auto simp: s_bind_def s_return_def split: prod.splits sum.splits)
  qed
qed

lemma tracks_grant_compiler:
  "tracks c W h0 h \<Longrightarrow> tracks c W h0 (snd (grant_compiler_with_cache c store spec deadline cache h))"
  by (simp add: grant_compiler_with_cache_def s_lift_def tracks_create_publish)

lemma tracks_jobs:
  "tracks c W h0 h \<Longrightarrow> tracks c W h0 (poll_process_jobs h)"
  "tracks c W h0 h \<Longrightarrow> tracks c W h0 (finish_cleanup t ok h)"
  "tracks c W h0 h \<Longrightarrow> tracks c W h0 (track_io_job job t h)"
  "tracks c W h0 h \<Longrightarrow> tracks c W h0 (start_supervisor t t' spec deadline h)"
  "tracks c W h0 h \<Longrightarrow> tracks c W h0 (snd (join_process_jobs_poll h))"
  "tracks c W h0 h \<Longrightarrow> tracks c W h0 (snd (admit_compiler_scalar c' h))"
  by (simp_all add: poll_process_jobs_def finish_cleanup_def track_io_job_def start_supervisor_def
      join_process_jobs_poll_def admit_compiler_scalar_def launch_job_def Let_def)

text \<open>The charge of a reservation and its high-water mark.\<close>

lemma tracks_reserve_charge:
  assumes T: "tracks c W h0 h" and lim: "limits_ok c"
    and room: "transfer_sum h + n \<le> maximum_transfer_bytes (hc_blob_limits c)"
    and h': "h' = h\<lparr>hub_reserved_process_output_bytes := p, hub_reserved_native_process_output_bytes := q\<rparr>"
    and n: "p + q = hub_reserved_process_output_bytes h + hub_reserved_native_process_output_bytes h + n"
  shows "tracks c W h0 (record_transfer_capacity h')"
proof -
  have sum: "transfer_sum h' = transfer_sum h + n" using h' n by (simp add: transfer_sum_def)
  then have cap: "transfer_capacity h' = transfer_sum h + n"
    using room limitsD [OF lim] by (simp add: transfer_capacity_sum)
  have "tracks c W h0 (h\<lparr>hub_native_transfer_capacity := hub_native_transfer_capacity h,
      hub_reserved_process_output_bytes := p, hub_reserved_native_process_output_bytes := q,
      hub_peak_retained_transfer_capacity := max (hub_peak_retained_transfer_capacity h) (transfer_sum h + n)\<rparr>)"
    using room hub_invD(7) [OF tracks_inv [OF T]] n
    by (intro tracks_charges [OF T]) (auto simp: transfer_ok_def)
  moreover have "record_transfer_capacity h' = h\<lparr>hub_native_transfer_capacity := hub_native_transfer_capacity h,
      hub_reserved_process_output_bytes := p, hub_reserved_native_process_output_bytes := q,
      hub_peak_retained_transfer_capacity := max (hub_peak_retained_transfer_capacity h) (transfer_sum h + n)\<rparr>"
    unfolding record_transfer_capacity_def cap by (rule hub.equality) (simp_all add: h')
  ultimately show ?thesis by simp
qed

lemma record_cleanups [simp]:
  "record_transfer_capacity (h\<lparr>hub_cleanups := m\<rparr>) = (record_transfer_capacity h)\<lparr>hub_cleanups := m\<rparr>"
  by (simp add: record_transfer_capacity_def transfer_capacity_def)

lemma check_spawn_room:
  assumes "check_compiler_spawn c store grant h = Inr u" "limits_ok c"
  shows "transfer_sum h + NATIVE_PROCESS_OUTPUT_ALLOWANCE \<le> maximum_transfer_bytes (hc_blob_limits c)"
proof -
  have "saturating_add (transfer_capacity h) NATIVE_PROCESS_OUTPUT_ALLOWANCE \<le> maximum_sketch_bytes (hc_blob_limits c)"
    using assms(1) by (auto simp: check_compiler_spawn_def and_then_def ok_or_def not_less
        split: if_splits option.splits sum.splits)
  with limitsD [OF assms(2)] show ?thesis by (simp add: transfer_capacity_sum saturating_min_le)
qed

lemma tracks_consume_grant:
  "tracks c W h0 h \<Longrightarrow> tracks c W h0 (snd (consume_grant t h))"
  by (auto simp: consume_grant_def take_grant_spec_def resource_ok_def value_ok_def
      split: option.splits ResourceValue.splits intro!: tracks_value)

lemma tracks_reserve_native:
  assumes lim: "limits_ok c" and T: "tracks c W h0 h" and fresh: "hub_next_opaque_token h0 < t"
    and room: "transfer_sum h + NATIVE_PROCESS_OUTPUT_ALLOWANCE \<le> maximum_transfer_bytes (hc_blob_limits c)"
  shows "tracks c W h0 (reserve_native_output t process h)"
proof -
  let ?f = "\<lambda>op. op\<lparr>op_created_resource := Some process, op_is_compiler_spawn := True\<rparr>"
  let ?h = "update_operation t ?f h"
  have T1: "tracks c W h0 ?h"
    by (rule tracks_flag_operation [OF T]) (auto simp: op_flag_defs)
  have "bt_total op_charge (bt_modify t ?f (hub_operations h)) = bt_total op_charge (hub_operations h)"
    using hub_invD(12) [OF tracks_inv [OF T]] by (rule bt.total_modify_same) (simp add: op_charge_def)
  then have "transfer_sum ?h = transfer_sum h" by (simp add: transfer_sum_def update_operation_def)
  with room have room': "transfer_sum ?h + NATIVE_PROCESS_OUTPUT_ALLOWANCE \<le> maximum_transfer_bytes (hc_blob_limits c)" by simp
  have "tracks c W h0 (record_transfer_capacity (?h\<lparr>hub_reserved_process_output_bytes := hub_reserved_process_output_bytes ?h,
      hub_reserved_native_process_output_bytes := hub_reserved_native_process_output_bytes ?h + NATIVE_PROCESS_OUTPUT_ALLOWANCE\<rparr>))"
    by (rule tracks_reserve_charge [OF T1 lim room' refl]) simp
  then show ?thesis by (simp add: reserve_native_output_def Let_def)
qed

lemma tracks_submit_spawn:
  assumes lim: "limits_ok c" and T: "tracks c W h0 h"
  shows "tracks c W h0 (snd (submit_compiler_spawn c store grant h))"
proof (cases "hub_closed h")
  case True
  with T show ?thesis by (simp add: submit_compiler_spawn_def)
next
  case False
  let ?h = "poll_process_jobs h"
  have T0: "tracks c W h0 ?h" by (rule tracks_jobs [OF T])
  show ?thesis
  proof (cases "check_compiler_spawn c store grant ?h")
    case (Inl e)
    with False T0 show ?thesis by (simp add: submit_compiler_spawn_def Let_def)
  next
    case (Inr u)
    note room = check_spawn_room [OF Inr lim]
    obtain r1 h1 where s: "submit_locked c store (Some grant) GRANT_KIND PROCESS_RIGHT ?h = (r1, h1)"
      by (cases "submit_locked c store (Some grant) GRANT_KIND PROCESS_RIGHT ?h")
    note S = tracks_submit [OF T0 s] submit_charge [OF tracks_inv [OF T0] s]
    show ?thesis
    proof (cases r1)
      case e: (Inl e)
      with False Inr s S show ?thesis by (simp add: submit_compiler_spawn_def Let_def s_bind_def)
    next
      case t: (Inr t)
      let ?create = "create_resource_value_locked c store PROCESS_KIND PROCESS_RIGHT False new_compiler_process h1"
      obtain r2 h2 where cr: "?create = (r2, h2)" by (cases ?create)
      have T1: "tracks c W h0 h1" "hub_next_opaque_token ?h < t" using S t by auto
      have T2: "tracks c W h0 h2" using tracks_create [OF T1(1) _ cr] by simp
      have c2: "same_charges h1 h2"
        by (rule create_charge [OF T1(1) _ cr]) (simp add: new_compiler_process_def)
      show ?thesis
      proof (cases r2)
        case (Inl e)
        with False Inr s t cr T2 show ?thesis
          by (simp add: submit_compiler_spawn_def Let_def s_bind_def s_catch_def tracks_remove_operation)
      next
        case p: (Inr p)
        have "hub_next_opaque_token h0 < t"
          using T1(2) T0 by (simp add: tracks_def evolves_def)
        then have "tracks c W h0 (reserve_native_output t p h2)"
          using T2 S c2 room by (intro tracks_reserve_native [OF lim]) (simp_all add: same_charges_def)
        then have "tracks c W h0 (snd (consume_grant grant (reserve_native_output t p h2)))"
          by (rule tracks_consume_grant)
        with False Inr s t cr p show ?thesis
          by (auto simp: submit_compiler_spawn_def Let_def s_bind_def s_catch_def
              split: prod.splits sum.splits intro: tracks_jobs)
      qed
    qed
  qed
qed

lemma tracks_publish_compiler:
  assumes T: "tracks c W h0 h"
  shows "tracks c W h0 (snd (publish_compiler t process session h))"
proof -
  let ?h = "update_resource process (set_session session) h"
  have T1: "tracks c W h0 ?h"
    by (rule tracks_value [OF T])
      (auto simp: set_session_def resource_ok_def value_ok_def split: ResourceValue.splits)
  obtain n h2 where l: "terminal_locked t \<lparr>tr_terminal = T_Completed, tr_resource = Some process\<rparr> ?h = (n, h2)"
    by (cases "terminal_locked t \<lparr>tr_terminal = T_Completed, tr_resource = Some process\<rparr> ?h")
  from tracks_terminal_locked [OF T1 l] T l show ?thesis
    by (auto simp: publish_compiler_def s_bind_def split: option.splits ResourceValue.splits sum.splits
        intro: tracks_notify_option)
qed

lemma tracks_release_native:
  assumes T: "tracks c W h0 h"
  shows "tracks c W h0 (snd (release_native_section h))"
proof -
  have "tracks c W h0 (h\<lparr>hub_native_transfer_capacity := hub_native_transfer_capacity h,
      hub_reserved_process_output_bytes := hub_reserved_process_output_bytes h,
      hub_reserved_native_process_output_bytes :=
        hub_reserved_native_process_output_bytes h - NATIVE_PROCESS_OUTPUT_ALLOWANCE,
      hub_peak_retained_transfer_capacity := hub_peak_retained_transfer_capacity h\<rparr>)"
    using hub_invD(7) [OF tracks_inv [OF T]] by (intro tracks_charges [OF T]) (auto simp: transfer_ok_def)
  with T show ?thesis by (simp add: release_native_section_def)
qed

text \<open>An operation is withdrawn together with a resource.\<close>

lemma tracks_withdraw:
  assumes T: "tracks c W h0 h" and m: "m = (\<lambda>h. case b of None \<Rightarrow> (Inr [], h)
      | Some b \<Rightarrow> if bt_get (hub_resources h) b \<noteq> None then close_resource_with_terminal_locked b k h else (Inr [], h))"
  shows "tracks c W h0 (snd (s_bind m (\<lambda>ws h. (Inr (), notify_all (t # ws) (h\<lparr>hub_log := hub_log h @ es\<rparr>))) h))"
proof -
  obtain r h1 where r: "m h = (r, h1)" by (cases "m h")
  have "\<exists>ws. r = Inr ws \<and> tracks c (set ws \<union> W) h0 h1"
  proof (cases "\<exists>x. b = Some x \<and> bt_get (hub_resources h) x \<noteq> None")
    case True
    then obtain x where x: "b = Some x" "bt_get (hub_resources h) x \<noteq> None" by blast
    then obtain ws where "r = Inr ws" "close_resource_with_terminal_locked x k h = (Inr ws, h1)"
      using close_resource_Inr [of h x k] r m by auto
    with tracks_close_resource [OF T this(2)] show ?thesis by simp
  next
    case False
    with r m T show ?thesis by (auto split: option.splits if_splits)
  qed
  then obtain ws where ws: "r = Inr ws" "tracks c (set ws \<union> W) h0 h1" by blast
  then have "tracks c W h0 (notify_all (t # ws) (h1\<lparr>hub_log := hub_log h1 @ es\<rparr>))"
    by (intro tracks_notify_all tracks_log) (auto elim: tracks_wakes)
  with r ws(1) show ?thesis by (simp add: s_bind_def)
qed

lemma tracks_abandon_spawn:
  assumes T: "tracks c W h0 h"
  shows "tracks c W h0 (snd (abandon_compiler_spawn store t h))"
proof -
  have "tracks c W h0 (snd (s_bind (\<lambda>h. if bt_get (hub_resources h) p \<noteq> None
      then close_resource_with_terminal_locked p T_Closed h else (Inr [], h))
      (\<lambda>ws h. (Inr (), notify_all (t # ws) h)) (remove_operation t h)))" for p
    using tracks_withdraw [OF tracks_remove_operation [OF T, of t] refl, where b = "Some p" and k = T_Closed and t = t and es = "[]"]
    by simp
  with T show ?thesis by (auto simp: abandon_compiler_spawn_def split: option.splits)
qed

section \<open>Waiting and closing\<close>

lemma tracks_close_compiler:
  assumes "tracks c W h0 h"
  shows "tracks c W h0 (snd (close_compiler store process h))"
  using tracks_close_section [OF assms, of process T_Closed] assms
  by (auto simp: close_compiler_def s_bind_def s_return_def split: sum.splits prod.splits)

text \<open>A process that is borrowed is no blob.\<close>

lemma borrowed_process:
  assumes "hub_inv c W h" "borrowed c store (Some b) PROCESS_KIND rights h" "bt_get (hub_resources h) b = Some r"
  shows "\<not> is_blob (rs_value r)"
proof -
  have "id_kind (rs_identity r) = PROCESS_KIND"
    using assms(2,3) by (auto simp: borrowed_def check_borrow_def split: if_splits)
  moreover have "resource_ok c r" using assms(1,3) by (simp add: hub_inv_def resources_ok_def)
  ultimately have "value_kind (rs_value r) = PROCESS_KIND" by (simp add: resource_ok_def)
  then show ?thesis
    by (cases "rs_value r") (simp_all add: PROCESS_KIND_def BLOB_RESOURCE_KIND_def)
qed

text \<open>A new operation takes its role in the section that submitted it.\<close>

lemma tracks_new_role:
  assumes T: "tracks c W h0 h" and op: "bt_get (hub_operations h) t = Some op"
    and step: "op_ok c op \<Longrightarrow> op_step c op (f op) \<and> op_terminal (f op) = op_terminal op"
    and role: "role_ok h op (f op)"
    and fresh: "hub_next_opaque_token h0 < t"
  shows "tracks c W h0 (update_operation t f h)"
  by (rule tracks_flag_operation [OF T]) (use op step role fresh in auto)

lemma tracks_submit_wait:
  assumes T: "tracks c W h0 h"
  shows "tracks c W h0 (snd (submit_compiler_wait c store process h))"
proof -
  obtain r h1 where a: "admit_compiler_scalar c h = (r, h1)" by (cases "admit_compiler_scalar c h")
  have T1: "tracks c W h0 h1" using tracks_jobs(6) [OF T, of c] a by simp
  obtain r2 h2 where s: "submit_locked c store (Some process) PROCESS_KIND PROCESS_RIGHT h1 = (r2, h2)"
    by (cases "submit_locked c store (Some process) PROCESS_KIND PROCESS_RIGHT h1")
  note S = tracks_submit [OF T1 s]
  have "tracks c W h0 (update_operation t (\<lambda>op. op\<lparr>op_compiler_scalar := Some Wait, op_producer_cancel := True\<rparr>) h2)"
    if t: "r2 = Inr t" for t
  proof (rule tracks_new_role)
    show "tracks c W h0 h2" using S by simp
    show "bt_get (hub_operations h2) t = Some (new_operation store (Some process) PROCESS_RIGHT)"
      using S t by simp
    show "hub_next_opaque_token h0 < t" using S t T1 by (auto simp: tracks_def evolves_def)
    show "role_ok h2 (new_operation store (Some process) PROCESS_RIGHT) op'" for op'
      using borrowed_process [OF tracks_inv [OF T1]] S t by (auto simp: role_ok_def)
  qed (simp add: op_flag_defs new_operation_def)
  with a T1 s S show ?thesis
    by (cases r; cases r2) (simp_all add: submit_compiler_wait_def s_bind_def tracks_jobs)
qed

lemma tracks_submit_close:
  assumes T: "tracks c W h0 h"
  shows "tracks c W h0 (snd (submit_compiler_close c store process h))"
proof -
  obtain r h1 where a: "admit_compiler_scalar c h = (r, h1)" by (cases "admit_compiler_scalar c h")
  have T1: "tracks c W h0 h1" using tracks_jobs(6) [OF T, of c] a by simp
  obtain r2 h2 where s: "submit_locked c store None PROCESS_KIND PROCESS_RIGHT h1 = (r2, h2)"
    by (cases "submit_locked c store None PROCESS_KIND PROCESS_RIGHT h1")
  note S = tracks_submit [OF T1 s]
  let ?f = "\<lambda>op. op\<lparr>op_compiler_scalar := Some Close, op_producer_cancel := True\<rparr>"
  have T2: "tracks c W h0 (update_operation t ?f h2)" if t: "r2 = Inr t" for t
  proof (rule tracks_new_role)
    show "tracks c W h0 h2" using S by simp
    show "bt_get (hub_operations h2) t = Some (new_operation store None PROCESS_RIGHT)" using S t by simp
    show "hub_next_opaque_token h0 < t" using S t T1 by (auto simp: tracks_def evolves_def)
  qed (simp_all add: op_flag_defs new_operation_def)
  have "tracks c W h0 (snd (s_bind (\<lambda>h. close_resource_with_terminal_locked process T_Closed (update_operation t ?f h))
      (\<lambda>ws h. (Inr t, notify_all ws (track_io_job (ObserveCleanup t process) t h))) h2))" if t: "r2 = Inr t" for t
  proof -
    obtain m h3 where cl: "close_resource_with_terminal_locked process T_Closed (update_operation t ?f h2) = (m, h3)"
      by (cases "close_resource_with_terminal_locked process T_Closed (update_operation t ?f h2)")
    from tracks_close_resource [OF T2 [OF t] cl] cl show ?thesis
      by (cases m) (auto simp: s_bind_def intro!: tracks_notify_all tracks_jobs)
  qed
  with a T1 s S show ?thesis
    by (cases r; cases "check_process store process h1"; cases r2)
      (auto simp: submit_compiler_close_def s_bind_def)
qed

lemma tracks_ignore_terminal:
  "tracks c W h0 h \<Longrightarrow> tracks c W h0 (s_ignore (terminal t r) h)"
  by (simp add: s_ignore_def tracks_terminal)

lemma tracks_drop_scalar:
  "tracks c W h0 h \<Longrightarrow> tracks c W h0 (drop_scalar_producer t h)"
  by (auto simp: drop_scalar_producer_def tracks_ignore_terminal split: option.splits)

lemma tracks_report_exit:
  assumes T: "tracks c W h0 h"
  shows "tracks c W h0 (report_exit t result h)"
proof -
  have "tracks c W h0 (update_operation t (op_compiler_exit_update (\<lambda>_. e)) h)" for e
    by (rule tracks_flag_operation [OF T]) (auto simp: op_flag_defs)
  with T show ?thesis
    by (auto simp: report_exit_def Let_def tracks_ignore_terminal split: option.splits)
qed

lemma tracks_observe_jobs:
  "tracks c W h0 h \<Longrightarrow> tracks c W h0 (observe_exit_job store t process answer h)"
  "tracks c W h0 h \<Longrightarrow> tracks c W h0 (observe_cleanup_job t answer' h)"
  by (auto simp: observe_exit_job_def observe_cleanup_job_def tracks_drop_scalar tracks_report_exit
      tracks_ignore_terminal split: option.splits)

lemma tracks_collect_wait:
  "tracks c W h0 h \<Longrightarrow> tracks c W h0 (snd (collect_compiler_wait store t h))"
  by (auto simp: collect_compiler_wait_def tracks_remove_operation split: option.splits sum.splits)

lemma tracks_abandon_scalar:
  assumes T: "tracks c W h0 h"
  shows "tracks c W h0 (snd (abandon_compiler_scalar store t close h))"
  using T tracks_log [OF tracks_remove_operation [OF T, of t], of "[ProducerCancelled t]"]
  by (auto simp: abandon_compiler_scalar_def Let_def split: option.splits
      intro!: tracks_reports tracks_remove_operation)

lemma tracks_abandon_compiler_resource:
  "tracks c W h0 h \<Longrightarrow> tracks c W h0 (snd (abandon_compiler_resource store t grant h))"
  by (auto simp: abandon_compiler_resource_def tracks_close_section split: sum.splits)

section \<open>Output events\<close>

lemma set_output_busy_tracks:
  "tracks c W h0 h \<Longrightarrow> tracks c W h0 (update_resource t (set_output_busy busy) h)"
  by (rule tracks_value)
    (auto simp: set_output_busy_def resource_ok_def value_ok_def split: ResourceValue.splits)

lemma set_output_busy_charge [simp]:
  "hub_inv c W h \<Longrightarrow> transfer_sum (update_resource t (set_output_busy busy) h) = transfer_sum h"
  using hub_invD(11) [of c W h]
  by (simp add: transfer_sum_def update_resource_def blob_charge_def)
    (rule bt.total_modify_same, auto simp: set_output_busy_def split: ResourceValue.splits)

lemma check_output_room:
  assumes "check_output_read c store process h = Inr s" "limits_ok c"
  shows "transfer_sum h + MAX_PROCESS_OUTPUT_CHUNK \<le> maximum_transfer_bytes (hc_blob_limits c)"
proof -
  have "saturating_add (transfer_capacity h) MAX_PROCESS_OUTPUT_CHUNK \<le> maximum_sketch_bytes (hc_blob_limits c)"
    using assms(1) by (auto simp: check_output_read_def and_then_def ok_or_def not_less
        split: if_splits option.splits sum.splits)
  with limitsD [OF assms(2)] show ?thesis by (simp add: transfer_capacity_sum saturating_min_le)
qed

lemma tracks_reserve_output:
  assumes lim: "limits_ok c" and T: "tracks c W h0 h"
    and op: "bt_get (hub_operations h) t = Some op" "op_terminal op = None"
    and room: "transfer_sum h + MAX_PROCESS_OUTPUT_CHUNK \<le> maximum_transfer_bytes (hc_blob_limits c)"
  shows "tracks c W h0 (reserve_output t process h)"
proof -
  let ?h1 = "update_operation t (op_producer_cancel_update (\<lambda>_. True)) h"
  let ?h2 = "update_resource process (set_output_busy True) ?h1"
  have T1: "tracks c W h0 ?h1"
    by (rule tracks_flag_operation [OF T]) (use op in \<open>auto simp: op_flag_defs\<close>)
  have T2: "tracks c W h0 ?h2" by (rule set_output_busy_tracks [OF T1])
  have "bt_total op_charge (bt_modify t (op_producer_cancel_update (\<lambda>_. True)) (hub_operations h))
      = bt_total op_charge (hub_operations h)"
    using hub_invD(12) [OF tracks_inv [OF T]] by (rule bt.total_modify_same) (simp add: op_charge_def)
  then have "transfer_sum ?h1 = transfer_sum h" by (simp add: transfer_sum_def update_operation_def)
  then have sum: "transfer_sum ?h2 + MAX_PROCESS_OUTPUT_CHUNK \<le> maximum_transfer_bytes (hc_blob_limits c)"
    using room set_output_busy_charge [OF tracks_inv [OF T1]] by simp
  have "tracks c W h0 (record_transfer_capacity (?h2\<lparr>hub_reserved_process_output_bytes :=
      hub_reserved_process_output_bytes ?h2 + MAX_PROCESS_OUTPUT_CHUNK,
      hub_reserved_native_process_output_bytes := hub_reserved_native_process_output_bytes ?h2\<rparr>))"
    by (rule tracks_reserve_charge [OF T2 lim sum refl]) simp
  then show ?thesis by (simp add: reserve_output_def Let_def)
qed

lemma reserve_output_tables:
  "hub_operations (reserve_output t p h) = bt_modify t (op_producer_cancel_update (\<lambda>_. True)) (hub_operations h)"
  "hub_resources (reserve_output t p h) = bt_modify p (set_output_busy True) (hub_resources h)"
  by (simp_all add: reserve_output_def Let_def record_transfer_capacity_def update_operation_def
      update_resource_def)

lemma set_output_busy_blob [simp]: "is_blob (rs_value (set_output_busy busy r)) = is_blob (rs_value r)"
  by (simp add: set_output_busy_def split: ResourceValue.splits)

lemma tracks_begin_output:
  assumes lim: "limits_ok c" and T: "tracks c W h0 h"
    and call: "begin_compiler_output_locked c store process h = (r, h')"
  shows "tracks c W h0 h' \<and> (\<forall>lease. r = Inr lease \<longrightarrow> hub_next_opaque_token h < cor_operation lease
    \<and> (\<forall>op op'. bt_get (hub_operations h') (cor_operation lease) = Some op \<longrightarrow> role_ok h' op op'))"
proof (cases "check_output_read c store process h")
  case (Inl e)
  with T call show ?thesis by (auto simp: begin_compiler_output_locked_def)
next
  case (Inr s)
  note room = check_output_room [OF Inr lim]
  obtain r1 h1 where s: "submit_locked c store (Some process) PROCESS_KIND PROCESS_RIGHT h = (r1, h1)"
    by (cases "submit_locked c store (Some process) PROCESS_KIND PROCESS_RIGHT h")
  note S = tracks_submit [OF T s] submit_charge [OF tracks_inv [OF T] s]
  show ?thesis
  proof (cases r1)
    case (Inl e)
    with call Inr s S show ?thesis by (auto simp: begin_compiler_output_locked_def s_bind_def)
  next
    case t: (Inr t)
    have "tracks c W h0 (reserve_output t process h1)"
      by (rule tracks_reserve_output [OF lim, of _ _ _ _ "new_operation store (Some process) PROCESS_RIGHT"])
        (use S t room in simp_all)
    moreover have "\<not> is_blob (rs_value r)" if "bt_get (hub_resources h) process = Some r" for r
      using borrowed_process [OF tracks_inv [OF T] _ that] S t by auto
    then have "role_ok (reserve_output t process h1) op op'"
      if "bt_get (hub_operations (reserve_output t process h1)) t = Some op" for op op'
      using that S t by (auto simp: role_ok_def reserve_output_tables)
    ultimately show ?thesis
      using call Inr s t S by (auto simp: begin_compiler_output_locked_def s_bind_def)
  qed
qed

lemma tracks_submit_output:
  assumes lim: "limits_ok c" and T: "tracks c W h0 h"
  shows "tracks c W h0 (snd (submit_compiler_output c store process h))"
proof -
  obtain r h1 where a: "admit_compiler_scalar c h = (r, h1)" by (cases "admit_compiler_scalar c h")
  have T1: "tracks c W h0 h1" using tracks_jobs(6) [OF T, of c] a by simp
  obtain r2 h2 where b: "begin_compiler_output_locked c store process h1 = (r2, h2)"
    by (cases "begin_compiler_output_locked c store process h1")
  note B = tracks_begin_output [OF lim T1 b]
  have "tracks c W h0 (update_operation (cor_operation lease) (op_is_compiler_read_update (\<lambda>_. True)) h2)"
    if "r2 = Inr lease" for lease
  proof -
    have "hub_next_opaque_token h0 < cor_operation lease"
      using B that T1 by (auto simp: tracks_def evolves_def)
    then show ?thesis
      using B that by (intro tracks_flag_operation) (auto simp: op_step_def op_ok_def op_charge_def)
  qed
  with a T1 b B show ?thesis
    by (cases r; cases r2) (simp_all add: submit_compiler_output_def s_bind_def tracks_jobs)
qed

lemma tracks_lower_reserved:
  assumes T: "tracks c W h0 h"
  shows "tracks c W h0 (h\<lparr>hub_reserved_process_output_bytes := hub_reserved_process_output_bytes h - n\<rparr>)"
proof -
  have "tracks c W h0 (h\<lparr>hub_native_transfer_capacity := hub_native_transfer_capacity h,
      hub_reserved_process_output_bytes := hub_reserved_process_output_bytes h - n,
      hub_reserved_native_process_output_bytes := hub_reserved_native_process_output_bytes h,
      hub_peak_retained_transfer_capacity := hub_peak_retained_transfer_capacity h\<rparr>)"
    using hub_invD(7) [OF tracks_inv [OF T]] by (intro tracks_charges [OF T]) (auto simp: transfer_ok_def)
  then show ?thesis by simp
qed

lemma tracks_drop_output:
  assumes T: "tracks c W h0 h"
  shows "tracks c W h0 (drop_output_section lease h)"
proof -
  let ?h1 = "if cor_disposition lease = Native then remove_operation (cor_operation lease) h
    else s_ignore (terminal (cor_operation lease) \<lparr>tr_terminal = T_Closed, tr_resource = None\<rparr>) h"
  let ?h2 = "update_resource (cor_process lease) (set_output_busy False) ?h1"
  let ?close = "if \<not> cor_completed lease \<and> bt_get (hub_resources ?h2) (cor_process lease) \<noteq> None
      then close_resource_with_terminal_locked (cor_process lease) T_Closed ?h2 else (Inr [], ?h2)"
  have "tracks c W h0 ?h1" using T by (simp add: tracks_remove_operation tracks_ignore_terminal)
  then have T2: "tracks c W h0 ?h2" by (rule set_output_busy_tracks)
  obtain r h3 where cl: "?close = (r, h3)" by (cases ?close)
  have "\<exists>ws. r = Inr ws \<and> tracks c (set ws \<union> W) h0 h3"
  proof (cases "\<not> cor_completed lease \<and> bt_get (hub_resources ?h2) (cor_process lease) \<noteq> None")
    case True
    with cl have cl': "close_resource_with_terminal_locked (cor_process lease) T_Closed ?h2 = (r, h3)" by simp
    then obtain ws where "r = Inr ws" using close_resource_Inr [of ?h2 "cor_process lease" T_Closed] True by auto
    with tracks_close_resource [OF T2 cl'] show ?thesis by simp
  next
    case False
    then have "?close = (Inr [], ?h2)" by (rule if_not_P)
    with cl T2 show ?thesis by simp
  qed
  then obtain ws where ws: "r = Inr ws" "tracks c (set ws \<union> W) h0 h3" by blast
  let ?removed = "if cor_disposition lease = Native \<and> bt_get (hub_operations h) (cor_operation lease) \<noteq> None
      then [cor_operation lease] else []"
  have "tracks c W h0 (notify_all (?removed @ ws) (h3\<lparr>hub_reserved_process_output_bytes :=
      hub_reserved_process_output_bytes h3 - MAX_PROCESS_OUTPUT_CHUNK\<rparr>))"
    by (intro tracks_notify_all tracks_wakes [OF tracks_lower_reserved [OF ws(2)]]) auto
  then show ?thesis
    using cl ws(1) unfolding drop_output_section_def Let_def by simp
qed

lemma tracks_admit_event:
  assumes T: "tracks c W h0 h"
  shows "tracks c W h0 (snd (admit_event lease event h))"
proof -
  have "tracks c W h0 (update_resource (cor_process lease) (count_output n) h)"
    if p: "resource_value h (cor_process lease) = Some (CompilerProcess p)"
      "cp_output_bytes p + n \<le> cp_output_limit p" for p n
  proof (rule tracks_value [OF T])
    fix r assume r: "bt_get (hub_resources h) (cor_process lease) = Some r" "resource_ok c r"
    with p show "(is_sealed (rs_value r) \<longrightarrow> rs_value (count_output n r) = rs_value r)
      \<and> rs_identity (count_output n r) = rs_identity r \<and> rs_store (count_output n r) = rs_store r
      \<and> rs_shareable (count_output n r) = rs_shareable r \<and> rs_reserved (count_output n r) = rs_reserved r
      \<and> rs_committing (count_output n r) = rs_committing r
      \<and> value_evolves (rs_value r) (rs_value (count_output n r)) \<and> value_ok c (rs_value (count_output n r))
      \<and> blob_length (rs_value (count_output n r)) = blob_length (rs_value r)
      \<and> blob_capacity (rs_value (count_output n r)) \<le> blob_capacity (rs_value r)"
      by (auto simp: count_output_def resource_value_Some value_ok_def)
  qed
  with T show ?thesis
    by (auto simp: admit_event_def not_less checked_add_def
        split: option.splits ResourceValue.splits ProcessOutputEvent.splits if_splits)
qed

lemma tracks_receive_event:
  "tracks c W h0 h \<Longrightarrow> tracks c W h0 (snd (receive_event lease answer h))"
  by (auto simp: receive_event_def tracks_admit_event split: option.splits)

lemma tracks_collect_output:
  assumes T: "tracks c W h0 h"
  shows "tracks c W h0 (snd (collect_output_section lease h))"
  using T tracks_terminal [OF T, of "cor_operation lease" "\<lparr>tr_terminal = T_Completed, tr_resource = None\<rparr>"]
  by (auto simp: collect_output_section_def split: option.splits prod.splits sum.splits)

lemma tracks_publish_section:
  assumes T: "tracks c W h0 h"
  shows "tracks c W h0 (snd (publish_section lease event h))"
proof (cases "\<exists>op. bt_get (hub_operations h) (cor_operation lease) = Some op
    \<and> op_is_compiler_read op \<and> op_terminal op = None
    \<and> MAX_PROCESS_OUTPUT_CHUNK \<le> hub_reserved_process_output_bytes h")
  case False
  then have "snd (publish_section lease event h) = h"
    by (auto simp: publish_section_def not_less split: option.splits sum.splits)
  with T show ?thesis by simp
next
  case True
  then obtain op where op: "bt_get (hub_operations h) (cor_operation lease) = Some op"
    "op_is_compiler_read op" "op_terminal op = None"
    and res: "MAX_PROCESS_OUTPUT_CHUNK \<le> hub_reserved_process_output_bytes h" by blast
  note D = hub_invD [OF tracks_inv [OF T]]
  have ok: "op_ok c op" using hub_op_ok [OF tracks_inv [OF T] op(1)] .
  let ?t = "cor_operation lease" and ?f = "op_compiler_output_update (\<lambda>_. Some event)"
  let ?h = "(update_operation ?t ?f h)\<lparr>hub_reserved_process_output_bytes :=
      hub_reserved_process_output_bytes h - MAX_PROCESS_OUTPUT_CHUNK,
      hub_peak_retained_transfer_capacity := hub_peak_retained_transfer_capacity h\<rparr>"
  have "tracks c W h0 ?h"
  proof (rule tracks_charge_operation [OF T op(1)])
    show "op_ok c (?f op)" using ok op(2,3) by (auto simp: op_ok_def)
    show "is_blob (rs_value r)" if "op_pending_blob_write (?f op) \<noteq> None \<or> op_pending_blob_read (?f op) \<noteq> None"
      "op_resource op = Some b" "bt_get (hub_resources h) b = Some r" for b r
      using D(5) op(1) that by (auto simp: ops_ok_def)
    show "transfer_sum h + op_charge (?f op) + (hub_reserved_process_output_bytes h - MAX_PROCESS_OUTPUT_CHUNK)
        \<le> hub_peak_retained_transfer_capacity h + op_charge op + hub_reserved_process_output_bytes h"
      using res D(7) by (simp add: op_charge_def transfer_ok_def)
  qed (use D(6,7) in \<open>auto simp: op_evolves_def ledger_ok_def transfer_ok_def\<close>)
  then have "tracks c W h0 (snd (terminal ?t \<lparr>tr_terminal = T_Completed, tr_resource = None\<rparr> ?h))"
    by (rule tracks_terminal)
  moreover have "?h = (update_operation ?t ?f h)\<lparr>hub_reserved_process_output_bytes :=
      hub_reserved_process_output_bytes h - MAX_PROCESS_OUTPUT_CHUNK\<rparr>"
    by (simp add: update_operation_def)
  ultimately show ?thesis
    using T by (auto simp: publish_section_def split: option.splits sum.splits)
qed

lemma tracks_collect_output_wire:
  "tracks c W h0 h \<Longrightarrow> tracks c W h0 (snd (collect_output_wire_section store t capacity h))"
  by (auto simp: collect_output_wire_section_def split: option.splits sum.splits
      intro!: set_output_busy_tracks tracks_remove_operation)

lemma tracks_abandon_output:
  assumes T: "tracks c W h0 h"
  shows "tracks c W h0 (snd (abandon_output_section store t h))"
proof -
  have "tracks c W h0 (snd (s_bind (\<lambda>h. if bt_get (hub_resources h) p \<noteq> None
      then close_resource_with_terminal_locked p T_Closed h else (Inr [], h))
      (\<lambda>ws h. (Inr (), notify_all (t # ws) (h\<lparr>hub_log := hub_log h @ es\<rparr>))) (remove_operation t h)))" for p es
    using tracks_withdraw [OF tracks_remove_operation [OF T, of t] refl,
        where b = "Some p" and k = T_Closed and t = t and es = es] by simp
  note this [of _ "[ProducerCancelled t]"] this [of _ "[]"]
  with T show ?thesis by (auto simp: abandon_output_section_def split: option.splits)
qed

lemma tracks_cancel_output:
  assumes T: "tracks c W h0 h"
  shows "tracks c W h0 (snd (cancel_output_section store t h))"
proof -
  have "tracks c W h0 (snd (s_bind (close_resource_section p T_Cancelled) (\<lambda>_. s_return True) h))" for p
    using tracks_close_section [OF T, of p T_Cancelled]
    by (auto simp: s_bind_def s_return_def split: prod.splits sum.splits)
  with T show ?thesis by (auto simp: cancel_output_section_def split: option.splits)
qed

section \<open>File commits\<close>

text \<open>A commit begins when no open operation borrows the blob, and holds it from then on.\<close>

lemma tracks_begin_commit:
  assumes T: "tracks c W h0 h"
  shows "tracks c W h0 (snd (begin_commit_section store b h))"
proof (cases "\<exists>r d. bt_get (hub_resources h) b = Some r \<and> rs_value r = Blob d True
    \<and> \<not> list_ex (\<lambda>op. op_resource op = Some b \<and> op_terminal op = None) (bt_values (hub_operations h))")
  case False
  then have "snd (begin_commit_section store b h) = h"
    by (auto simp: begin_commit_section_def split: option.splits sum.splits ResourceValue.splits)
  with T show ?thesis by simp
next
  case True
  then obtain r d where r: "bt_get (hub_resources h) b = Some r" "rs_value r = Blob d True"
    and free: "\<not> list_ex (\<lambda>op. op_resource op = Some b \<and> op_terminal op = None) (bt_values (hub_operations h))"
    by blast
  note inv = tracks_inv [OF T]
  note D = hub_invD [OF inv] and ok = resource_okD [OF T r(1)]
  let ?f = "rs_committing_update (\<lambda>_. True)"
  have ok': "resource_ok c (?f r)" using ok by (simp add: resource_ok_def)
  have ended: "op_terminal op \<noteq> None"
    if "bt_get (hub_operations h) t = Some op" "op_resource op = Some b" for t op
    using free that bt_value_iff [OF D(12), of op] by (auto simp: list_ex_iff)
  have "\<not> reads_process op"
    if "bt_get (hub_operations h) t = Some op" "op_resource op = Some b" for t op
  proof -
    have "reads_process op \<longrightarrow> \<not> is_blob (rs_value r)"
      using D(13) that r(1) unfolding commits_ok_def by blast
    with r(2) show ?thesis by simp
  qed
  with ended have "commits_ok (update_resource b ?f h)"
    using D(13) r by (auto simp: commits_ok_def update_resource_def split: if_splits)
  moreover note groups_update_resource [where f = ?f, OF inv r(1) ok']
  moreover have "bt_total (\<lambda>r. blob_length (rs_value r)) (bt_modify b ?f (hub_resources h))
      = bt_total (\<lambda>r. blob_length (rs_value r)) (hub_resources h)"
    by (rule bt.total_modify_same [OF D(11)]) simp
  moreover have "blob_charge (bt_modify b ?f (hub_resources h)) = blob_charge (hub_resources h)"
    unfolding blob_charge_def by (rule bt.total_modify_same [OF D(11)]) simp
  ultimately have "hub_inv c W (update_resource b ?f h)"
    using D(6,7) by (intro hub_invI)
      (simp_all add: ledger_ok_def transfer_ok_def transfer_sum_def update_resource_def)
  moreover have "evolves h0 (update_resource b ?f h)"
    using T r(1) by (intro evolves_update_resource) (auto simp: tracks_def resource_evolves_def)
  ultimately have "tracks c W h0 (update_resource b ?f h)" by (simp add: tracks_def)
  with T show ?thesis
    by (auto simp: begin_commit_section_def split: option.splits sum.splits)
qed

text \<open>A blob that is being committed is closed without ending an operation.\<close>

lemma close_committing:
  assumes inv: "hub_inv c W h" and r: "bt_get (hub_resources h) b = Some r" "rs_committing r"
    and call: "close_resource_with_terminal_locked b k h = (n, h')"
  shows "n = Inr []" "x \<noteq> b \<Longrightarrow> bt_get (hub_resources h') x = bt_get (hub_resources h) x"
proof -
  let ?h1 = "bury b (without_resource b r h)"
  note C = hub_invD(13) [OF inv]
  have "\<not> (op_terminal op = None \<or> ready_read op)"
    if "bt_get (hub_operations h) t = Some op" "op_resource op = Some b" for t op
    using C that r is_sealed_blob [of "rs_value r"] unfolding commits_ok_def ready_read_def reads_process_def by blast
  then have "select_operations (\<lambda>op. op_resource op = Some b \<and> (op_terminal op = None \<or> ready_read op)) ?h1 = []"
    by (auto simp: select_operations_def filter_empty_conv without_resource_def split: option.splits)
  then have eq: "(n, h') = (Inr [], ?h1\<lparr>hub_log := hub_log ?h1 @ drop_events b r\<rparr>)"
    using call unfolding close_resource_unfold [OF r(1)] by (simp add: s_return_def)
  then show "n = Inr []" by simp
  show "bt_get (hub_resources h') x = bt_get (hub_resources h) x" if "x \<noteq> b"
    using eq that by (simp add: without_resource_def)
qed

lemma completed_keeps_resources:
  assumes "terminal_locked t r h = (n, h')" "tr_terminal r = T_Completed" "bt_get (hub_resources h) x = Some v"
  shows "\<exists>v'. bt_get (hub_resources h') x = Some v' \<and> rs_committing v' = rs_committing v"
  using assms
  by (auto simp: terminal_locked_def Let_def update_operation_def update_resource_def
      split: option.splits if_splits)

text \<open>The commit point: under the lock nothing of it can fail any more.\<close>

lemma tracks_settle_commit:
  assumes T: "tracks c W h0 h"
    and op: "\<And>t. operation = Some t \<Longrightarrow> bt_get (hub_operations h) t \<noteq> None"
    and blob: "bt_get (hub_resources h) blob = Some r" "rs_committing r"
    and out: "bt_get (hub_resources h) output \<noteq> None" "output \<noteq> blob"
  shows "\<exists>h'. settle_commit blob output operation h = (Inr (), h') \<and> tracks c W h0 h'"
proof -
  let ?first = "case operation of None \<Rightarrow> s_return []
    | Some token \<Rightarrow> s_bind (terminal_locked token \<lparr>tr_terminal = T_Completed, tr_resource = None\<rparr>)
        (\<lambda>wake. s_return (case wake of None \<Rightarrow> [] | Some w \<Rightarrow> [w]))"
  have "\<exists>ws1 h1 r1. ?first h = (Inr ws1, h1) \<and> tracks c (set ws1 \<union> W) h0 h1
      \<and> bt_get (hub_resources h1) blob = Some r1 \<and> rs_committing r1
      \<and> bt_get (hub_resources h1) output \<noteq> None"
  proof (cases operation)
    case None
    with T blob out show ?thesis by (simp add: s_return_def)
  next
    case (Some t)
    obtain n h1 where l: "terminal_locked t \<lparr>tr_terminal = T_Completed, tr_resource = None\<rparr> h = (Inr n, h1)"
      using terminal_locked_Inr [OF op [OF Some]] by blast
    note K = completed_keeps_resources [OF l]
    have "tracks c (set (case n of None \<Rightarrow> [] | Some w \<Rightarrow> [w]) \<union> W) h0 h1"
      using tracks_terminal_locked [OF T l] by (cases n) simp_all
    with l Some K [OF _ blob(1)] K [of "output"] out(1) blob(2) show ?thesis
      by (auto simp: s_bind_def s_return_def)
  qed
  then obtain ws1 h1 r1 where 1: "?first h = (Inr ws1, h1)" "tracks c (set ws1 \<union> W) h0 h1"
    "bt_get (hub_resources h1) blob = Some r1" "rs_committing r1" "bt_get (hub_resources h1) output \<noteq> None"
    by blast
  obtain n2 h2 where c2: "close_resource_with_terminal_locked blob T_Closed h1 = (n2, h2)"
    by (cases "close_resource_with_terminal_locked blob T_Closed h1")
  note C = close_committing [OF tracks_inv [OF 1(2)] 1(3,4) c2]
  have T2: "tracks c (set ws1 \<union> W) h0 h2" using tracks_close_resource [OF 1(2) c2] C(1) by simp
  have "bt_get (hub_resources h2) output \<noteq> None" using C(2) out(2) 1(5) by simp
  then obtain ws3 h3 where c3: "close_resource_with_terminal_locked output T_Closed h2 = (Inr ws3, h3)"
    using close_resource_Inr by blast
  have "tracks c (set ws3 \<union> (set ws1 \<union> W)) h0 h3" using tracks_close_resource [OF T2 c3] by simp
  then have "tracks c W h0 (notify_all (ws1 @ [] @ ws3) h3)"
    by (intro tracks_notify_all) (simp add: Un_ac)
  with 1(1) c2 c3 C(1) show ?thesis
    by (auto simp: settle_commit_def s_bind_def split: option.splits)
qed

lemma tracks_output_jobs:
  "tracks c W h0 h \<Longrightarrow> tracks c W h0 (snd (admit_output_job c' t job h))"
  "tracks c W h0 h \<Longrightarrow> tracks c W h0 (drop_output_job_lease panicking h)"
  by (simp_all add: admit_output_job_def drop_output_job_lease_def Let_def tracks_remove_operation
      tracks_reports)

section \<open>The encoder\<close>

lemma tracks_bind_capture:
  "tracks c W h0 h \<Longrightarrow> tracks c W h0 (snd (bind_capture_section en t h))"
  by (auto simp: bind_capture_section_def op_flag_defs split: sum.splits intro!: tracks_flag_operation)

lemma length_overwrite:
  "length part \<le> length content - position \<Longrightarrow> length (overwrite_at position part content) = length content"
  by (cases "position \<le> length content") (auto simp: overwrite_at_def)

lemma tracks_overwrite:
  assumes T: "tracks c W h0 h"
  shows "tracks c W h0 (snd (overwrite_section store blob position bytes h))"
proof -
  have "tracks c W h0 (update_resource b (overwrite_slot position part) h)"
    if r: "bt_get (hub_resources h) b = Some r" "rs_value r = Blob d False"
      and part: "length part \<le> length (dq_bytes d) - position" for b r d part
  proof (rule tracks_value [OF T])
    fix r' assume "bt_get (hub_resources h) b = Some r'" "resource_ok c r'"
    with r part length_overwrite [OF part]
    show "(is_sealed (rs_value r') \<longrightarrow> rs_value (overwrite_slot position part r') = rs_value r')
      \<and> rs_identity (overwrite_slot position part r') = rs_identity r'
      \<and> rs_store (overwrite_slot position part r') = rs_store r'
      \<and> rs_shareable (overwrite_slot position part r') = rs_shareable r'
      \<and> rs_reserved (overwrite_slot position part r') = rs_reserved r'
      \<and> rs_committing (overwrite_slot position part r') = rs_committing r'
      \<and> value_evolves (rs_value r') (rs_value (overwrite_slot position part r'))
      \<and> value_ok c (rs_value (overwrite_slot position part r'))
      \<and> blob_length (rs_value (overwrite_slot position part r')) = blob_length (rs_value r')
      \<and> blob_capacity (rs_value (overwrite_slot position part r')) \<le> blob_capacity (rs_value r')"
      by (simp add: overwrite_slot_def resource_ok_def value_ok_def)
  qed
  with T show ?thesis
    by (auto simp: overwrite_section_def Let_def split: option.splits sum.splits ResourceValue.splits)
qed

lemma tracks_publish_encoded:
  assumes T: "tracks c W h0 h" and r: "bt_get (hub_resources h) b = Some r" "rs_reserved r" "is_blob (rs_value r)"
  shows "tracks c W h0 (update_resource b (publish_encoded reserved) h)"
proof (rule tracks_update_resource [OF T r(1)])
  note ok = resource_okD [OF T r(1)]
  obtain d sealed where v: "rs_value r = Blob d sealed" using r(3) by (cases "rs_value r") auto
  show "resource_step c r (publish_encoded reserved r)"
    using ok v by (simp add: resource_step_def resource_ok_def value_ok_def publish_encoded_def seal_slot_def)
  show "resource_evolves r (publish_encoded reserved r)"
    using ok v r(2) not_committing(1) [OF tracks_inv [OF T] r(1)]
    by (auto simp: resource_evolves_def publish_encoded_def seal_slot_def resource_ok_def)
qed

lemma tracks_finish_section:
  assumes T: "tracks c W h0 h"
  shows "tracks c W h0 (snd (finish_section en token operation h))"
proof -
  have pub: "tracks c W h0 (update_resource token (publish_encoded reserved) h)"
    if "bt_get (hub_resources h) token = Some r" "rs_reserved r" "is_blob (rs_value r)" for r reserved
    using tracks_publish_encoded [OF T that] .
  have "tracks c W h0 (snd (terminal op \<lparr>tr_terminal = T_Completed, tr_resource = Some token\<rparr>
      (update_operation op (op_created_resource_update (\<lambda>_. Some token)) h1)))" if "tracks c W h0 h1" for op h1
    by (intro tracks_terminal tracks_flag_operation [OF that]) (auto simp: op_flag_defs)
  with pub T show ?thesis
    by (auto simp: finish_section_def Let_def and_then_def ok_or_def
        split: option.splits sum.splits if_splits)
qed

section \<open>Hashing\<close>

lemma tracks_hash_done:
  "tracks c W h0 h \<Longrightarrow> tracks c W h0 (snd (hash_operation_done t resource h))"
  using tracks_terminal [of c W h0 h t "\<lparr>tr_terminal = T_Completed, tr_resource = resource\<rparr>"]
  by (auto simp: hash_operation_done_def s_bind_def s_return_def split: prod.splits sum.splits)

lemma tracks_hash_create:
  assumes T: "tracks c W h0 h"
  shows "tracks c W h0 (snd (submit_hash_create c store h))"
proof -
  obtain r1 h1 where s: "submit_locked c store None HASH_KIND HASH_RIGHT h = (r1, h1)"
    by (cases "submit_locked c store None HASH_KIND HASH_RIGHT h")
  have T1: "tracks c W h0 h1" using tracks_submit [OF T s] by simp
  obtain r2 h2 where cr: "create_resource_value_locked c store HASH_KIND HASH_RIGHT False (Blake3 []) h1 = (r2, h2)"
    by (cases "create_resource_value_locked c store HASH_KIND HASH_RIGHT False (Blake3 []) h1")
  have T2: "tracks c W h0 h2" using tracks_create [OF T1 _ cr] by simp
  have "tracks c W h0 (update_operation t (\<lambda>op. op\<lparr>op_is_hash_operation := True, op_created_resource := Some x\<rparr>) h2)" for t x
    by (rule tracks_flag_operation [OF T2]) (auto simp: op_flag_defs)
  with s T1 cr T2 show ?thesis
    by (cases r1; cases r2)
      (simp_all add: submit_hash_create_def s_bind_def s_catch_def tracks_remove_operation tracks_hash_done)
qed

lemma tracks_hash_update:
  assumes T: "tracks c W h0 h"
  shows "tracks c W h0 (snd (submit_hash_update c store hash bytes h))"
proof -
  obtain r1 h1 where s: "submit_locked c store (Some hash) HASH_KIND HASH_RIGHT h = (r1, h1)"
    by (cases "submit_locked c store (Some hash) HASH_KIND HASH_RIGHT h")
  have T1: "tracks c W h0 h1" using tracks_submit [OF T s] by simp
  have "tracks c W h0 (update_resource hash (absorb bytes) h1)"
    by (rule tracks_value [OF T1])
      (auto simp: absorb_def resource_ok_def value_ok_def split: ResourceValue.splits)
  then have "tracks c W h0 (update_operation t (op_is_hash_operation_update (\<lambda>_. True))
      (update_resource hash (absorb bytes) h1))" for t
    by (rule tracks_flag_operation) (auto simp: op_flag_defs)
  with T s T1 show ?thesis
    by (cases "hash_state store hash h"; cases r1)
      (simp_all add: submit_hash_update_def s_bind_def s_lift_def tracks_hash_done)
qed

lemma tracks_abandon_hash_operation:
  assumes T: "tracks c W h0 h"
  shows "tracks c W h0 (snd (abandon_hash_operation store t h))"
proof -
  have "tracks c W h0 (snd (s_bind (\<lambda>h. case b of None \<Rightarrow> (Inr [], h)
      | Some b \<Rightarrow> if bt_get (hub_resources h) b \<noteq> None
          then close_resource_with_terminal_locked b T_Closed h else (Inr [], h))
      (\<lambda>ws h. (Inr (), notify_all (t # ws) h)) (remove_operation t h)))" for b
    using tracks_withdraw [OF tracks_remove_operation [OF T, of t] refl,
        where b = b and k = T_Closed and t = t and es = "[]"] by simp
  with T show ?thesis by (auto simp: abandon_hash_operation_def split: option.splits)
qed

lemma tracks_finish_hash:
  assumes T: "tracks c W h0 h"
  shows "tracks c W h0 (snd (finish_hash blake3 store t h))" "tracks c W h0 (snd (abandon_hash store t h))"
  using T tracks_close_section [OF T, of t T_Closed]
  by (auto simp: finish_hash_def abandon_hash_def s_bind_def s_return_def split: sum.splits prod.splits)

end
