(* ===== verification/Hub_Machine.thy ===== *)
theory Hub_Machine
  imports Hub_Process_Sections
begin

text \<open>
  The hub as a concurrent machine. Every critical section of the mutex is one step; the
  methods of the hub run as sequences of such steps, between which the steps of other threads
  may come in any order and number. Hubs share the counter of tokens, so other hubs may advance
  it at any time, and the allocator may answer differently at every step. Two sets accompany
  the hub: the operations that were submitted on a blob and whose transfer has still to be
  queued, and the blobs whose commit has begun.

  Resources are created with a value of their kind. Only \<^verbatim>\<open>create_resource\<close> gives a synthetic value
  whatever kind it is asked for; outside of the tests it is called from \<^verbatim>\<open>dispatch\<close> alone, which
  only gets the requests of the submission adapter, whose kind is the synthetic one.
\<close>

section \<open>Steps\<close>

definition allocating :: "hub_config \<Rightarrow> (nat \<Rightarrow> bool) \<Rightarrow> hub_config" where
  "allocating c answers = c\<lparr>hc_try_reserve := answers\<rparr>"

inductive section_step :: "hub_config \<Rightarrow> hub \<Rightarrow> hub \<Rightarrow> bool" for c where
  other_hub: "hub_next_opaque_token h \<le> n \<Longrightarrow> section_step c h (h\<lparr>hub_next_opaque_token := n\<rparr>)"
| create: "fresh_value c kind rights v \<Longrightarrow>
    section_step c h (snd (create_resource_value c store kind rights shareable v h))"
| publish: "section_step c h (snd (publish_resource e t h))"
| submit: "section_step c h (snd (submit c store resource kind rights h))"
| end_operation: "section_step c h (snd (terminal t r h))"
| close_resource: "section_step c h (snd (close_resource_section t k h))"
| close_hub: "k \<noteq> T_Completed \<Longrightarrow> section_step c h (close_all k h)"
| attach: "section_step c h (snd (attach_created_resource t b h))"
| take_result: "section_step c h (snd (take_terminal t store h))"
| bind_producer: "section_step c h (snd (bind_producer_cancellation store t h))"
| finish_open: "section_step c h (snd (finish_external_open t b h))"
| acquire_open: "section_step c h (snd (acquire_native_open c h))"
| acquire_capture: "section_step c h (snd (acquire_native_capture c h))"
| drop_open: "section_step c h (drop_native_open h)"
| drop_capture: "section_step c h (drop_native_capture h)"
| write_pass: "section_step c h (snd (write_section (allocating c answers) h))"
| read_pass: "section_step c h (snd (drive_blob_read_pass c h))"
| seal_blob: "section_step c h (snd (seal_section store b rights h))"
| write_blob: "section_step c h (snd (blob_write_section (allocating c answers) store b bytes unpublished h))"
| read_blob: "section_step c h (snd (read_chunk_section c store b m False h))"
| release_chunk: "section_step c h (release_chunk_section chunk h)"
| collect_read: "section_step c h (snd (collect_section store t capacity h))"
| abandon_transfer: "section_step c h (snd (abandon_transfer_section store t h))"
| abandon_blob: "section_step c h (snd (abandon_blob_section store t h))"
| suspend: "section_step c h (snd (suspend_section t store h))"
| complete: "section_step c h (snd (complete_section t d h))"
| finish_deferred: "section_step c h (snd (finish_deferred_section t d h))"
| arm_idle: "section_step c h (snd (arm_idle_section store t h))"
| restart_idle: "section_step c h (h\<lparr>hub_log := hub_log h @ [IdleWindowRestarted b]\<rparr>)"
| acquire_clock: "section_step c h (snd (acquire_clock c h))"
| drop_clock: "section_step c h (drop_clock_lease h)"
| launch: "section_step c h (launch_job j h)"
| end_process_job: "section_step c h (h\<lparr>hub_process_jobs := end_task t ok (hub_process_jobs h)\<rparr>)"
| end_io_job: "section_step c h (h\<lparr>hub_process_io_jobs := end_task t ok (hub_process_io_jobs h)\<rparr>)"
| end_output_job: "section_step c h (h\<lparr>hub_output_jobs := end_task t ok (hub_output_jobs h)\<rparr>)"
| take_jobs: "section_step c h (snd (take_output_jobs h))"
| grant_compiler: "section_step c h (snd (grant_compiler_with_cache c store spec deadline cache h))"
| spawn: "section_step c h (snd (submit_compiler_spawn c store grant h))"
| publish_process: "section_step c h (snd (publish_compiler t process session h))"
| release_native: "section_step c h (snd (release_native_section h))"
| end_cleanup: "section_step c h (finish_cleanup process ok h)"
| join_jobs: "section_step c h (snd (join_process_jobs_poll h))"
| abandon_spawn: "section_step c h (snd (abandon_compiler_spawn store t h))"
| close_process: "section_step c h (snd (close_compiler store process h))"
| submit_wait: "section_step c h (snd (submit_compiler_wait c store process h))"
| submit_close: "section_step c h (snd (submit_compiler_close c store process h))"
| drop_scalar: "section_step c h (drop_scalar_producer t h)"
| report_exit: "section_step c h (report_exit t result h)"
| collect_wait: "section_step c h (snd (collect_compiler_wait store t h))"
| abandon_scalar: "section_step c h (snd (abandon_compiler_scalar store t closing h))"
| abandon_process: "section_step c h (snd (abandon_compiler_resource store t grant h))"
| begin_output: "section_step c h (snd (begin_compiler_output c store process h))"
| submit_output: "section_step c h (snd (submit_compiler_output c store process h))"
| drop_output: "section_step c h (drop_output_section lease h)"
| receive: "section_step c h (snd (receive_event lease answer h))"
| collect_event: "section_step c h (snd (collect_output_section lease h))"
| publish_event: "section_step c h (snd (publish_section lease event h))"
| collect_output: "section_step c h (snd (collect_output_wire_section store t capacity h))"
| abandon_output: "section_step c h (snd (abandon_output_section store t h))"
| cancel_output: "section_step c h (snd (cancel_output_section store t h))"
| admit_output_job: "section_step c h (snd (admit_output_job c t job h))"
| drop_output_job: "section_step c h (drop_output_job_lease panicking h)"
| bind_capture: "section_step c h (snd (bind_capture_section en t h))"
| overwrite: "section_step c h (snd (overwrite_section store blob position bytes h))"
| finish_encoder: "section_step c h (snd (finish_section en token operation h))"
| hash_create: "section_step c h (snd (submit_hash_create c store h))"
| hash_update: "section_step c h (snd (submit_hash_update c store hash bytes h))"
| abandon_hash_operation: "section_step c h (snd (abandon_hash_operation store t h))"
| finish_hash: "section_step c h (snd (finish_hash blake3 store t h))"
| abandon_hash: "section_step c h (snd (abandon_hash store t h))"

record hub_world =
  wd_hub :: hub
  wd_submitted :: "token set"
  wd_committing :: "token set"

text \<open>
  The steps of all threads, among which only the commits of the blobs in \<open>readers\<close> take content
  from them.
\<close>

inductive hub_step_of :: "hub_config \<Rightarrow> token set \<Rightarrow> hub_world \<Rightarrow> hub_world \<Rightarrow> bool" for c readers where
  run_section: "section_step c (wd_hub w) h \<Longrightarrow> hub_step_of c readers w (w\<lparr>wd_hub := h\<rparr>)"
| submit_transfer: "submit c store (Some b) BLOB_RESOURCE_KIND rights (wd_hub w) = (Inr t, h) \<Longrightarrow>
    hub_step_of c readers w (w\<lparr>wd_hub := h, wd_submitted := insert t (wd_submitted w)\<rparr>)"
| queue_write: "t \<in> wd_submitted w \<Longrightarrow> length bytes \<le> maximum_chunk_bytes (hc_blob_limits c) \<Longrightarrow>
    hub_step_of c readers w (w\<lparr>wd_hub := snd (queue_write_section c t (length bytes) bytes (wd_hub w))\<rparr>)"
| queue_read: "t \<in> wd_submitted w \<Longrightarrow> 0 < m \<Longrightarrow> m \<le> maximum_chunk_bytes (hc_blob_limits c) \<Longrightarrow>
    hub_step_of c readers w (w\<lparr>wd_hub := snd (queue_read_section c t m (wd_hub w))\<rparr>)"
| begin_commit: "begin_commit_section store b (wd_hub w) = (Inr (), h) \<Longrightarrow>
    hub_step_of c readers w (w\<lparr>wd_hub := h, wd_committing := insert b (wd_committing w)\<rparr>)"
| settle: "b \<in> wd_committing w \<Longrightarrow> check_replace store b outp operation (wd_hub w) = Inr destination \<Longrightarrow>
    hub_step_of c readers w (w\<lparr>wd_hub := snd (settle_commit b outp operation (wd_hub w))\<rparr>)"
| read_commit: "b \<in> readers \<Longrightarrow>
    hub_step_of c readers w (w\<lparr>wd_hub := snd (read_chunk_section c store b m True (wd_hub w))\<rparr>)"

abbreviation hub_step :: "hub_config \<Rightarrow> hub_world \<Rightarrow> hub_world \<Rightarrow> bool" where
  "hub_step c \<equiv> hub_step_of c UNIV"

text \<open>The steps of the threads other than the one that commits \<open>b\<close>.\<close>

abbreviation other_step :: "hub_config \<Rightarrow> token \<Rightarrow> hub_world \<Rightarrow> hub_world \<Rightarrow> bool" where
  "other_step c b \<equiv> hub_step_of c (- {b})"

definition hub_start :: "hub_config \<Rightarrow> hub_world \<Rightarrow> bool" where
  "hub_start c w \<longleftrightarrow> limits_ok c \<and> wd_submitted w = {} \<and> wd_committing w = {}
     \<and> (\<exists>n. wd_hub w = hub_new n)"

section \<open>The invariant of the machine\<close>

lemma value_ok_allocating [simp]: "value_ok (allocating c a) v = value_ok c v"
  by (cases v) (simp_all add: value_ok_def allocating_def)

lemma tracks_allocating [simp]: "tracks (allocating c a) W h0 h = tracks c W h0 h"
proof -
  have "resource_ok (allocating c a) r = resource_ok c r" "op_ok (allocating c a) op = op_ok c op" for r op
    by (simp_all add: resource_ok_def op_ok_def, simp_all add: allocating_def)
  then show ?thesis
    by (simp add: tracks_def hub_inv_def quota_ok_def resources_ok_def ops_ok_def ledger_ok_def
        transfer_ok_def) (simp add: allocating_def)
qed

lemma limits_allocating [simp]: "limits_ok (allocating c a) = limits_ok c"
  by (simp add: limits_ok_def allocating_def)

lemma tracks_write_pass:
  assumes "limits_ok c" "tracks c W h0 h"
  shows "tracks c W h0 (snd (write_section (allocating c a) h))"
  using tracked_write.pass_tracks [of "allocating c a" W h0 h] assms by (auto simp: write_section_def)

lemma tracks_read_pass:
  assumes "limits_ok c" "tracks c W h0 h"
  shows "tracks c W h0 (snd (drive_blob_read_pass c h))"
  using tracked_read.pass_tracks [OF assms] by (auto simp: drive_blob_read_pass_def)

lemma tracks_write_any:
  assumes "limits_ok c" "tracks c W h0 h"
  shows "tracks c W h0 (snd (blob_write_section (allocating c a) store b bytes unpublished h))"
  using tracks_blob_write_section [of "allocating c a" W h0 h] assms by simp

lemma section_tracks:
  assumes "section_step c h h'" "limits_ok c" "hub_inv c {} h"
  shows "tracks c {} h h'"
proof -
  have T: "tracks c {} h h" using assms(3) by (rule tracks_refl)
  note L = assms(2) T
  show ?thesis
    using assms(1)
  proof cases
    case (create kind rights v store shareable)
    then show ?thesis
      using tracks_create [OF T] unfolding create_resource_value_def by (metis surjective_pairing)
  next
    case (submit store resource kind rights)
    then show ?thesis
      using tracks_submit [OF T] unfolding submit_def by (metis surjective_pairing)
  next
    case (begin_output store process)
    then show ?thesis
      using tracks_begin_output [OF L] unfolding begin_compiler_output_def by (metis surjective_pairing)
  next
    case (close_hub k)
    then show ?thesis using tracks_close_locked [OF T] by (simp add: close_all_def)
  qed (use T L in \<open>auto intro: tracks_counter_grows tracks_publish tracks_terminal tracks_close_section
      tracks_attach_created tracks_take_terminal tracks_bind_producer tracks_finish_external_open
      tracks_natives tracks_write_pass tracks_read_pass tracks_seal_section tracks_write_any
      tracks_read_chunk_section tracks_release_chunk tracks_collect_section tracks_abandon_transfer
      tracks_abandon_blob tracks_suspend_section tracks_complete_section tracks_finish_deferred
      tracks_arm_idle tracks_log tracks_clocks tracks_reports tracks_take_output_jobs
      tracks_grant_compiler tracks_submit_spawn tracks_publish_compiler tracks_release_native tracks_jobs
      tracks_abandon_spawn tracks_close_compiler tracks_submit_wait tracks_submit_close
      tracks_drop_scalar tracks_report_exit tracks_collect_wait tracks_abandon_scalar
      tracks_abandon_compiler_resource tracks_submit_output tracks_drop_output tracks_receive_event
      tracks_collect_output tracks_publish_section tracks_collect_output_wire tracks_abandon_output
      tracks_cancel_output tracks_output_jobs tracks_bind_capture tracks_overwrite tracks_finish_section
      tracks_hash_create tracks_hash_update tracks_abandon_hash_operation tracks_finish_hash\<close>)
qed

definition world_inv :: "hub_config \<Rightarrow> hub_world \<Rightarrow> bool" where
  "world_inv c w \<longleftrightarrow> limits_ok c \<and> hub_inv c {} (wd_hub w)
     \<and> (\<forall>t\<in>wd_submitted w. t \<le> hub_next_opaque_token (wd_hub w) \<and> targets_blob (wd_hub w) t)
     \<and> (\<forall>b\<in>wd_committing w. b \<le> hub_next_opaque_token (wd_hub w)
          \<and> (\<forall>r. bt_get (hub_resources (wd_hub w)) b = Some r \<longrightarrow> rs_committing r))"

text \<open>What the two sets record stays true, whatever runs in between.\<close>

lemma world_inv_evolves:
  assumes inv: "world_inv c w" and T: "tracking s c {} (wd_hub w) h"
  shows "world_inv c (w\<lparr>wd_hub := h\<rparr>)"
proof -
  have ev: "changes s (wd_hub w) h" and tab: "tables_ok (wd_hub w)"
    using T inv by (simp_all add: tracks_def world_inv_def hub_inv_def)
  have le: "hub_next_opaque_token (wd_hub w) \<le> hub_next_opaque_token h" using evolvesD(1) [OF ev] .
  have "t \<le> hub_next_opaque_token h \<and> targets_blob h t" if "t \<in> wd_submitted w" for t
    using inv that le targets_blob_evolves [OF _ tab _ ev] by (auto simp: world_inv_def)
  moreover have "b \<le> hub_next_opaque_token h \<and> (\<forall>r. bt_get (hub_resources h) b = Some r \<longrightarrow> rs_committing r)"
    if b: "b \<in> wd_committing w" for b
  proof -
    have b': "b \<le> hub_next_opaque_token (wd_hub w)"
      "\<And>r. bt_get (hub_resources (wd_hub w)) b = Some r \<Longrightarrow> rs_committing r"
      using inv b by (auto simp: world_inv_def)
    have "rs_committing r'" if "bt_get (hub_resources h) b = Some r'" for r'
      using evolvesD(5) [OF ev that b'(1)] b'(2) by (auto simp: resource_evolves_def)
    with b'(1) le show ?thesis by simp
  qed
  ultimately show ?thesis using T inv by (simp add: world_inv_def tracks_def)
qed

lemma check_replace_live:
  assumes inv: "hub_inv c W h" and ok: "check_replace store b outp operation h = Inr destination"
  shows "bt_get (hub_resources h) b \<noteq> None" "bt_get (hub_resources h) outp \<noteq> None" "outp \<noteq> b"
    "operation = Some t \<Longrightarrow> bt_get (hub_operations h) t \<noteq> None"
proof -
  show "bt_get (hub_resources h) b \<noteq> None" "bt_get (hub_resources h) outp \<noteq> None" "outp \<noteq> b"
    using ok by (auto simp: check_replace_def check_commit_resource_def and_then_def ok_or_def
        validate_resource_def validate_resource_owner_def BLOB_RESOURCE_KIND_def OUTPUT_RESOURCE_KIND_def
        split: if_splits option.splits sum.splits)
  show "bt_get (hub_operations h) t \<noteq> None" if "operation = Some t"
    using ok that by (auto simp: check_replace_def and_then_def ok_or_def
        split: if_splits option.splits sum.splits)
qed

text \<open>A step is strict for all blobs, or is the read of a commit.\<close>

lemma hub_step_cases:
  assumes step: "hub_step_of c K w w'" and inv: "world_inv c w"
  shows "(tracks c {} (wd_hub w) (wd_hub w')
       \<or> (\<exists>b store m. b \<in> K \<and> follows c {} (wd_hub w) (wd_hub w')
            \<and> wd_hub w' = snd (read_chunk_section c store b m True (wd_hub w))))
     \<and> world_inv c w'"
proof -
  have L: "limits_ok c" and H: "hub_inv c {} (wd_hub w)" using inv by (simp_all add: world_inv_def)
  note T = tracks_refl [OF H]
  show ?thesis
    using step
  proof cases
    case (run_section h)
    with section_tracks [OF run_section(2) L H] world_inv_evolves [OF inv] show ?thesis by simp
  next
    case (submit_transfer store b rights t h)
    note S = tracks_submit [OF T submit_transfer(2) [unfolded submit_def]]
    have T1: "tracks c {} (wd_hub w) h" using S by simp
    obtain slot where "bt_get (hub_resources (wd_hub w)) b = Some slot" "is_blob (rs_value slot)"
      using borrowed_blob [OF H, of store b rights] S by blast
    then have "targets_blob h t" using S by (simp add: targets_blob_def)
    with world_inv_evolves [OF inv T1] S T1 submit_transfer(1) show ?thesis
      by (simp add: world_inv_def)
  next
    case (queue_write t bytes)
    have "targets_blob (wd_hub w) t" using inv queue_write(2) by (simp add: world_inv_def)
    from tracks_queue_write [OF L T this refl queue_write(3)] world_inv_evolves [OF inv] queue_write(1)
    show ?thesis by simp
  next
    case (queue_read t m)
    have "targets_blob (wd_hub w) t" using inv queue_read(2) by (simp add: world_inv_def)
    from tracks_queue_read [OF T this queue_read(3,4)] world_inv_evolves [OF inv] queue_read(1)
    show ?thesis by simp
  next
    case (begin_commit store b h)
    have T1: "tracks c {} (wd_hub w) h" using tracks_begin_commit [OF T, of store b] begin_commit(2) by simp
    have "\<exists>r. bt_get (hub_resources (wd_hub w)) b = Some r
        \<and> h = update_resource b (rs_committing_update (\<lambda>_. True)) (wd_hub w)"
      using begin_commit(2) by (auto simp: begin_commit_section_def split: if_splits option.splits sum.splits)
    then obtain r where r: "bt_get (hub_resources (wd_hub w)) b = Some r"
      "h = update_resource b (rs_committing_update (\<lambda>_. True)) (wd_hub w)" by blast
    have "b \<le> hub_next_opaque_token (wd_hub w)"
      using H r(1) by (auto simp: hub_inv_def tables_ok_def)
    with r have "b \<le> hub_next_opaque_token h \<and> (\<forall>r. bt_get (hub_resources h) b = Some r \<longrightarrow> rs_committing r)"
      by (auto simp: update_resource_def)
    with world_inv_evolves [OF inv T1] T1 begin_commit(1) show ?thesis by (simp add: world_inv_def)
  next
    case (settle b store outp operation destination)
    note C = check_replace_live [OF H settle(3)]
    obtain r where r: "bt_get (hub_resources (wd_hub w)) b = Some r" using C(1) by blast
    then have "rs_committing r" using inv settle(2) by (simp add: world_inv_def)
    then have "\<exists>h'. settle_commit b outp operation (wd_hub w) = (Inr (), h') \<and> tracks c {} (wd_hub w) h'"
      using C r by (intro tracks_settle_commit [OF T]) auto
    with world_inv_evolves [OF inv] settle(1) show ?thesis by auto
  next
    case (read_commit b store m)
    have "follows c {} (wd_hub w) (snd (read_chunk_section c store b m True (wd_hub w)))"
      by (rule tracks_read_chunk_section [OF L tracks_refl [OF H]]) simp
    with world_inv_evolves [OF inv this] read_commit show ?thesis by auto
  qed
qed

lemma hub_step_tracks:
  assumes "hub_step_of c K w w'" "world_inv c w"
  shows "follows c {} (wd_hub w) (wd_hub w') \<and> world_inv c w'"
  using hub_step_cases [OF assms] tracks_follows by blast

text \<open>Only its own commit changes a blob that is being committed.\<close>

definition spares :: "token \<Rightarrow> hub \<Rightarrow> hub \<Rightarrow> bool" where
  "spares b h h' \<longleftrightarrow>
     (\<forall>r r'. bt_get (hub_resources h) b = Some r \<longrightarrow> rs_committing r \<longrightarrow>
        bt_get (hub_resources h') b = Some r' \<longrightarrow> rs_committing r' \<and> rs_value r' = rs_value r)"

lemma follows_kept:
  assumes "tracking s c W h h'" "bt_get (hub_resources h') b = Some r'" "b \<le> hub_next_opaque_token h"
  obtains r where "bt_get (hub_resources h) b = Some r" "resource_change s r r'"
  using evolvesD(5) [OF _ assms(2,3)] assms(1) unfolding tracks_def by blast

lemma follows_token:
  assumes "tracking s c W h h'" "hub_inv c W' h" "bt_get (hub_resources h) b = Some r"
  shows "b \<le> hub_next_opaque_token h" "b \<le> hub_next_opaque_token h'"
proof -
  show "b \<le> hub_next_opaque_token h" using assms(2,3) by (auto simp: hub_inv_def tables_ok_def)
  then show "b \<le> hub_next_opaque_token h'" using assms(1) evolvesD(1) by (force simp: tracks_def)
qed

lemma spares_trans:
  assumes "hub_inv c W' h1" "tracking s c W h1 h2" "spares b h1 h2" "tracking s' c V h2 h3" "spares b h2 h3"
  shows "spares b h1 h3"
  unfolding spares_def
proof (intro allI impI)
  fix r r' assume r: "bt_get (hub_resources h1) b = Some r" "rs_committing r" "bt_get (hub_resources h3) b = Some r'"
  obtain r2 where r2: "bt_get (hub_resources h2) b = Some r2"
    using follows_kept [OF assms(4) r(3) follows_token(2) [OF assms(2,1) r(1)]] by blast
  then have "rs_committing r2 \<and> rs_value r2 = rs_value r" using assms(3) r unfolding spares_def by blast
  moreover from this r2 have "rs_committing r' \<and> rs_value r' = rs_value r2"
    using assms(5) r unfolding spares_def by blast
  ultimately show "rs_committing r' \<and> rs_value r' = rs_value r" by simp
qed

lemma tracks_spares:
  assumes "tracks c W h h'" "hub_inv c W' h"
  shows "spares b h h'"
  unfolding spares_def
proof (intro allI impI)
  fix r r' assume r: "bt_get (hub_resources h) b = Some r" "rs_committing r" "bt_get (hub_resources h') b = Some r'"
  obtain r0 where "bt_get (hub_resources h) b = Some r0" "resource_evolves r0 r'"
    using follows_kept [OF assms(1) r(3) follows_token(1) [OF assms(1,2) r(1)]] .
  with r show "rs_committing r' \<and> rs_value r' = rs_value r" by (simp add: resource_change_def)
qed

lemma read_chunk_spares:
  "x \<noteq> b \<Longrightarrow> bt_get (hub_resources (snd (read_chunk_section c store b m committing h))) x = bt_get (hub_resources h) x"
  by (auto simp: read_chunk_section_def Let_def update_resource_def
      split: option.splits sum.splits ResourceValue.splits if_splits)

lemma other_step_spares:
  assumes "other_step c b w w'" "world_inv c w"
  shows "spares b (wd_hub w) (wd_hub w')"
  using hub_step_cases [OF assms] tracks_spares [of c "{}" "wd_hub w" "wd_hub w'" "{}" b] assms(2)
  by (auto simp: world_inv_def spares_def read_chunk_spares)

interpretation hub_machine: transition_system "hub_start c" "hub_step c" "world_inv c" for c
proof
  show "world_inv c w" if "hub_start c w" for w
    using that hub_inv_new by (auto simp: hub_start_def world_inv_def)
  show "world_inv c w'" if "world_inv c w" "hub_step c w w'" for w w'
    using hub_step_tracks [OF that(2,1)] by simp
qed

text \<open>Runs of the machine.\<close>

abbreviation hub_runs :: "hub_config \<Rightarrow> hub_world \<Rightarrow> hub_world \<Rightarrow> bool" where
  "hub_runs c \<equiv> (hub_step c)\<^sup>*\<^sup>*"

lemma hub_runs_tracks:
  assumes "hub_runs c w w'" "world_inv c w"
  shows "follows c {} (wd_hub w) (wd_hub w') \<and> world_inv c w'"
  using assms
proof (induction rule: rtranclp_induct)
  case base
  then show ?case by (simp add: world_inv_def tracks_refl)
next
  case (step v w')
  from step.IH [OF step.prems] hub_step_tracks [OF step.hyps(2)] show ?case
    by (auto simp: tracks_def intro: changes_trans)
qed

text \<open>Runs of the threads other than the one that commits a blob.\<close>

abbreviation other_runs :: "hub_config \<Rightarrow> token \<Rightarrow> hub_world \<Rightarrow> hub_world \<Rightarrow> bool" where
  "other_runs c b \<equiv> (other_step c b)\<^sup>*\<^sup>*"

lemma hub_step_mono: "hub_step_of c K w w' \<Longrightarrow> K \<subseteq> K' \<Longrightarrow> hub_step_of c K' w w'"
  by (induction rule: hub_step_of.induct) (auto intro: hub_step_of.intros)

lemma other_runs_runs: "other_runs c b w w' \<Longrightarrow> hub_runs c w w'"
  by (erule rtranclp_mono [THEN predicate2D, rotated]) (blast intro: hub_step_mono)

lemma other_runs_spares:
  assumes "other_runs c b w w'" "world_inv c w"
  shows "spares b (wd_hub w) (wd_hub w')"
  using assms(1)
proof (induction rule: rtranclp_induct)
  case base
  then show ?case by (simp add: spares_def)
next
  case (step v w')
  have V: "follows c {} (wd_hub w) (wd_hub v) \<and> world_inv c v"
    using hub_runs_tracks [OF other_runs_runs [OF step.hyps(1)] assms(2)] .
  have S: "spares b (wd_hub v) (wd_hub w')" "follows c {} (wd_hub v) (wd_hub w')"
    using other_step_spares [OF step.hyps(2)] hub_step_tracks [OF step.hyps(2)] V by simp_all
  have "hub_inv c {} (wd_hub w)" using assms(2) by (simp add: world_inv_def)
  from spares_trans [OF this conjunct1 [OF V] step.IH S(2,1)] show ?case .
qed

section \<open>Methods are runs\<close>

text \<open>Runs in which no commit takes content from its blob; all methods but the commit are such runs.\<close>

abbreviation calm_runs :: "hub_config \<Rightarrow> hub_world \<Rightarrow> hub_world \<Rightarrow> bool" where
  "calm_runs c \<equiv> (hub_step_of c {})\<^sup>*\<^sup>*"

lemma runs_mono:
  assumes "(hub_step_of c K)\<^sup>*\<^sup>* w w'" "K \<subseteq> K'"
  shows "(hub_step_of c K')\<^sup>*\<^sup>* w w'"
  using assms(1) by (rule rtranclp_mono [THEN predicate2D, rotated]) (use assms(2) in \<open>auto intro: hub_step_mono\<close>)

named_theorems run_rules \<open>what a method does is a run of the machine\<close>

definition is_run :: "hub_config \<Rightarrow> (hub \<Rightarrow> hub) \<Rightarrow> bool" where
  "is_run c g \<longleftrightarrow> (\<forall>w. \<exists>w'. calm_runs c w w' \<and> wd_hub w' = g (wd_hub w))"

abbreviation method_run :: "hub_config \<Rightarrow> ('a hub_result) \<Rightarrow> bool" where
  "method_run c m \<equiv> is_run c (\<lambda>h. snd (m h))"

lemma is_runI: "(\<And>w. \<exists>w'. calm_runs c w w' \<and> wd_hub w' = g (wd_hub w)) \<Longrightarrow> is_run c g"
  by (simp add: is_run_def)

lemma run_section_step:
  assumes "\<And>h. section_step c h (g h)"
  shows "is_run c g"
proof (rule is_runI)
  fix w
  have "hub_step_of c {} w (w\<lparr>wd_hub := g (wd_hub w)\<rparr>)" by (rule hub_step_of.run_section) (rule assms)
  then show "\<exists>w'. calm_runs c w w' \<and> wd_hub w' = g (wd_hub w)" by (intro exI [of _ "w\<lparr>wd_hub := g (wd_hub w)\<rparr>"]) auto
qed

lemma run_id [run_rules]: "is_run c (\<lambda>h. h)"
  by (auto simp: is_run_def)

lemma run_then:
  assumes "is_run c g" "is_run c g'"
  shows "is_run c (\<lambda>h. g' (g h))"
proof (rule is_runI)
  fix w
  obtain w1 where 1: "calm_runs c w w1" "wd_hub w1 = g (wd_hub w)" using assms(1) by (auto simp: is_run_def)
  obtain w2 where "calm_runs c w1 w2" "wd_hub w2 = g' (wd_hub w1)" using assms(2) unfolding is_run_def by blast
  with 1 show "\<exists>w'. calm_runs c w w' \<and> wd_hub w' = g' (g (wd_hub w))"
    by (auto intro: rtranclp_trans)
qed

text \<open>A case distinction on the state, after which one of several runs is taken.\<close>

lemma run_choose:
  assumes "\<And>h. \<exists>g'. is_run c g' \<and> g h = g' h"
  shows "is_run c g"
  using assms by (metis is_run_def)

lemma run_bind [run_rules]:
  assumes "method_run c m" "\<And>x. method_run c (f x)"
  shows "method_run c (s_bind m f)"
proof (rule is_runI)
  fix w
  obtain w1 where 1: "calm_runs c w w1" "wd_hub w1 = snd (m (wd_hub w))" using assms(1) by (auto simp: is_run_def)
  show "\<exists>w'. calm_runs c w w' \<and> wd_hub w' = snd (s_bind m f (wd_hub w))"
  proof (cases "fst (m (wd_hub w))")
    case (Inl e)
    with 1 show ?thesis by (cases "m (wd_hub w)") (auto simp: s_bind_def)
  next
    case (Inr x)
    obtain w2 where "calm_runs c w1 w2" "wd_hub w2 = snd (f x (wd_hub w1))"
      using assms(2) unfolding is_run_def by blast
    with 1 Inr show ?thesis
      by (cases "m (wd_hub w)") (auto simp: s_bind_def intro: rtranclp_trans)
  qed
qed

lemma run_catch [run_rules]:
  assumes "method_run c m" "\<And>e. method_run c (g e)" "\<And>x. method_run c (f x)"
  shows "method_run c (s_catch m g f)"
proof (rule is_runI)
  fix w
  obtain w1 where 1: "calm_runs c w w1" "wd_hub w1 = snd (m (wd_hub w))" using assms(1) by (auto simp: is_run_def)
  let ?k = "case fst (m (wd_hub w)) of Inl e \<Rightarrow> g e | Inr x \<Rightarrow> f x"
  have "method_run c ?k" using assms(2,3) by (simp split: sum.split)
  then obtain w2 where "calm_runs c w1 w2" "wd_hub w2 = snd (?k (wd_hub w1))" unfolding is_run_def by blast
  with 1 show "\<exists>w'. calm_runs c w w' \<and> wd_hub w' = snd (s_catch m g f (wd_hub w))"
    by (cases "m (wd_hub w)") (auto simp: s_catch_def intro: rtranclp_trans split: sum.splits)
qed

lemma run_return [run_rules]: "method_run c (s_return x)"
  by (simp add: s_return_def run_id)

lemma run_lift [run_rules]: "method_run c (s_lift r)"
  by (simp add: s_lift_def run_id)

lemma run_ignore: "method_run c m \<Longrightarrow> is_run c (s_ignore m)"
  unfolding s_ignore_def .

lemma run_if [run_rules]: "is_run c g \<Longrightarrow> is_run c g' \<Longrightarrow> is_run c (\<lambda>h. if b then g h else g' h)"
  by (cases b) simp_all

lemma run_if_method [run_rules]:
  "method_run c m \<Longrightarrow> method_run c m' \<Longrightarrow> method_run c (if b then m else m')"
  by simp

lemma run_case_option [run_rules]:
  "method_run c m \<Longrightarrow> (\<And>x. method_run c (f x)) \<Longrightarrow> method_run c (case x of None \<Rightarrow> m | Some y \<Rightarrow> f y)"
  by (simp split: option.split)

lemma allocating_same [simp]: "allocating c (hc_try_reserve c) = c"
  by (simp add: allocating_def)

lemma run_passes [run_rules]:
  "method_run c (write_section c)" "method_run c (drive_blob_read_pass c)"
  "method_run c (blob_write_section c store b bytes unpublished)"
  using section_step.write_pass [of c _ "hc_try_reserve c"] section_step.read_pass
    section_step.write_blob [of c _ "hc_try_reserve c"]
  by (simp_all add: run_section_step)

lemma run_drive_reads [run_rules]: "method_run c (drive_blob_reads c)"
  unfolding drive_blob_reads_def by (intro run_rules)

lemma run_drive_write_pass [run_rules]: "method_run c (drive_blob_write_pass c)"
  unfolding drive_blob_write_pass_def by (intro run_rules)

lemma run_drive_writes [run_rules]: "method_run c (drive_blob_writes c)"
proof (rule is_runI)
  fix w
  have "\<exists>w'. calm_runs c w w' \<and> wd_hub w' = snd (drive_blob_writes c (wd_hub w))" if "wd_hub w = h" for h w
    using that
  proof (induction c h arbitrary: w rule: drive_blob_writes.induct)
    case (1 c h)
    obtain w1 where w1: "calm_runs c w w1" "wd_hub w1 = snd (drive_blob_write_pass c h)"
      using run_drive_write_pass 1(2) by (auto simp: is_run_def)
    obtain r h1 where p: "drive_blob_write_pass c h = (r, h1)" by (cases "drive_blob_write_pass c h")
    show ?case
    proof (cases "r = Inr True")
      case True
      with 1(1) [OF p [symmetric], of True w1] w1 p obtain w2
        where "calm_runs c w1 w2" "wd_hub w2 = snd (drive_blob_writes c h1)" by auto
      moreover have "drive_blob_writes c h = drive_blob_writes c h1"
        using p True by (subst drive_blob_writes.simps) simp
      ultimately show ?thesis using w1(1) 1(2) by (auto intro: rtranclp_trans)
    next
      case False
      then have "snd (drive_blob_writes c h) = h1"
        using p by (subst drive_blob_writes.simps) (auto split: sum.splits)
      with w1 p 1(2) show ?thesis by auto
    qed
  qed
  then show "\<exists>w'. calm_runs c w w' \<and> wd_hub w' = snd (drive_blob_writes c (wd_hub w))" by blast
qed

end
