(* ===== verification/Hub_Runs.thy ===== *)
theory Hub_Runs
  imports Hub_Machine
begin

text \<open>
  The methods of the hub as runs of the machine: whatever a guest call, a host call or a job of
  the runtime does to the hub is a sequence of locked sections, so what holds of every
  interleaving of sections holds of the methods as well.
\<close>

section \<open>Sections as methods\<close>

lemma run_sections [run_rules]:
  "method_run c (publish_resource e t)" "method_run c (submit c store resource kind rights)"
  "method_run c (terminal t r)" "method_run c (close_resource_section t k)"
  "method_run c (attach_created_resource t b)" "method_run c (take_terminal t store)"
  "method_run c (bind_producer_cancellation store t)" "method_run c (seal_section store b required)"
  "method_run c (read_chunk_section c store b m False)" "method_run c (collect_section store t capacity)"
  "method_run c (abandon_transfer_section store t)" "method_run c (abandon_blob_section store t)"
  "method_run c (suspend_section t store)" "method_run c (complete_section t d)"
  "method_run c (finish_deferred_section t d)" "method_run c (arm_idle_section store t)"
  "method_run c (acquire_clock c)" "method_run c (release_native_section)"
  "method_run c (publish_compiler t process session)" "method_run c (collect_output_wire_section store t capacity)"
  "method_run c (abandon_output_section store t)" "method_run c (cancel_output_section store t)"
  "method_run c (admit_output_job c t job)" "method_run c (bind_capture_section en t)"
  "method_run c (overwrite_section store blob position bytes)" "method_run c (finish_section en b operation)"
  "method_run c (publish_section lease event)"
  by (rule run_section_step, rule section_step.intros)+

lemma run_state_sections [run_rules]:
  "is_run c (release_chunk_section chunk)" "is_run c drop_clock_lease" "is_run c (launch_job j)"
  "is_run c (drop_output_section lease)" "is_run c (finish_cleanup process ok)"
  "is_run c (drop_output_job_lease panicking)" "is_run c (drop_scalar_producer t)" "is_run c (report_exit t result)"
  by (rule run_section_step, rule section_step.intros)+

lemma run_create [run_rules]:
  "fresh_value c kind rights v \<Longrightarrow> method_run c (create_resource_value c store kind rights shareable v)"
  by (rule run_section_step) (rule section_step.create)

text \<open>Reading the state.\<close>

lemma run_pure: "(\<And>h. snd (m h) = h) \<Longrightarrow> method_run c m"
  by (simp add: run_id)

lemma run_reads [run_rules]:
  "method_run c (validate_close store b)" "method_run c (take_owner t store)" "method_run c (granted_url store b)"
  "method_run c (check_output_operation store b outp operation)" "method_run c (exact_output_path store b)"
  by (simp_all add: run_id validate_close_def take_owner_def granted_url_def check_output_operation_def
      exact_output_path_def)

text \<open>A result followed by a change of the state.\<close>

lemma run_after [run_rules]: "is_run c g \<Longrightarrow> method_run c (\<lambda>h. (r h, g h))"
  by simp

lemma run_error_after [run_rules]:
  "(\<And>r. is_run c (g r)) \<Longrightarrow> is_run c (\<lambda>h. case x of None \<Rightarrow> h | Some r \<Rightarrow> g r h)"
  by (cases x) (simp_all add: run_id)

section \<open>Blob methods\<close>

lemma run_close_resource [run_rules]:
  "method_run c (close_resource_with_terminal c t k)" "method_run c (close_resource c t)"
  "method_run c (revoke_external_resource c t k)"
  unfolding close_resource_with_terminal_def close_resource_def revoke_external_resource_def
  by (intro run_rules)+

lemma run_ignores [run_rules]:
  "method_run c m \<Longrightarrow> is_run c g \<Longrightarrow> is_run c (\<lambda>h. s_ignore m (g h))"
  by (rule run_then [OF _ run_ignore])

lemma run_drop_chunk [run_rules]: "is_run c (drop_native_blob_chunk c chunk)"
  unfolding drop_native_blob_chunk_def by (intro run_rules)

lemma run_create_blob [run_rules]: "method_run c (create_blob c store)"
  unfolding create_blob_def by (intro run_rules) simp_all

lemma run_seal_blob [run_rules]:
  "method_run c (seal_blob_checked c store b required)" "method_run c (seal_blob c store b)"
  unfolding seal_blob_checked_def seal_blob_def by (intro run_rules)+

lemma run_blob_write [run_rules]:
  "method_run c (blob_write_inner c store b bytes unpublished)" "method_run c (blob_write c store b bytes)"
  unfolding blob_write_inner_def blob_write_def by (intro run_rules)+

lemma run_read_chunk [run_rules]: "method_run c (read_blob_chunk c store b m False)"
  unfolding read_blob_chunk_def by (intro run_rules)

text \<open>A transfer is queued on the operation that was submitted for it.\<close>

lemma run_submit_transfer:
  assumes "\<And>w t. t \<in> wd_submitted w \<Longrightarrow> hub_step_of c {} w (w\<lparr>wd_hub := snd (q t (wd_hub w))\<rparr>)"
    and "\<And>t. method_run c (f t)"
  shows "method_run c (s_bind (submit c store (Some b) BLOB_RESOURCE_KIND rights) (\<lambda>t.
           s_bind (q t) (\<lambda>_. f t)))"
proof (rule is_runI)
  fix w :: hub_world
  obtain r h where s: "submit c store (Some b) BLOB_RESOURCE_KIND rights (wd_hub w) = (r, h)"
    by (cases "submit c store (Some b) BLOB_RESOURCE_KIND rights (wd_hub w)")
  show "\<exists>w'. calm_runs c w w' \<and> wd_hub w' = snd (s_bind (submit c store (Some b) BLOB_RESOURCE_KIND rights) (\<lambda>t.
           s_bind (q t) (\<lambda>_. f t)) (wd_hub w))"
  proof (cases r)
    case (Inl e)
    have "hub_step_of c {} w (w\<lparr>wd_hub := h\<rparr>)"
      using section_step.submit [of c "wd_hub w" store "Some b" BLOB_RESOURCE_KIND rights] s
      by (intro hub_step_of.run_section) simp
    with s Inl show ?thesis by (intro exI [of _ "w\<lparr>wd_hub := h\<rparr>"]) (auto simp: s_bind_def)
  next
    case (Inr t)
    let ?w1 = "w\<lparr>wd_hub := h, wd_submitted := insert t (wd_submitted w)\<rparr>"
    let ?w2 = "?w1\<lparr>wd_hub := snd (q t h)\<rparr>"
    have "hub_step_of c {} w ?w1" using s Inr by (intro hub_step_of.submit_transfer) simp
    moreover have "hub_step_of c {} ?w1 ?w2" using assms(1) [of t ?w1] by simp
    ultimately have 2: "calm_runs c w ?w2" by (meson r_into_rtranclp rtranclp.rtrancl_into_rtrancl)
    obtain w3 where "calm_runs c ?w2 w3" "wd_hub w3 = snd (f t (wd_hub ?w2))"
      using assms(2) unfolding is_run_def by blast
    with 2 s Inr show ?thesis
      by (cases "q t h"; cases "fst (q t h)") (auto simp: s_bind_def intro: rtranclp_trans)
  qed
qed

lemma run_submit_blob_write [run_rules]:
  assumes "length copy = n"
  shows "method_run c (submit_blob_write_checked c store b n rights copy)"
  unfolding submit_blob_write_checked_def
proof (cases "maximum_chunk_bytes (hc_blob_limits c) < n")
  case True
  then show "method_run c (if maximum_chunk_bytes (hc_blob_limits c) < n then s_lift (Inl Quota)
      else s_bind (submit c store (Some b) BLOB_RESOURCE_KIND rights) (\<lambda>operation.
             s_bind (queue_write_section c operation n copy) (\<lambda>_.
               s_bind (drive_blob_writes c) (\<lambda>_. s_return operation))))"
    by (simp add: run_lift)
next
  case False
  have "method_run c (s_bind (submit c store (Some b) BLOB_RESOURCE_KIND rights) (\<lambda>operation.
             s_bind (queue_write_section c operation n copy) (\<lambda>_.
               s_bind (drive_blob_writes c) (\<lambda>_. s_return operation))))"
    using hub_step_of.queue_write [of _ _ copy c] False assms
    by (intro run_submit_transfer run_rules) simp
  with False show "method_run c (if maximum_chunk_bytes (hc_blob_limits c) < n then s_lift (Inl Quota)
      else s_bind (submit c store (Some b) BLOB_RESOURCE_KIND rights) (\<lambda>operation.
             s_bind (queue_write_section c operation n copy) (\<lambda>_.
               s_bind (drive_blob_writes c) (\<lambda>_. s_return operation))))" by simp
qed

lemma run_submit_write [run_rules]:
  "length copy = n \<Longrightarrow> method_run c (submit_blob_write_from c store b n copy)"
  "method_run c (submit_blob_write c store b bytes)"
  unfolding submit_blob_write_def submit_blob_write_from_def by (intro run_rules, simp)+

lemma run_submit_read [run_rules]: "method_run c (submit_blob_read c store b m)"
proof (cases "m = 0 \<or> maximum_chunk_bytes (hc_blob_limits c) < m")
  case True
  then show ?thesis by (simp add: submit_blob_read_def run_lift)
next
  case False
  have "method_run c (s_bind (submit c store (Some b) BLOB_RESOURCE_KIND BLOB_RIGHT_READ) (\<lambda>token.
             s_bind (queue_read_section c token m) (\<lambda>_.
               s_bind (drive_blob_reads c) (\<lambda>_.
                 s_bind (drive_blob_writes c) (\<lambda>_. s_return token)))))"
    using hub_step_of.queue_read [of _ _ m c] False
    by (intro run_submit_transfer run_rules) simp
  with False show ?thesis by (simp add: submit_blob_read_def)
qed

lemma run_collect_read [run_rules]: "method_run c (collect_blob_read_wire c store t capacity)"
  unfolding collect_blob_read_wire_def by (intro run_rules)

lemma run_abandon [run_rules]:
  "method_run c (abandon_transfer_wire c store t)" "method_run c (abandon_blob_wire c store t)"
  unfolding abandon_transfer_wire_def abandon_blob_wire_def by (intro run_rules)+

section \<open>Guest calls\<close>

lemma run_suspend [run_rules]:
  "method_run c (finish_deferred_completion c t d)" "method_run c (suspend c t store)"
  "method_run c (suspend_wire c store t)" "method_run c (complete_after_suspend c t result revoke)"
  unfolding finish_deferred_completion_def suspend_def suspend_wire_def complete_after_suspend_def Let_def
  by (intro run_rules)+

lemma run_suspend_stream: "method_run c (suspend_stream_wire c store t)"
  unfolding suspend_stream_wire_def
  by (intro run_rules run_then [where g' = "launch_job _" for x] run_section_step section_step.restart_idle)

lemma run_poll: "is_run c (\<lambda>h. snd (poll_wire store t h))"
proof (rule run_choose)
  fix h
  have "snd (poll_wire store t h) = h \<or> snd (poll_wire store t h) = snd (take_terminal t store h)"
    by (auto simp: poll_wire_def split: option.splits sum.splits prod.splits)
  with run_sections(6) run_id show "\<exists>g'. is_run c g' \<and> snd (poll_wire store t h) = g' h" by metis
qed

lemma run_submit_or_close [run_rules]: "method_run c (submit_or_close c store lent kind rights created)"
  unfolding submit_or_close_def by (intro run_rules)

text \<open>Requests of the closed type name the one synthetic kind.\<close>

lemma run_dispatch:
  assumes "\<And>kind rights shareable. request = SyntheticCreate kind rights shareable \<Longrightarrow> kind = SYNTHETIC_RESOURCE_KIND"
  shows "method_run c (dispatch c store request)"
proof -
  have "method_run c (prepare_request c store request)"
    using assms
    by (cases request)
      (auto simp: prepare_request_def create_resource_def intro!: run_rules)
  moreover have "method_run c (case p of (lent, created, close_after, kind, rights) \<Rightarrow>
       s_bind (submit_or_close c store lent kind rights created) (\<lambda>operation.
         s_bind (case created of
                   None \<Rightarrow> s_return ()
                 | Some resource \<Rightarrow> attach_created_resource operation resource) (\<lambda>_ h.
           (Inr operation,
            launch_job (CompleteAfterSuspend operation
                      \<lparr>tr_terminal = T_Completed, tr_resource = created\<rparr> close_after) h))))" for p
    by (cases p) (simp, intro run_rules)
  ultimately show ?thesis unfolding dispatch_def by (rule run_bind)
qed

lemma run_clock_sleep [run_rules]: "method_run c (submit_clock_sleep c store ms)"
  unfolding submit_clock_sleep_def by (intro run_rules)

lemma run_seal_wire [run_rules]: "method_run c (seal_wire c store b)"
  unfolding seal_wire_def by (intro run_rules)

lemma run_output_commit [run_rules]: "method_run c (submit_output_commit c store b outp)"
  unfolding submit_output_commit_def by (intro run_rules)

lemma run_submit_wire: "method_run c (submit_wire c store kind arg0 arg1)"
proof -
  have "method_run c (s_bind (s_lift (wire_request kind arg0 arg1)) (\<lambda>request. dispatch c store request))"
  proof (cases "wire_request kind arg0 arg1")
    case (Inl e)
    then show ?thesis by (simp add: s_bind_def s_lift_def run_id)
  next
    case (Inr request)
    then have "method_run c (dispatch c store request)"
      by (intro run_dispatch)
        (auto simp: wire_request_def and_then_def split: if_splits sum.splits)
    with Inr show ?thesis by (simp add: s_bind_def s_lift_def)
  qed
  then show ?thesis
    unfolding submit_wire_def
    by (intro run_if_method run_lift run_clock_sleep run_output_commit run_seal_wire run_submit_read)
qed

lemma run_output_wires [run_rules]:
  "method_run c (abandon_compiler_output_wire c store t)"
  "method_run c (cancel_compiler_output_wire c store t)"
  "method_run c (cancel_wire c store t)"
  unfolding abandon_compiler_output_wire_def cancel_compiler_output_wire_def cancel_wire_def
  by (intro run_rules)+

lemma run_collect_output_wire: "method_run c (collect_compiler_output_wire c copy store t capacity)"
proof -
  have "method_run c (case p of (t, event) \<Rightarrow> s_bind (drive_blob_writes c) (\<lambda>_.
             s_bind (drive_blob_reads c) (\<lambda>_.
               s_return (push_bit 8 (case event of None \<Rightarrow> 0 | Some e \<Rightarrow> copy e)
                         OR ucast (status t)))))" for p
    by (cases p) (simp, intro run_rules)
  then show ?thesis
    unfolding collect_compiler_output_wire_def by (intro run_bind run_sections run_case_option run_return)
qed

section \<open>Jobs of the runtime\<close>

lemma run_drop_output_read [run_rules]: "is_run c (drop_compiler_output_read c lease)"
  unfolding drop_compiler_output_read_def by (intro run_rules)

lemma run_timers:
  "is_run c (clock_sleep_job t elapsed)" "is_run c (idle_timeout_job t stalled)"
  unfolding clock_sleep_job_def idle_timeout_job_def
  by (rule run_then [OF _ run_state_sections(2)], (intro run_if run_ignore run_sections run_id)+)

lemma run_output_receive: "is_run c (receive_output_job c lease answer)"
proof -
  let ?stop = "\<lambda>k h. drop_compiler_output_read c lease (s_ignore (terminal (cor_operation lease)
      \<lparr>tr_terminal = k, tr_resource = None\<rparr>) (snd (receive_event lease answer h)))"
  let ?publish = "\<lambda>event h. snd (publish_section lease event (snd (receive_event lease answer h)))"
  have receive: "is_run c (\<lambda>h. snd (receive_event lease answer h))"
    by (rule run_section_step) (rule section_step.receive)
  have stop: "is_run c (?stop k)" for k
    by (rule run_then [OF run_then [OF receive run_ignore [OF run_sections(3)]] run_drop_output_read])
  have publish: "is_run c (?publish event)" for event
    by (rule run_then [OF receive run_sections(27)])
  have drop: "is_run c (\<lambda>h. drop_compiler_output_read c lease (?publish event h))" for event
    by (rule run_then [OF publish run_drop_output_read])
  show ?thesis
  proof (rule run_choose)
    fix h
    obtain r h1 where r: "receive_event lease answer h = (r, h1)" by (cases "receive_event lease answer h")
    show "\<exists>g'. is_run c g' \<and> receive_output_job c lease answer h = g' h"
    proof (cases r)
      case (Inl e)
      let ?k = "case e of TerminalError t \<Rightarrow> t | Admission e \<Rightarrow> if e = Closed then T_Closed else T_Rejected"
      from r Inl stop [of ?k] show ?thesis
        by (intro exI [of _ "?stop ?k"]) (simp add: receive_output_job_def)
    next
      case (Inr event)
      obtain p h2 where p: "publish_section lease event h1 = (p, h2)" by (cases "publish_section lease event h1")
      show ?thesis
      proof (cases p)
        case (Inl e)
        with r Inr p show ?thesis
          by (intro exI [of _ "\<lambda>h. drop_compiler_output_read c lease (?publish event h)"])
            (simp add: receive_output_job_def drop)
      next
        case (Inr _)
        with r \<open>r = Inr event\<close> p show ?thesis
          by (intro exI [of _ "?publish event"]) (simp add: receive_output_job_def publish)
      qed
    qed
  qed
qed

lemma run_observers:
  "is_run c (observe_exit_job store t process answer)" "is_run c (observe_cleanup_job t ok)"
proof -
  have "is_run c (\<lambda>h. drop_scalar_producer t h)" "is_run c (\<lambda>h. drop_scalar_producer t (report_exit t r h))" for r
    by (rule run_state_sections, rule run_then [OF run_state_sections(8) run_state_sections(7)])
  moreover have "observe_exit_job store t process answer h = drop_scalar_producer t h
      \<or> (\<exists>r. observe_exit_job store t process answer h = drop_scalar_producer t (report_exit t r h))" for h
    by (auto simp: observe_exit_job_def split: option.splits)
  ultimately show "is_run c (observe_exit_job store t process answer)"
    by (intro run_choose) blast
  show "is_run c (observe_cleanup_job t ok)"
    unfolding observe_cleanup_job_def
    by (rule run_then [OF _ run_state_sections(7)]) (cases ok; simp add: run_id run_ignore run_sections)
qed

section \<open>Host calls\<close>

lemma run_webviews:
  "method_run c (begin_external_webview_open c store)" "method_run c (grant_webview_url c store url)"
  "method_run c (begin_granted_webview_open c store grant)"
  "method_run c (begin_external_webview_operation c store resource rights)"
  "method_run c (begin_external_webview_close c store resource)"
  unfolding begin_external_webview_open_def grant_webview_url_def begin_granted_webview_open_def
    begin_external_webview_operation_def begin_external_webview_close_def
  by ((intro run_rules; simp)+)

lemma run_finish_external: "is_run c (finish_external_operation c t k)"
  unfolding finish_external_operation_def
  by (intro run_ignores run_ignore run_rules)

lemma run_grant_output: "method_run c (grant_exact_output c canonicalize store destination)"
  unfolding grant_exact_output_def by (intro run_rules) simp

lemma run_release_native: "method_run c (release_native_process_output c)"
  unfolding release_native_process_output_def by (intro run_rules run_ignore)

lemma run_supervisor: "method_run c (supervisor_job c run t process)"
proof -
  let ?stop = "\<lambda>k. s_ignore (terminal t \<lparr>tr_terminal = k, tr_resource = None\<rparr>)"
  let ?revoke = "s_ignore (revoke_external_resource c process T_TimedOut)"
  have stop: "is_run c (?stop k)" for k by (intro run_ignore run_sections)
  have revoke: "is_run c (\<lambda>h. ?revoke h)" by (intro run_ignore run_close_resource)
  have published: "is_run c (\<lambda>h. ?revoke (snd (publish_compiler t process session h)))"
    "is_run c (\<lambda>h. snd (publish_compiler t process session h))" for session
    by (rule run_then [OF run_sections(19) revoke], rule run_sections(19))
  have "method_run c (supervise_compiler c run t process)"
  proof (rule run_choose)
    fix h
    have "(\<exists>k. snd (supervise_compiler c run t process h) = ?stop k h) \<or> snd (supervise_compiler c run t process h) = h
      \<or> snd (supervise_compiler c run t process h) = ?revoke (snd (publish_compiler t process (the (cr_session run)) h))
      \<or> snd (supervise_compiler c run t process h) = snd (publish_compiler t process (the (cr_session run)) h)"
      by (cases "cr_session run"; cases "publish_compiler t process (the (cr_session run)) h")
        (auto simp: supervise_compiler_def Let_def)
    with stop revoke published run_id show "\<exists>g'. is_run c g' \<and> snd (supervise_compiler c run t process h) = g' h"
      by (elim disjE exE) (rule exI, erule conjI [rotated], blast)+
  qed
  then have body: "method_run c (s_bind (supervise_compiler c run t process) (\<lambda>_. release_native_process_output c))"
    by (intro run_bind run_release_native)
  have ended: "is_run c (\<lambda>h. finish_cleanup process ok
      (snd (s_bind (supervise_compiler c run t process) (\<lambda>_. release_native_process_output c) h)))" for ok
    by (rule run_then [OF body run_state_sections(5)])
  show ?thesis
  proof (rule run_choose)
    fix h
    have "snd (supervisor_job c run t process h) = finish_cleanup process
        (fst (s_bind (supervise_compiler c run t process) (\<lambda>_. release_native_process_output c) h) = Inr ())
        (snd (s_bind (supervise_compiler c run t process) (\<lambda>_. release_native_process_output c) h))"
      by (simp add: supervisor_job_def split: prod.split)
    with ended show "\<exists>g'. is_run c g' \<and> snd (supervisor_job c run t process h) = g' h" by blast
  qed
qed

section \<open>The encoder\<close>

text \<open>The encoder carries its own record beside the hub.\<close>

definition encoder_run :: "hub_config \<Rightarrow> (encoder_world, HubError, 'a) state_result \<Rightarrow> bool" where
  "encoder_run c m \<longleftrightarrow> (\<forall>en w. \<exists>w'. calm_runs c w w' \<and> wd_hub w' = snd (snd (m (en, wd_hub w))))"

lemma encoder_runI: "(\<And>en. is_run c (\<lambda>h. snd (snd (m (en, h))))) \<Longrightarrow> encoder_run c m"
  by (simp add: encoder_run_def is_run_def)

lemma encoder_runD: "encoder_run c m \<Longrightarrow> is_run c (\<lambda>h. snd (snd (m (en, h))))"
  by (simp add: encoder_run_def is_run_def)

lemma encoder_bind:
  assumes "encoder_run c m" "\<And>x. encoder_run c (f x)"
  shows "encoder_run c (s_bind m f)"
  unfolding encoder_run_def
proof (intro allI)
  fix en :: NativeBlobEncoder and w :: hub_world
  obtain r en1 h1 where m: "m (en, wd_hub w) = (r, en1, h1)" by (metis prod_cases3)
  obtain w1 where w1: "calm_runs c w w1" "wd_hub w1 = h1"
    using assms(1) m unfolding encoder_run_def by (metis snd_conv)
  show "\<exists>w'. calm_runs c w w' \<and> wd_hub w' = snd (snd (s_bind m f (en, wd_hub w)))"
  proof (cases r)
    case (Inl e)
    with m w1 show ?thesis by (auto simp: s_bind_def)
  next
    case (Inr x)
    obtain w2 where "calm_runs c w1 w2" "wd_hub w2 = snd (snd (f x (en1, wd_hub w1)))"
      using assms(2) unfolding encoder_run_def by blast
    with m w1 Inr show ?thesis by (auto simp: s_bind_def intro: rtranclp_trans)
  qed
qed

lemma encoder_return: "encoder_run c (s_return x)" "encoder_run c (\<lambda>w. (r w, apfst g w))" "encoder_run c (\<lambda>w. (r w, w))"
  by (auto simp: encoder_run_def s_return_def)

lemma encoder_stays: "m w = (e, w) \<Longrightarrow> \<exists>m'. encoder_run c m' \<and> m w = m' w"
  by (rule exI [of _ "\<lambda>w. (e, w)"]) (simp add: encoder_return)

lemma encoder_choose:
  assumes "\<And>w. \<exists>m'. encoder_run c m' \<and> m w = m' w"
  shows "encoder_run c m"
  unfolding encoder_run_def
proof (intro allI)
  fix en :: NativeBlobEncoder and w :: hub_world
  obtain m' where "encoder_run c m'" "m (en, wd_hub w) = m' (en, wd_hub w)" using assms by metis
  then show "\<exists>w'. calm_runs c w w' \<and> wd_hub w' = snd (snd (m (en, wd_hub w)))"
    by (simp add: encoder_run_def)
qed

lemma encoder_encoding:
  assumes "encoder_run c m"
  shows "encoder_run c (encoding m)"
proof -
  have "snd (snd (encoding m (en, h))) = (if en_failure en = None then snd (snd (m (en, h))) else h)" for en h
    by (auto simp: encoding_def split: option.splits prod.splits sum.splits)
  with assms show ?thesis by (auto simp: encoder_run_def)
qed

lemma run_write_chunks [run_rules]: "method_run c (encoder_write_chunks c store b chunks)"
  by (induction chunks) (cases b; simp; intro run_rules)+

lemma encoder_append_run: "encoder_run c (encoder_append c bytes)"
  unfolding encoder_append_def
proof (intro encoder_encoding encoder_runI run_choose)
  fix en :: NativeBlobEncoder and h :: hub
  let ?fill = "encoder_write_chunks c (en_store en) (en_blob en)
    (slice_chunks (maximum_chunk_bytes (hc_blob_limits c)) bytes)"
  have "snd (snd (encoder_append_body c bytes (en, h))) = h
      \<or> snd (snd (encoder_append_body c bytes (en, h))) = snd (?fill h)"
    by (auto simp: encoder_append_body_def split: option.splits prod.splits sum.splits)
  with run_write_chunks run_id
  show "\<exists>g'. is_run c g' \<and> snd (snd (encoder_append_body c bytes (en, h))) = g' h" by metis
qed

lemma encoder_fill_run: "encoder_run c (fill_hole pieces c)"
proof (induction pieces)
  case (Suc pieces)
  have "encoder_run c (s_bind (encoder_append c bytes) (\<lambda>_. fill_hole pieces c))" for bytes
    by (intro encoder_bind encoder_append_run Suc)
  then show ?case by (intro encoder_choose) (auto intro: encoder_return(3))
qed (simp add: encoder_return)

lemma encoder_overwrite_run:
  "encoder_run c (\<lambda>(en, h). case overwrite_section (en_store en) (en_blob en) (en_position en) bytes h of
     (r, h) \<Rightarrow> (r, (en, h)))"
proof (rule encoder_runI)
  fix en
  show "is_run c (\<lambda>h. snd (snd (case (en, h) of (en, h) \<Rightarrow>
      case overwrite_section (en_store en) (en_blob en) (en_position en) bytes h of (r, h) \<Rightarrow> (r, (en, h)))))"
    using run_sections(25) [of c "en_store en" "en_blob en" "en_position en" bytes]
    by (simp add: case_prod_unfold)
qed

lemma encoder_write_run: "encoder_run c (write_at_position c bytes)"
proof -
  have piece: "encoder_run c (s_bind (if 0 < overwrite
                    then (\<lambda>(en, h). case overwrite_section (en_store en) (en_blob en)
                                           (en_position en) (take overwrite bytes) h of
                                      (r, h) \<Rightarrow> (r, (en, h)))
                    else s_return ()) (\<lambda>_.
              s_bind (encoder_append c (drop overwrite bytes)) (\<lambda>_ w.
                (Inr (), apfst (\<lambda>en. en\<lparr>en_position := end_position\<rparr>) w))))" for overwrite end_position
    by (intro encoder_bind encoder_append_run encoder_return(2))
      (simp add: encoder_overwrite_run encoder_return(1))
  have step: "encoder_run c (\<lambda>w. let overwrite = min (length bytes) (en_written (fst w) - en_position (fst w)) in
            s_bind (if 0 < overwrite
                    then (\<lambda>(en, h). case overwrite_section (en_store en) (en_blob en)
                                           (en_position en) (take overwrite bytes) h of
                                      (r, h) \<Rightarrow> (r, (en, h)))
                    else s_return ()) (\<lambda>_.
              s_bind (encoder_append c (drop overwrite bytes)) (\<lambda>_ w.
                (Inr (), apfst (\<lambda>en. en\<lparr>en_position := end_position\<rparr>) w))) w)" for end_position
    unfolding Let_def by (rule encoder_choose, rule exI, rule conjI, rule piece, rule refl)
  have "encoder_run c (write_at_position_body c bytes)"
  proof (rule encoder_choose)
    fix w :: encoder_world
    consider n where "checked_add (en_position (fst w)) (length bytes) = Some n" "n \<le> en_maximum_bytes (fst w)"
      | n where "checked_add (en_position (fst w)) (length bytes) = Some n" "en_maximum_bytes (fst w) < n"
      | "checked_add (en_position (fst w)) (length bytes) = None"
      by (metis not_le option.exhaust)
    then show "\<exists>m'. encoder_run c m' \<and> write_at_position_body c bytes w = m' w"
    proof cases
      case n: 1
      show ?thesis
        by (rule exI, rule conjI, rule encoder_bind [OF encoder_fill_run
              [of c "en_position (fst w) - en_written (fst w)"] step [of n]])
          (unfold write_at_position_body_def n(1) option.case if_not_P [OF leD [OF n(2)]], rule refl)
    next
      case n: 2
      have "write_at_position_body c bytes w = (Inl Quota, w)"
        unfolding write_at_position_body_def n(1) option.case if_P [OF n(2)] ..
      then show ?thesis by (rule encoder_stays)
    next
      case n: 3
      have "write_at_position_body c bytes w = (Inl Quota, w)"
        unfolding write_at_position_body_def n option.case ..
      then show ?thesis by (rule encoder_stays)
    qed
  qed
  then have "encoder_run c (encoding (write_at_position_body c bytes))" by (rule encoder_encoding)
  note body = this
  show ?thesis
  proof (rule encoder_choose)
    fix w :: encoder_world
    consider e where "write_at_position c bytes w = (e, w)"
      | "write_at_position c bytes w = encoding (write_at_position_body c bytes) w"
      by (cases "en_failure (fst w)"; cases "bytes = []") (simp_all add: write_at_position_def)
    then show "\<exists>m'. encoder_run c m' \<and> write_at_position c bytes w = m' w"
      by cases (rule encoder_stays, assumption, rule exI, rule conjI, rule body)
  qed
qed

lemma run_drop_encoder [run_rules]: "is_run c (drop_encoder c en)"
  unfolding drop_encoder_def by (intro run_rules run_ignore)

lemma run_encoder_new [run_rules]:
  "method_run c (encoder_new c store n)" "method_run c (encoder_for_operation c store t n)"
proof -
  show n: "method_run c (encoder_new c store n)"
    unfolding encoder_new_def by (intro run_rules) simp
  show "method_run c (encoder_for_operation c store t n)"
    unfolding encoder_for_operation_def by (intro n run_rules)
qed

lemma run_encoder_finish: "method_run c (encoder_finish c en operation)"
proof (rule run_choose)
  fix h
  let ?finish = "\<lambda>b h. snd (finish_section en b operation h)"
  have finish: "is_run c (?finish b)" "is_run c (\<lambda>h. drop_encoder c en (?finish b h))" for b
    by (rule run_sections(26), rule run_then [OF run_sections(26) run_drop_encoder])
  have "snd (encoder_finish c en operation h) = drop_encoder c en h
      \<or> (\<exists>b. snd (encoder_finish c en operation h) = ?finish b h
           \<or> snd (encoder_finish c en operation h) = drop_encoder c en (?finish b h))"
  proof (cases "en_blob en")
    case None
    then show ?thesis by (auto simp: encoder_finish_def split: option.splits)
  next
    case (Some b)
    obtain r h1 where "finish_section en b operation h = (r, h1)" by (cases "finish_section en b operation h")
    with Some have "snd (encoder_finish c en operation h) = drop_encoder c en h
        \<or> snd (encoder_finish c en operation h) = ?finish b h
        \<or> snd (encoder_finish c en operation h) = drop_encoder c en (?finish b h)"
      by (cases r) (auto simp: encoder_finish_def s_bind_def s_return_def split: option.splits)
    then show ?thesis by blast
  qed
  with finish run_drop_encoder
  show "\<exists>g'. is_run c g' \<and> snd (encoder_finish c en operation h) = g' h" by blast
qed

section \<open>Reached states\<close>

definition leads_to :: "hub_config \<Rightarrow> hub_world \<Rightarrow> hub \<Rightarrow> bool" where
  "leads_to c w h \<longleftrightarrow> (\<exists>w'. hub_runs c w w' \<and> wd_hub w' = h)"

lemma leads_run: "is_run c g \<Longrightarrow> leads_to c w (g (wd_hub w))"
  unfolding is_run_def leads_to_def using runs_mono [of c "{}" _ _ UNIV] by blast

end
