(* ===== verification/Hub_Stream.thy ===== *)
theory Hub_Stream
  imports Hub_Runs
begin

text \<open>
  What the two passes do to the bytes. A blob is a queue: the write pass appends the bytes of the
  writes it completes, in the order of their operations, and the read pass hands consecutive
  pieces from the front to the reads it completes, in the same order. Nothing is lost, invented
  or handed out twice.
\<close>

definition blob_content :: "hub \<Rightarrow> token \<Rightarrow> u8 list" where
  "blob_content h b = (case resource_value h b of Some (Blob d _) \<Rightarrow> dq_bytes d | _ \<Rightarrow> [])"

lemma blob_content_cong:
  "bt_get (hub_resources h') b = bt_get (hub_resources h) b \<Longrightarrow> blob_content h' b = blob_content h b"
  by (simp add: blob_content_def resource_value_def)

section \<open>One turn\<close>

text \<open>Ending an operation touches no resource but the one it creates, and never a published value.\<close>

lemma terminal_locked_resources:
  assumes "terminal_locked t r h = (n, h')" and "\<And>op. bt_get (hub_operations h) t = Some op \<Longrightarrow> op_created_resource op \<noteq> Some b"
  shows "bt_get (hub_resources h') b = bt_get (hub_resources h) b"
  using assms
  by (auto simp: terminal_locked_def Let_def update_operation_def update_resource_def release_reservation_def
      split: option.splits if_splits)

lemma finish_transfer_resources:
  assumes "finish_transfer t k ps h = (n, h')" and "\<And>op. bt_get (hub_operations h) t = Some op \<Longrightarrow> op_created_resource op \<noteq> Some b"
  shows "bt_get (hub_resources h') b = bt_get (hub_resources h) b"
proof -
  obtain m where "terminal_locked t \<lparr>tr_terminal = k, tr_resource = None\<rparr> h = (m, h')"
    using assms(1) by (auto simp: finish_transfer_def s_bind_def s_return_def split: prod.splits sum.splits)
  from terminal_locked_resources [OF this assms(2)] show ?thesis by blast
qed

lemma finish_transfer_operation:
  assumes "finish_transfer t k ps h = (n, h')" "bt_get (hub_operations h) t = Some op" "op_terminal op = None"
  shows "bt_get (hub_operations h') t = Some (terminate_slot \<lparr>tr_terminal = k, tr_resource = None\<rparr> op)"
  using assms
  by (cases rule: terminal_locked_cases [of h t "\<lparr>tr_terminal = k, tr_resource = None\<rparr>"])
    (auto simp: finish_transfer_def s_bind_def s_return_def)

lemma reserve_cases:
  assumes "reserve_blob_capacity c b n m x h = (r, h')"
  obtains (kept) "h' = h"
  | (grown) d sealed d' where "resource_value h b = Some (Blob d sealed)" "dq_bytes d' = dq_bytes d"
      "h' = record_transfer_capacity (update_resource b (set_buffer d') h)"
proof (cases "\<exists>d sealed. resource_value h b = Some (Blob d sealed)")
  case False
  then have "h' = h"
    using assms by (auto simp: reserve_blob_capacity_def Let_def split: option.splits ResourceValue.splits)
  then show thesis by (rule kept)
next
  case True
  then obtain d sealed where d: "resource_value h b = Some (Blob d sealed)" by blast
  show thesis
  proof (cases "\<exists>d'. try_reserve_exact c n d = Some d' \<and> h' = record_transfer_capacity (update_resource b (set_buffer d') h)")
    case True
    then obtain d' where d': "try_reserve_exact c n d = Some d'"
      "h' = record_transfer_capacity (update_resource b (set_buffer d') h)" by blast
    then have "dq_bytes d' = dq_bytes d"
      by (auto simp: try_reserve_exact_def Let_def split: if_splits)
    with d d' show thesis by (intro grown)
  next
    case False
    with assms d have "h' = h"
      by (auto simp: reserve_blob_capacity_def Let_def split: option.splits if_splits)
    then show thesis by (rule kept)
  qed
qed

lemma reserve_others:
  assumes "reserve_blob_capacity c b n m x h = (r, h')" "y \<noteq> b"
  shows "bt_get (hub_resources h') y = bt_get (hub_resources h) y"
  using assms by (cases rule: reserve_cases) (simp_all add: record_transfer_capacity_def update_resource_def)

lemma reserve_content:
  assumes "reserve_blob_capacity c b n m x h = (r, h')"
  shows "blob_content h' y = blob_content h y"
  using assms(1)
proof (cases rule: reserve_cases)
  case (grown d sealed d')
  show ?thesis
  proof (cases "y = b")
    case True
    obtain s where "bt_get (hub_resources h) b = Some s" "rs_value s = Blob d sealed"
      using grown(1) by (auto simp: resource_value_def)
    with True grown show ?thesis
      by (simp add: blob_content_def resource_value_def record_transfer_capacity_def update_resource_def set_buffer_def)
  next
    case False
    with reserve_others [OF assms] show ?thesis by (intro blob_content_cong)
  qed
qed simp

lemma reserve_keeps_blob:
  assumes "reserve_blob_capacity c b n m x h = (r, h')" "resource_value h b = Some (Blob d sealed)"
  shows "\<exists>d'. resource_value h' b = Some (Blob d' sealed)"
  using assms(1)
proof (cases rule: reserve_cases)
  case (grown d sealed d')
  with assms(2) show ?thesis
    by (auto simp: resource_value_def record_transfer_capacity_def update_resource_def set_buffer_def)
qed (use assms(2) in simp)

text \<open>The bytes a transfer moved, seen from its operation before and after.\<close>

definition completed :: "OperationSlot \<Rightarrow> bool" where
  "completed op \<longleftrightarrow> map_option tr_terminal (op_terminal op) = Some T_Completed"

definition bytes_written :: "OperationSlot \<Rightarrow> OperationSlot \<Rightarrow> u8 list" where
  "bytes_written op op' = (if completed op' then (case op_pending_blob_write op of None \<Rightarrow> [] | Some bytes \<Rightarrow> bytes) else [])"

definition bytes_read :: "OperationSlot \<Rightarrow> OperationSlot \<Rightarrow> u8 list" where
  "bytes_read op op' = (if completed op' then (case op_blob_read_result op' of None \<Rightarrow> [] | Some bytes \<Rightarrow> bytes) else [])"

lemma completed_terminate [simp]: "completed (terminate_slot r op) \<longleftrightarrow> tr_terminal r = T_Completed"
  by (simp add: completed_def)

text \<open>A transfer that was touched waits no longer.\<close>

definition waits :: "OperationSlot \<Rightarrow> bool" where
  "waits op \<longleftrightarrow> op_pending_blob_write op \<noteq> None \<or> op_pending_blob_read op \<noteq> None"

lemma waits_terminate [simp]: "\<not> waits (terminate_slot r op)"
  by (simp add: waits_def terminate_slot_def Let_def)

lemma append_content:
  assumes "resource_value h x = Some (Blob d sealed)"
  shows "blob_content (append_blob x bytes h) b = blob_content h b @ (if b = x then bytes else [])"
  using assms
  by (auto simp: append_blob_def Let_def blob_content_def resource_value_def update_resource_def extend_slot_def
      split: option.splits)

lemma append_others:
  "b \<noteq> x \<Longrightarrow> bt_get (hub_resources (append_blob x bytes h)) b = bt_get (hub_resources h) b"
  by (simp add: append_blob_def Let_def update_resource_def)

lemma content_update_operation [simp]:
  "hub_resources (update_operation t f h) = hub_resources h"
  "resource_value (update_operation t f h) = resource_value h"
  "blob_content (update_operation t f h) = blob_content h"
  by (simp_all add: update_operation_def resource_value_def blob_content_def fun_eq_iff)

lemma complete_write_moves:
  assumes op: "bt_get (hub_operations h) t = Some op" "op_terminal op = None" "op_created_resource op \<noteq> Some b"
    and x: "resource_value h x = Some (Blob d sealed)"
    and fin: "complete_write t x bytes h = (r, h')"
  shows "\<exists>op'. bt_get (hub_operations h') t = Some op' \<and> completed op' \<and> \<not> waits op'
    \<and> blob_content h' b = blob_content h b @ (if b = x then bytes else [])
    \<and> (b \<noteq> x \<longrightarrow> bt_get (hub_resources h') b = bt_get (hub_resources h) b)"
proof -
  let ?f = "op_pending_blob_write_update (\<lambda>_. None)"
  let ?h1 = "append_blob x bytes (update_operation t ?f h)"
  have live: "bt_get (hub_resources ?h1) x \<noteq> None"
    using x by (auto simp: append_blob_def Let_def update_resource_def resource_value_def)
  then have f: "finish_transfer t T_Completed [x] ?h1 = (r, h')"
    using fin by (auto simp: complete_write_def Let_def)
  have op1: "bt_get (hub_operations ?h1) t = Some (?f op)" using op by simp
  have res: "bt_get (hub_resources h') b = bt_get (hub_resources ?h1) b"
    using op op1 by (intro finish_transfer_resources [OF f]) auto
  have "bt_get (hub_operations h') t = Some (terminate_slot \<lparr>tr_terminal = T_Completed, tr_resource = None\<rparr> (?f op))"
    using op by (intro finish_transfer_operation [OF f op1]) simp
  moreover have "blob_content h' b = blob_content h b @ (if b = x then bytes else [])"
    using blob_content_cong [OF res] append_content [of "update_operation t ?f h" x d sealed bytes b] x by simp
  moreover have "b \<noteq> x \<longrightarrow> bt_get (hub_resources h') b = bt_get (hub_resources h) b"
    using res append_others [of b x bytes "update_operation t ?f h"] by simp
  ultimately show ?thesis by auto
qed

lemma write_turn_moves:
  assumes op: "bt_get (hub_operations h) t = Some op" "pending_write op" "op_created_resource op \<noteq> Some b"
    and turn: "write_turn c t h = (Inr z, h')"
  shows "\<exists>op'. bt_get (hub_operations h') t = Some op' \<and> (op' = op \<or> \<not> waits op')
    \<and> blob_content h' b = blob_content h b @ (if op_resource op = Some b then bytes_written op op' else [])
    \<and> (op_resource op \<noteq> Some b \<longrightarrow> bt_get (hub_resources h') b = bt_get (hub_resources h) b)"
proof -
  obtain x bytes where b: "op_resource op = Some x" "op_pending_blob_write op = Some bytes" "op_terminal op = None"
    using turn op by (auto simp: write_turn_def pending_write_def split: option.splits)
  let ?reserve = "reserve_blob_capacity c x (length bytes) (maximum_sketch_bytes (hc_blob_limits c))
      (transfer_maximum c) h"
  obtain q h1 where res: "?reserve = (q, h1)" by (cases ?reserve)
  note C = reserve_content [OF res] and O = reserve_others [OF res] and ops = reserve_open [OF res]
  have idle: "bytes_written op op = []" using b by (simp add: bytes_written_def completed_def)
  have ended: "bytes_written op (terminate_slot \<lparr>tr_terminal = k, tr_resource = None\<rparr> op) = []"
    if "k \<noteq> T_Completed" for k using that by (simp add: bytes_written_def)
  consider "write_terminal c x (length bytes) h = None"
    | k where "write_terminal c x (length bytes) h = Some k" "k \<noteq> T_Completed"
    | "write_terminal c x (length bytes) h = Some T_Completed" "q = Inl Quota"
    | e where "write_terminal c x (length bytes) h = Some T_Completed" "q = Inl e" "e \<noteq> Quota"
    | "write_terminal c x (length bytes) h = Some T_Completed" "q = Inr ()"
    by (cases "write_terminal c x (length bytes) h"; cases q) auto
  then show ?thesis
  proof cases
    case 1
    with turn op b idle show ?thesis by (auto simp: write_turn_def)
  next
    case (2 k)
    then have f: "finish_transfer t k [] h = (Inr z, h')" using turn op b by (simp add: write_turn_def)
    have r: "bt_get (hub_resources h') b = bt_get (hub_resources h) b"
      using op by (intro finish_transfer_resources [OF f]) auto
    with finish_transfer_operation [OF f op(1) b(3)] ended [OF 2(2)] blob_content_cong [OF r] show ?thesis
      by simp
  next
    case 3
    with turn op b res have "h' = h1" by (simp add: write_turn_def)
    with C O op b idle ops show ?thesis by auto
  next
    case (4 e)
    then have f: "finish_transfer t T_Rejected [] h1 = (Inr z, h')" using turn op b res by (simp add: write_turn_def)
    have op1: "bt_get (hub_operations h1) t = Some op" using op ops by simp
    have r: "bt_get (hub_resources h') b = bt_get (hub_resources h1) b"
      using op op1 by (intro finish_transfer_resources [OF f]) auto
    with finish_transfer_operation [OF f op1 b(3)] ended [of T_Rejected] blob_content_cong [OF r] C O b
    show ?thesis by simp
  next
    case 5
    then have f: "complete_write t x bytes h1 = (Inr z, h')" using turn op b res by (simp add: write_turn_def)
    have "\<exists>d sealed. resource_value h1 x = Some (Blob d sealed)"
      using 5(1) reserve_keeps_blob [OF res] by (auto simp: write_terminal_def split: option.splits ResourceValue.splits if_splits)
    then obtain d sealed where d: "resource_value h1 x = Some (Blob d sealed)" by blast
    have op1: "bt_get (hub_operations h1) t = Some op" using op ops by simp
    from complete_write_moves [OF op1 b(3) op(3) d f] C O b show ?thesis
      by (auto simp: bytes_written_def)
  qed
qed

lemma read_out_content:
  assumes "resource_value h x = Some (Blob d sealed)" "n \<le> length (dq_bytes d)"
  shows "blob_content h b = (if b = x then take n (dq_bytes d) else []) @ blob_content (read_out t x n bytes h) b"
    "b \<noteq> x \<Longrightarrow> bt_get (hub_resources (read_out t x n bytes h)) b = bt_get (hub_resources h) b"
  using assms
  by (auto simp: read_out_def Let_def blob_content_def resource_value_def update_resource_def drain_slot_def
      vec_deque_new_def split: option.splits)

lemma read_turn_moves:
  assumes op: "bt_get (hub_operations h) t = Some op" "pending_read op" "op_created_resource op \<noteq> Some b"
    and turn: "read_turn c t h = (Inr z, h')"
  shows "\<exists>op'. bt_get (hub_operations h') t = Some op' \<and> (op' = op \<or> \<not> waits op')
    \<and> blob_content h b = (if op_resource op = Some b then bytes_read op op' else []) @ blob_content h' b
    \<and> (op_resource op \<noteq> Some b \<longrightarrow> bt_get (hub_resources h') b = bt_get (hub_resources h) b)"
proof (cases rule: read_turn_cases [of c t h])
  case failed
  with turn show ?thesis by simp
next
  case skipped
  with turn op show ?thesis by (auto simp: bytes_read_def completed_def pending_read_def)
next
  case (read op' x d sealed m)
  let ?n = "min m (length (dq_bytes d))"
  let ?h = "read_out t x ?n (take ?n (dq_bytes d)) h"
  let ?op = "op\<lparr>op_blob_read_result := Some (take ?n (dq_bytes d))\<rparr>"
  have f: "finish_transfer t T_Completed [x] ?h = (Inr z, h')" using turn read(8) by simp
  have op1: "bt_get (hub_operations ?h) t = Some ?op" using op by (simp add: hub_operations_read_out)
  have r: "bt_get (hub_resources h') b = bt_get (hub_resources ?h) b"
    using op op1 by (intro finish_transfer_resources [OF f]) auto
  have "bt_get (hub_operations h') t = Some (terminate_slot \<lparr>tr_terminal = T_Completed, tr_resource = None\<rparr> ?op)"
    using op by (intro finish_transfer_operation [OF f op1]) (simp add: pending_read_def)
  moreover have "bytes_read op (terminate_slot \<lparr>tr_terminal = T_Completed, tr_resource = None\<rparr> ?op) = take ?n (dq_bytes d)"
    by (simp add: bytes_read_def)
  ultimately show ?thesis
    using read(1,2) op(1) r blob_content_cong [OF r] read_out_content [OF read(4), of ?n b t "take ?n (dq_bytes d)"]
    by auto
qed

section \<open>A whole pass\<close>

text \<open>
  What a pass moves, for either direction: \<open>joins\<close> says how the content before, the bytes
  moved and the content after belong together.
\<close>

definition moved_by :: "(OperationSlot \<Rightarrow> OperationSlot \<Rightarrow> u8 list) \<Rightarrow> token \<Rightarrow> hub \<Rightarrow> hub \<Rightarrow> token \<Rightarrow> u8 list" where
  "moved_by moved b h h' t =
     (case (bt_get (hub_operations h) t, bt_get (hub_operations h') t) of
        (Some op, Some op') \<Rightarrow> if op_resource op = Some b then moved op op' else []
      | _ \<Rightarrow> [])"

lemma run_pass_loop:
  assumes "run_pass turn P h = (r, h')"
  obtains q h1 where "pass_loop turn (select_operations P h) h = (q, h1)"
    "hub_operations h' = hub_operations h1" "hub_resources h' = hub_resources h1"
proof -
  obtain q h1 where l: "pass_loop turn (select_operations P h) h = (q, h1)"
    by (cases "pass_loop turn (select_operations P h) h")
  have "hub_operations h' = hub_operations h1" "hub_resources h' = hub_resources h1"
    using assms l
    by (cases q; auto simp: run_pass_def s_bind_def notify_all_def report_all_progress_def split: prod.splits)+
  with l show thesis using that by blast
qed

lemma distinct_select: "hub_inv c W h \<Longrightarrow> distinct (select_operations P h)"
  unfolding select_operations_def by (intro distinct_filter bt_wf_distinct) (rule hub_invD(12))

text \<open>A blob no waiting transfer borrows or creates.\<close>

definition quiet :: "token \<Rightarrow> hub \<Rightarrow> bool" where
  "quiet b h \<longleftrightarrow> (\<forall>t op. bt_get (hub_operations h) t = Some op \<longrightarrow> waits op \<longrightarrow>
     op_resource op \<noteq> Some b \<and> op_created_resource op \<noteq> Some b)"

lemma quietD:
  "quiet b h \<Longrightarrow> bt_get (hub_operations h) t = Some op \<Longrightarrow> waits op \<Longrightarrow>
   op_resource op \<noteq> Some b \<and> op_created_resource op \<noteq> Some b"
  by (simp add: quiet_def)

lemma quiet_cong: "hub_operations h' = hub_operations h \<Longrightarrow> quiet b h' = quiet b h"
  by (simp add: quiet_def)

locale streamed_pass = tracked_pass +
  fixes moved :: "OperationSlot \<Rightarrow> OperationSlot \<Rightarrow> u8 list"
    and joins :: "u8 list \<Rightarrow> u8 list \<Rightarrow> u8 list \<Rightarrow> bool"
  assumes joins_nothing: "joins xs [] xs"
    and joins_then: "joins xs m ys \<Longrightarrow> joins ys n zs \<Longrightarrow> joins xs (m @ n) zs"
    and turn_joins: "bt_get (hub_operations h) t = Some op \<Longrightarrow> waiting op \<Longrightarrow>
      op_created_resource op \<noteq> Some b \<Longrightarrow> turn c t h = (Inr x, h') \<Longrightarrow>
      joins (blob_content h b) (moved_by moved b h h' t) (blob_content h' b)
        \<and> (op_resource op \<noteq> Some b \<longrightarrow> bt_get (hub_resources h') b = bt_get (hub_resources h) b)
        \<and> (\<exists>op'. bt_get (hub_operations h') t = Some op' \<and> (op' = op \<or> \<not> waits op'))"
    and waiting_waits: "waiting op \<Longrightarrow> waits op"
begin

lemma loop_others:
  assumes "limits_ok c" "tracks c W h0 h" "distinct ts"
    "\<forall>t\<in>set ts. \<exists>op. bt_get (hub_operations h) t = Some op \<and> waiting op"
    "pass_loop (turn c) ts h = (r, h')" "x \<notin> set ts"
  shows "bt_get (hub_operations h') x = bt_get (hub_operations h) x"
  using assms
proof (induction ts arbitrary: h W r)
  case Nil
  then show ?case by (simp add: s_return_def)
next
  case (Cons t ts)
  from Cons.prems(4) obtain op where "bt_get (hub_operations h) t = Some op" "waiting op" by auto
  with turn_tracks [OF Cons.prems(1,2)] obtain ws ps h1
    where t: "turn c t h = (Inr (ws, ps), h1)" "tracks c (set ws \<union> W) h0 h1"
      "\<forall>x. x \<noteq> t \<longrightarrow> bt_get (hub_operations h1) x = bt_get (hub_operations h) x" by metis
  obtain r' where l: "pass_loop (turn c) ts h1 = (r', h')"
    using Cons.prems(5) t(1) by (auto simp: s_bind_def s_return_def split: prod.splits sum.splits)
  have "\<forall>x\<in>set ts. \<exists>op. bt_get (hub_operations h1) x = Some op \<and> waiting op"
    using t(3) Cons.prems(3,4) by auto
  with Cons.IH [OF Cons.prems(1) t(2) _ _ l] Cons.prems(3,6) t(3) show ?case by simp
qed

lemma loop_joins:
  assumes "limits_ok c" "tracks c W h0 h" "distinct ts"
    "\<forall>t\<in>set ts. \<exists>op. bt_get (hub_operations h) t = Some op \<and> waiting op \<and> op_created_resource op \<noteq> Some b"
    "pass_loop (turn c) ts h = (r, h')"
  shows "joins (blob_content h b) (concat (map (moved_by moved b h h') ts)) (blob_content h' b)"
  using assms
proof (induction ts arbitrary: h W r)
  case Nil
  then show ?case by (simp add: s_return_def joins_nothing)
next
  case (Cons t ts)
  from Cons.prems(4) obtain op where op: "bt_get (hub_operations h) t = Some op" "waiting op"
    "op_created_resource op \<noteq> Some b" by auto
  with turn_tracks [OF Cons.prems(1,2)] obtain ws ps h1
    where t: "turn c t h = (Inr (ws, ps), h1)" "tracks c (set ws \<union> W) h0 h1"
      "\<forall>x. x \<noteq> t \<longrightarrow> bt_get (hub_operations h1) x = bt_get (hub_operations h) x" by metis
  obtain r' where l: "pass_loop (turn c) ts h1 = (r', h')"
    using Cons.prems(5) t(1) by (auto simp: s_bind_def s_return_def split: prod.splits sum.splits)
  have w: "\<forall>x\<in>set ts. \<exists>op. bt_get (hub_operations h1) x = Some op \<and> waiting op \<and> op_created_resource op \<noteq> Some b"
    using t(3) Cons.prems(3,4) by auto
  have "bt_get (hub_operations h') t = bt_get (hub_operations h1) t"
    using loop_others [OF Cons.prems(1) t(2) _ _ l, of t] Cons.prems(3) w by auto
  then have "moved_by moved b h h' t = moved_by moved b h h1 t" by (simp add: moved_by_def)
  moreover have "map (moved_by moved b h h') ts = map (moved_by moved b h1 h') ts"
    using t(3) Cons.prems(3) by (auto simp: moved_by_def)
  ultimately have "concat (map (moved_by moved b h h') (t # ts))
      = moved_by moved b h h1 t @ concat (map (moved_by moved b h1 h') ts)"
    by (simp del: map_eq_conv)
  then show ?case
    using joins_then [OF conjunct1 [OF turn_joins [OF op t(1)]] Cons.IH [OF Cons.prems(1) t(2) _ w l]] Cons.prems(3)
    by (simp only: distinct.simps)
qed

lemma loop_quiet:
  assumes "limits_ok c" "tracks c W h0 h" "distinct ts"
    "\<forall>t\<in>set ts. \<exists>op. bt_get (hub_operations h) t = Some op \<and> waiting op"
    "quiet b h" "pass_loop (turn c) ts h = (r, h')"
  shows "quiet b h' \<and> bt_get (hub_resources h') b = bt_get (hub_resources h) b"
  using assms
proof (induction ts arbitrary: h W r)
  case Nil
  then show ?case by (simp add: s_return_def)
next
  case (Cons t ts)
  from Cons.prems(4) obtain op where op: "bt_get (hub_operations h) t = Some op" "waiting op" by auto
  with turn_tracks [OF Cons.prems(1,2)] obtain ws ps h1
    where t: "turn c t h = (Inr (ws, ps), h1)" "tracks c (set ws \<union> W) h0 h1"
      "\<forall>x. x \<noteq> t \<longrightarrow> bt_get (hub_operations h1) x = bt_get (hub_operations h) x" by metis
  have b: "op_resource op \<noteq> Some b" "op_created_resource op \<noteq> Some b"
    using quietD [OF Cons.prems(5) op(1) waiting_waits [OF op(2)]] by auto
  note J = turn_joins [OF op b(2) t(1)]
  obtain op' where "bt_get (hub_operations h1) t = Some op'" "op' = op \<or> \<not> waits op'" using J by blast
  then have q: "quiet b h1" using Cons.prems(5) op(1) t(3) unfolding quiet_def by (metis option.inject)
  obtain r' where l: "pass_loop (turn c) ts h1 = (r', h')"
    using Cons.prems(6) t(1) by (auto simp: s_bind_def s_return_def split: prod.splits sum.splits)
  have "\<forall>x\<in>set ts. \<exists>op. bt_get (hub_operations h1) x = Some op \<and> waiting op"
    using t(3) Cons.prems(3,4) by auto
  with Cons.IH [OF Cons.prems(1) t(2) _ _ q l] Cons.prems(3) J b(1) show ?case by simp
qed

lemma pass_joins:
  assumes "limits_ok c" "hub_inv c W h"
    and none: "\<And>t op. bt_get (hub_operations h) t = Some op \<Longrightarrow> waiting op \<Longrightarrow> op_created_resource op \<noteq> Some b"
    and pass: "run_pass (turn c) waiting h = (r, h')"
  shows "joins (blob_content h b) (concat (map (moved_by moved b h h') (select_operations waiting h)))
    (blob_content h' b)"
proof -
  obtain q h1 where l: "pass_loop (turn c) (select_operations waiting h) h = (q, h1)"
    and same: "hub_operations h' = hub_operations h1" "hub_resources h' = hub_resources h1"
    using run_pass_loop [OF pass] .
  have "distinct (select_operations waiting h)" using distinct_select [OF assms(2)] .
  moreover have "\<forall>t\<in>set (select_operations waiting h).
      \<exists>op. bt_get (hub_operations h) t = Some op \<and> waiting op \<and> op_created_resource op \<noteq> Some b"
    using none by (auto simp: select_operations_def split: option.splits)
  ultimately have "joins (blob_content h b) (concat (map (moved_by moved b h h1) (select_operations waiting h)))
      (blob_content h1 b)"
    using loop_joins [OF assms(1) tracks_refl [OF assms(2)] _ _ l] by blast
  moreover have "moved_by moved b h h1 = moved_by moved b h h'" "blob_content h1 b = blob_content h' b"
    using same by (auto simp: moved_by_def fun_eq_iff intro: blob_content_cong)
  ultimately show ?thesis by simp
qed

lemma pass_quiet:
  assumes "limits_ok c" "hub_inv c W h" "quiet b h" "run_pass (turn c) waiting h = (r, h')"
  shows "quiet b h' \<and> bt_get (hub_resources h') b = bt_get (hub_resources h) b"
proof -
  obtain q h1 where l: "pass_loop (turn c) (select_operations waiting h) h = (q, h1)"
    and same: "hub_operations h' = hub_operations h1" "hub_resources h' = hub_resources h1"
    using run_pass_loop [OF assms(4)] .
  have "\<forall>t\<in>set (select_operations waiting h). \<exists>op. bt_get (hub_operations h) t = Some op \<and> waiting op"
    by (auto simp: select_operations_def split: option.splits)
  from loop_quiet [OF assms(1) tracks_refl [OF assms(2)] distinct_select [OF assms(2)] this assms(3) l]
  show ?thesis using same quiet_cong [OF same(1)] by simp
qed

end

interpretation streamed_write: streamed_pass write_turn pending_write bytes_written "\<lambda>xs m ys. ys = xs @ m"
proof
  fix h t op b c x h'
  assume a: "bt_get (hub_operations h) t = Some op" "pending_write op" "op_created_resource op \<noteq> Some b"
    "write_turn c t h = (Inr x, h')"
  from write_turn_moves [OF this] a(1)
  show "blob_content h' b = blob_content h b @ moved_by bytes_written b h h' t
      \<and> (op_resource op \<noteq> Some b \<longrightarrow> bt_get (hub_resources h') b = bt_get (hub_resources h) b)
      \<and> (\<exists>op'. bt_get (hub_operations h') t = Some op' \<and> (op' = op \<or> \<not> waits op'))"
    by (auto simp: moved_by_def)
qed (simp_all add: pending_write_def waits_def)

interpretation streamed_read: streamed_pass read_turn pending_read bytes_read "\<lambda>xs m ys. xs = m @ ys"
proof
  fix h t op b c x h'
  assume a: "bt_get (hub_operations h) t = Some op" "pending_read op" "op_created_resource op \<noteq> Some b"
    "read_turn c t h = (Inr x, h')"
  from read_turn_moves [OF this] a(1)
  show "blob_content h b = moved_by bytes_read b h h' t @ blob_content h' b
      \<and> (op_resource op \<noteq> Some b \<longrightarrow> bt_get (hub_resources h') b = bt_get (hub_resources h) b)
      \<and> (\<exists>op'. bt_get (hub_operations h') t = Some op' \<and> (op' = op \<or> \<not> waits op'))"
    by (auto simp: moved_by_def)
qed (simp_all add: pending_read_def waits_def)

section \<open>Blobs the passes leave alone\<close>

lemma drive_reads_quiet:
  assumes "limits_ok c" "hub_inv c W h" "quiet b h" "drive_blob_reads c h = (r, h')"
  shows "quiet b h' \<and> bt_get (hub_resources h') b = bt_get (hub_resources h) b \<and> hub_inv c W h'"
proof -
  obtain q where "run_pass (read_turn c) pending_read h = (q, h')"
    using assms(4) by (auto simp: drive_blob_reads_def drive_blob_read_pass_def s_bind_def s_return_def
        split: prod.splits sum.splits)
  from streamed_read.pass_quiet [OF assms(1-3) this]
    tracks_drive_reads [OF assms(1) tracks_refl [OF assms(2)]] assms(4)
  show ?thesis by (simp add: tracks_def)
qed

end
