(* ===== verification/Hub_Commit.thy ===== *)
theory Hub_Commit
  imports Hub_Stream
begin

text \<open>
  Commits, end to end and among other threads: the copying loop ends, the file it filled holds
  exactly the bytes the blob held when the commit began, and the destination is either replaced by
  that file, with the operation completed and both resources revoked, or left as it was.
\<close>

section \<open>What a commit relies on\<close>

text \<open>
  What the other threads may do to the hub while the commit of \<open>b\<close> does not hold the mutex: they
  keep the invariant, let everything evolve as the machine does, and leave the value of a blob that
  is being committed alone.  They may revoke it.
\<close>

definition keeps :: "hub_config \<Rightarrow> token \<Rightarrow> hub \<Rightarrow> hub \<Rightarrow> bool" where
  "keeps c b h h' \<longleftrightarrow> follows c {} h h' \<and> spares b h h'"

definition rely :: "hub_config \<Rightarrow> token \<Rightarrow> (hub \<Rightarrow> hub) \<Rightarrow> bool" where
  "rely c b g \<longleftrightarrow> (\<forall>h. hub_inv c {} h \<longrightarrow> keeps c b h (g h))"

lemma other_runs_keep:
  assumes "other_runs c b w w'" "world_inv c w"
  shows "keeps c b (wd_hub w) (wd_hub w')"
  using other_runs_spares [OF assms] hub_runs_tracks [OF other_runs_runs [OF assms(1)] assms(2)]
  by (simp add: keeps_def)

text \<open>Every method of the hub but the commit of \<open>b\<close> itself may run in between.\<close>

lemma run_rely:
  assumes "limits_ok c" "is_run c g"
  shows "rely c b g"
  unfolding rely_def
proof (intro allI impI)
  fix h assume h: "hub_inv c {} h"
  let ?w = "\<lparr>wd_hub = h, wd_submitted = {}, wd_committing = {}\<rparr>"
  obtain w' where "calm_runs c ?w w'" "wd_hub w' = g h" using assms(2) unfolding is_run_def by force
  then have "other_runs c b ?w w'" "wd_hub w' = g h" using runs_mono by blast+
  with other_runs_keep [of c b ?w w'] assms(1) h show "keeps c b h (g h)" by (simp add: world_inv_def)
qed

lemma keeps_trans:
  assumes "hub_inv c {} h1" "keeps c b h1 h2" "keeps c b h2 h3"
  shows "keeps c b h1 h3"
proof -
  have "follows c {} h1 h3" using assms(2,3) by (auto simp: keeps_def tracks_def intro: changes_trans)
  then show ?thesis using assms spares_trans [of c "{}" h1 False "{}" h2 b False "{}" h3] by (simp add: keeps_def)
qed

lemma tracks_keeps: "hub_inv c {} h \<Longrightarrow> tracks c {} h h' \<Longrightarrow> keeps c b h h'"
  by (simp add: keeps_def tracks_follows tracks_spares)

lemma follows_trans: "follows c W h1 h2 \<Longrightarrow> follows c W h2 h3 \<Longrightarrow> follows c W h1 h3"
  by (auto simp: tracks_def intro: changes_trans)

text \<open>The blob being committed holds \<open>xs\<close>, unless it was revoked.\<close>

definition held :: "hub_config \<Rightarrow> token \<Rightarrow> u8 list \<Rightarrow> hub \<Rightarrow> bool" where
  "held c b xs h \<longleftrightarrow> hub_inv c {} h \<and> b \<le> hub_next_opaque_token h
     \<and> (\<forall>r. bt_get (hub_resources h) b = Some r \<longrightarrow>
          rs_committing r \<and> (\<exists>d. rs_value r = Blob d True \<and> dq_bytes d = xs))"

lemma held_inv: "held c b xs h \<Longrightarrow> hub_inv c {} h"
  by (simp add: held_def)

lemma keeps_held:
  assumes "held c b xs h" "keeps c b h h'"
  shows "held c b xs h'"
proof -
  have F: "follows c {} h h'" and S: "spares b h h'" using assms(2) by (simp_all add: keeps_def)
  have le: "b \<le> hub_next_opaque_token h" using assms(1) by (simp add: held_def)
  have "rs_committing r' \<and> (\<exists>d. rs_value r' = Blob d True \<and> dq_bytes d = xs)"
    if r': "bt_get (hub_resources h') b = Some r'" for r'
  proof -
    obtain r where r: "bt_get (hub_resources h) b = Some r" using follows_kept [OF F r' le] by blast
    then have "rs_committing r \<and> (\<exists>d. rs_value r = Blob d True \<and> dq_bytes d = xs)"
      using assms(1) by (simp add: held_def)
    moreover from this S r r' have "rs_committing r' \<and> rs_value r' = rs_value r"
      unfolding spares_def by blast
    ultimately show ?thesis by simp
  qed
  moreover have "b \<le> hub_next_opaque_token h'"
    using le F evolvesD(1) [of False h h'] by (simp add: tracks_def)
  ultimately show ?thesis using tracks_inv [OF F] by (simp add: held_def)
qed

lemma rely_held: "rely c b g \<Longrightarrow> held c b xs h \<Longrightarrow> held c b xs (g h)"
  using keeps_held held_inv by (auto simp: rely_def)

lemma rely_follows: "rely c b g \<Longrightarrow> hub_inv c {} h \<Longrightarrow> follows c {} h (g h)"
  by (simp add: rely_def keeps_def)

section \<open>Borrowing a chunk\<close>

lemma drop_chunk_tracks:
  assumes "limits_ok c" "tracks c W h0 h"
  shows "tracks c W h0 (drop_native_blob_chunk c chunk h)"
proof -
  let ?h1 = "release_chunk_section chunk h"
  obtain h2 where 2: "drive_blob_writes c ?h1 = (Inr (), h2)" "tracks c W h0 h2"
    using tracks_drive_writes [OF assms(1) tracks_release_chunk [OF assms(2)]] by blast
  obtain h3 where "drive_blob_reads c h2 = (Inr (), h3)" "tracks c W h0 h3"
    using tracks_drive_reads [OF assms(1) 2(2)] by blast
  with 2 show ?thesis by (simp add: drop_native_blob_chunk_def s_ignore_def)
qed

lemma drop_chunk_held:
  "limits_ok c \<Longrightarrow> held c b xs h \<Longrightarrow> held c b xs (drop_native_blob_chunk c chunk h)"
  by (meson drop_chunk_tracks held_inv keeps_held tracks_keeps tracks_refl)

lemma drop_chunk_follows:
  "limits_ok c \<Longrightarrow> hub_inv c {} h \<Longrightarrow> follows c {} h (drop_native_blob_chunk c chunk h)"
  by (meson drop_chunk_tracks tracks_follows tracks_refl)

text \<open>A read of the commit takes a piece from the front of what the blob holds.\<close>

lemma commit_read_section:
  assumes lim: "limits_ok c" and held: "held c b xs h"
    and call: "read_chunk_section c store b m True h = (q, h')"
  shows "follows c {} h h'" "q = Inr chunk \<Longrightarrow> nc_bytes chunk = take m xs \<and> held c b (drop m xs) h'"
proof -
  show F: "follows c {} h h'"
    using tracks_read_chunk_section [OF lim tracks_refl [OF held_inv [OF held]], of False True store b m] call
    by simp
  assume ok: "q = Inr chunk"
  with call obtain r d sealed where r: "bt_get (hub_resources h) b = Some r" "rs_value r = Blob d sealed"
    by (auto simp: read_chunk_section_def Let_def split: option.splits sum.splits if_splits ResourceValue.splits)
  with held have d: "rs_committing r" "sealed" "dq_bytes d = xs" by (auto simp: held_def)
  have cut: "take (min m (length ys)) ys = take m ys" for ys :: "u8 list" by (simp add: min_def)
  have "nc_bytes chunk = take m xs \<and> bt_get (hub_resources h') b = Some (drain_slot (min m (length xs)) r)"
    using call ok r d
    by (auto simp: read_chunk_section_def Let_def update_resource_def cut split: sum.splits if_splits)
  moreover have "rs_committing (drain_slot n r)
      \<and> (\<exists>d. rs_value (drain_slot n r) = Blob d True \<and> dq_bytes d = drop n xs)" for n
    using r d by (simp add: drain_slot_def Let_def vec_deque_new_def)
  moreover have "drop (min m (length xs)) xs = drop m xs" by (simp add: min_def)
  moreover have "b \<le> hub_next_opaque_token h'"
    using follows_token(2) [OF F held_inv [OF held] r(1)] .
  ultimately show "nc_bytes chunk = take m xs \<and> held c b (drop m xs) h'"
    using tracks_inv [OF F] unfolding held_def by (metis option.inject)
qed

lemma commit_read:
  assumes lim: "limits_ok c" and held: "held c b xs h"
    and call: "read_blob_chunk c store b m True h = (q, h')"
  shows "follows c {} h h'" "q = Inr chunk \<Longrightarrow> nc_bytes chunk = take m xs \<and> held c b (drop m xs) h'"
proof -
  obtain z h1 where z: "read_chunk_section c store b m True h = (z, h1)"
    by (cases "read_chunk_section c store b m True h")
  note S = commit_read_section [OF lim held z]
  obtain h2 where d: "drive_blob_writes c h1 = (Inr (), h2)" "tracks c {} h1 h2"
    using tracks_drive_writes [OF lim tracks_refl [OF tracks_inv [OF S(1)]]] by blast
  have "h' = h \<and> q = Inl Quota \<or> h' = h1 \<and> (\<exists>e. q = Inl e) \<or> h' = h2 \<and> q = z"
    using call z d(1)
    by (auto simp: read_blob_chunk_def s_bind_def s_lift_def s_catch_def s_return_def split: if_splits sum.splits)
  moreover have K: "keeps c b h1 h2" using tracks_keeps [OF tracks_inv [OF S(1)] d(2)] .
  ultimately show "follows c {} h h'"
    using S(1) tracks_refl [OF held_inv [OF held]] follows_trans [OF S(1)] by (auto simp: keeps_def)
  assume "q = Inr chunk"
  with \<open>h' = h \<and> q = Inl Quota \<or> h' = h1 \<and> (\<exists>e. q = Inl e) \<or> h' = h2 \<and> q = z\<close>
  have "h' = h2" "z = Inr chunk" by auto
  with S(2) K keeps_held show "nc_bytes chunk = take m xs \<and> held c b (drop m xs) h'" by blast
qed

section \<open>The copying loop\<close>

lemma on_hub_eq: "m h = (r, h') \<Longrightarrow> on_hub m (h, fs) = (map_err hub_io_error r, (h', fs))"
  by (simp add: on_hub_def)

lemma meanwhile_eq [simp]: "meanwhile a p (h, fs) = (ca_others a p h, fs)"
  by (simp add: meanwhile_def)

lemma check_output_pure: "\<exists>k. check_output_operation store b outp operation h = (k, h)"
  by (simp add: check_output_operation_def)

lemma copy_loop_Suc:
  assumes "check_output_operation store b outp operation (ca_others a (Before_Check n) h) = (k, h1)"
    and "read_blob_chunk c store b (maximum_chunk_bytes (hc_blob_limits c)) True (ca_others a (Before_Read n) h1)
      = (q, h2)"
  shows "copy_loop (Suc rounds) c a store b outp operation temporary n (h, fs) =
    (case k of Inl e \<Rightarrow> Some (Inl (hub_io_error e), (h1, fs))
     | Inr _ \<Rightarrow> case q of Inl e \<Rightarrow> Some (Inl (hub_io_error e), (h2, fs))
       | Inr chunk \<Rightarrow>
           if nc_bytes chunk = [] then Some (Inr (), (drop_native_blob_chunk c chunk h2, fs))
           else case write_temporary a n temporary (nc_bytes chunk) (ca_others a (During_Write n) h2, fs) of
                  (Inl e, w) \<Rightarrow> Some (Inl e, (drop_native_blob_chunk c chunk (fst w), snd w))
                | (Inr _, w) \<Rightarrow> copy_loop rounds c a store b outp operation temporary (Suc n)
                    (drop_native_blob_chunk c chunk (fst w), snd w))"
  using on_hub_eq [of "check_output_operation store b outp operation", OF assms(1), of fs]
    on_hub_eq [of "read_blob_chunk c store b (maximum_chunk_bytes (hc_blob_limits c)) True", OF assms(2), of fs]
  by (cases k; cases q) (simp_all add: map_err_def)

text \<open>The ways one round goes, whatever the other threads do meanwhile.\<close>

lemma copy_loop_round:
  assumes lim: "limits_ok c" and others: "\<forall>p. rely c b (ca_others a p)" and held: "held c b xs h"
    and temp: "fh_files fs temporary = Some content"
  obtains (stopped) e h' part where "follows c {} h h'"
      "\<And>rounds. copy_loop (Suc rounds) c a store b outp operation temporary n (h, fs)
         = Some (Inl e, h', fs\<lparr>fh_files := (fh_files fs)(temporary \<mapsto> content @ part)\<rparr>)"
  | (ended) h' where "xs = []" "held c b [] h'" "follows c {} h h'"
      "\<And>rounds. copy_loop (Suc rounds) c a store b outp operation temporary n (h, fs) = Some (Inr (), h', fs)"
  | (more) part rest h' where "xs = part @ rest" "part \<noteq> []" "held c b rest h'" "follows c {} h h'"
      "\<And>rounds. copy_loop (Suc rounds) c a store b outp operation temporary n (h, fs)
         = copy_loop rounds c a store b outp operation temporary (Suc n)
             (h', fs\<lparr>fh_files := (fh_files fs)(temporary \<mapsto> content @ part)\<rparr>)"
proof -
  let ?m = "maximum_chunk_bytes (hc_blob_limits c)"
  have m: "0 < ?m" using lim by (simp add: limits_ok_def)
  note R = others [rule_format]
  let ?h1 = "ca_others a (Before_Check n) h" and ?h2 = "ca_others a (Before_Read n) (ca_others a (Before_Check n) h)"
  obtain k where k: "check_output_operation store b outp operation ?h1 = (k, ?h1)" using check_output_pure by blast
  obtain q h3 where q: "read_blob_chunk c store b ?m True ?h2 = (q, h3)" by (cases "read_blob_chunk c store b ?m True ?h2")
  note L = copy_loop_Suc [OF k q, of _ temporary fs]
  have 1: "held c b xs ?h1" "follows c {} h ?h1"
    using rely_held [OF R held] rely_follows [OF R held_inv [OF held]] by blast+
  have 2: "held c b xs ?h2" "follows c {} h ?h2"
    using rely_held [OF R 1(1)] follows_trans [OF 1(2) rely_follows [OF R held_inv [OF 1(1)]]] by blast+
  note C = commit_read [OF lim 2(1) q]
  have 3: "follows c {} h h3" using follows_trans [OF 2(2) C(1)] .
  have same: "fs = fs\<lparr>fh_files := (fh_files fs)(temporary \<mapsto> content @ [])\<rparr>"
    using temp by (simp add: fun_upd_idem)
  consider (no) e where "k = Inl e" | (unread) e where "k = Inr ()" "q = Inl e"
    | (chunk) chunk where "k = Inr ()" "q = Inr chunk" by (cases k; cases q) auto
  then show thesis
  proof cases
    case (no e)
    with L 1(2) same show thesis by (intro stopped [of ?h1 "hub_io_error e" "[]"]) simp_all
  next
    case (unread e)
    with L 3 same show thesis by (intro stopped [of h3 "hub_io_error e" "[]"]) simp_all
  next
    case (chunk chunk)
    note N = C(2) [OF chunk(2)]
    let ?h4 = "ca_others a (During_Write n) h3"
    have 4: "held c b (drop ?m xs) ?h4" "follows c {} h ?h4"
      using rely_held [OF R conjunct2 [OF N]] follows_trans [OF 3 rely_follows [OF R tracks_inv [OF 3]]] by blast+
    let ?h5 = "drop_native_blob_chunk c chunk ?h4"
    have 5: "held c b (drop ?m xs) ?h5" "follows c {} h ?h5"
      using drop_chunk_held [OF lim 4(1)] follows_trans [OF 4(2) drop_chunk_follows [OF lim held_inv [OF 4(1)]]] by blast+
    show thesis
    proof (cases "nc_bytes chunk = []")
      case True
      then have "xs = []" using N m by simp
      then show thesis
        using L chunk True N drop_chunk_held [OF lim conjunct2 [OF N]]
          follows_trans [OF 3 drop_chunk_follows [OF lim tracks_inv [OF 3]]]
        by (intro ended [of "drop_native_blob_chunk c chunk h3"]) simp_all
    next
      case False
      show thesis
      proof (cases "ca_write a n")
        case None
        then show thesis
          using L chunk False 5 N temp
          by (intro more [of "nc_bytes chunk" "drop ?m xs" ?h5]) (simp_all add: write_temporary_def set_file_def)
      next
        case (Some j)
        then show thesis
          using L chunk False 5 temp
          by (intro stopped [of ?h5 HostFailure "take j (nc_bytes chunk)"]) (simp_all add: write_temporary_def set_file_def)
      qed
    qed
  qed
qed

text \<open>Enough rounds: one for every byte and one to see the end.\<close>

lemma copy_loop_ends:
  assumes "limits_ok c" "\<forall>p. rely c b (ca_others a p)" "held c b xs h" "length xs < rounds"
    "fh_files fs temporary = Some content"
  shows "\<exists>r h' fs'. copy_loop rounds c a store b outp operation temporary n (h, fs) = Some (r, h', fs')"
  using assms(3-)
proof (induction rounds arbitrary: h fs n xs content)
  case (Suc rounds)
  from assms(1,2) Suc.prems(1,3) show ?case
  proof (cases rule: copy_loop_round [where outp = outp and store = store and operation = operation and n = n])
    case (more part rest h')
    have "length rest < rounds" using more(1,2) Suc.prems(2) by (cases part) auto
    from Suc.IH [OF more(3) this] show ?thesis unfolding more(5) by simp
  qed (simp_all del: copy_loop.simps)
qed simp

text \<open>The temporary file receives the bytes of the blob; no other file is touched.\<close>

lemma copy_loop_copies:
  assumes "limits_ok c" "\<forall>p. rely c b (ca_others a p)" "held c b xs h"
    and "fh_files fs temporary = Some content"
    and "copy_loop rounds c a store b outp operation temporary n (h, fs) = Some (r, h', fs')"
  shows "follows c {} h h' \<and> (\<exists>copied. fh_files fs' = (fh_files fs)(temporary \<mapsto> content @ copied)
    \<and> (r = Inr () \<longrightarrow> copied = xs \<and> held c b [] h'))"
  using assms(3-)
proof (induction rounds arbitrary: h fs n content xs)
  case (Suc rounds)
  from assms(1,2) Suc.prems(1,2) show ?case
  proof (cases rule: copy_loop_round [where outp = outp and store = store and operation = operation and n = n])
    case (stopped e h2 part)
    with Suc.prems(3) show ?thesis by (intro conjI exI [of _ part]) (auto simp del: copy_loop.simps)
  next
    case (ended h2)
    with Suc.prems(2,3) show ?thesis by (auto simp del: copy_loop.simps)
  next
    case (more part rest h2)
    let ?fs = "fs\<lparr>fh_files := (fh_files fs)(temporary \<mapsto> content @ part)\<rparr>"
    have "fh_files ?fs temporary = Some (content @ part)" by simp
    from Suc.IH [OF more(3) this Suc.prems(3) [unfolded more(5)]]
    obtain copied where F: "follows c {} h2 h'" and "fh_files fs' = (fh_files ?fs)(temporary \<mapsto> (content @ part) @ copied)"
      "r = Inr () \<longrightarrow> copied = rest \<and> held c b [] h'" by blast
    then show ?thesis
      using more(1) follows_trans [OF more(4) F] by (intro conjI exI [of _ "part @ copied"]) simp_all
  qed
qed simp

section \<open>The commit point\<close>

lemma terminal_locked_gone:
  "terminal_locked t r h = (n, h') \<Longrightarrow> bt_get (hub_resources h) b = None \<Longrightarrow> bt_get (hub_resources h') b = None"
  by (auto simp: terminal_locked_def Let_def update_operation_def update_resource_def release_reservation_def
      split: option.splits if_splits)

lemma terminal_each_gone:
  "terminal_each ts r h = (n, h') \<Longrightarrow> bt_get (hub_resources h) b = None \<Longrightarrow> bt_get (hub_resources h') b = None"
proof (induction ts arbitrary: h n h')
  case (Cons t ts)
  obtain m h1 where m: "terminal_locked t r h = (m, h1)" by (cases "terminal_locked t r h")
  obtain q h2 where q: "terminal_each ts r h1 = (q, h2)" by (cases "terminal_each ts r h1")
  have "h' = h1 \<or> h' = h2"
    using Cons.prems(1) m q by (auto simp: s_bind_def s_return_def split: sum.splits)
  with Cons.IH [OF q] terminal_locked_gone [OF m Cons.prems(2)] show ?case by auto
qed (simp add: s_return_def)

lemma close_resource_gone:
  assumes "close_resource_with_terminal_locked t k h = (n, h')"
  shows "bt_get (hub_resources h') t = None"
    "bt_get (hub_resources h) b = None \<Longrightarrow> bt_get (hub_resources h') b = None"
proof -
  have "bt_get (hub_resources h') t = None \<and> (bt_get (hub_resources h) b = None \<longrightarrow> bt_get (hub_resources h') b = None)"
  proof (cases "bt_get (hub_resources h) t")
    case None
    with assms have "h' = h" by (simp add: close_resource_with_terminal_locked_def)
    with None show ?thesis by simp
  next
    case (Some r)
    let ?h1 = "bury t (without_resource t r h)"
    obtain m h2 where l: "terminal_each (select_operations (\<lambda>op. op_resource op = Some t \<and> (op_terminal op = None \<or> ready_read op)) ?h1)
        \<lparr>tr_terminal = k, tr_resource = None\<rparr> ?h1 = (m, h2)" by (rule prod.exhaust)
    have "hub_resources h' = hub_resources h2"
      using assms l unfolding close_resource_unfold [OF Some] by auto
    with terminal_each_gone [OF l] show ?thesis by (simp add: without_resource_def)
  qed
  then show "bt_get (hub_resources h') t = None"
    "bt_get (hub_resources h) b = None \<Longrightarrow> bt_get (hub_resources h') b = None" by simp_all
qed

lemma settle_commit_gone:
  assumes "settle_commit b outp operation h = (Inr u, h')"
  shows "bt_get (hub_resources h') b = None" "bt_get (hub_resources h') outp = None"
proof -
  obtain h1 h2 h3 n2 n3 where "close_resource_with_terminal_locked b T_Closed h1 = (n2, h2)"
    "close_resource_with_terminal_locked outp T_Closed h2 = (n3, h3)" "hub_resources h' = hub_resources h3"
    using assms by (auto simp: settle_commit_def s_Inr_iffs notify_all_def)
  from close_resource_gone [OF this(1)] close_resource_gone [OF this(2)] this(3)
  show "bt_get (hub_resources h') b = None" "bt_get (hub_resources h') outp = None" by simp_all
qed

text \<open>After the last check nothing of the commit point can fail but the rename itself.\<close>

lemma finish_commit_cases:
  assumes R: "\<forall>p. rely c b (ca_others a p)" and held: "held c b xs h"
    and call: "finish_commit a store b outp operation temporary (h, fs) = (r, h', fs')"
  obtains (refused) e where "r = Inl e" "fs' = fs" "follows c {} h h'"
  | (replaced) h2 destination content where "r = Inr ()" "follows c {} h h2" "follows c {} h2 h'"
      "check_replace store b outp operation h2 = Inr destination" "fh_files fs temporary = Some content"
      "fh_files fs' = (fh_files fs)(temporary := None, destination \<mapsto> content)"
      "settle_commit b outp operation h2 = (Inr (), h')"
proof -
  note R = R [rule_format]
  let ?h1 = "ca_others a Before_Last_Check h"
  let ?h2 = "ca_others a During_Sync ?h1"
  have 1: "held c b xs ?h1" "follows c {} h ?h1"
    using rely_held [OF R held] rely_follows [OF R held_inv [OF held]] by blast+
  have 2: "held c b xs ?h2" "follows c {} h ?h2"
    using rely_held [OF R 1(1)] follows_trans [OF 1(2) rely_follows [OF R held_inv [OF 1(1)]]] by blast+
  obtain k where k: "check_output_operation store b outp operation ?h1 = (k, ?h1)" using check_output_pure by blast
  note K = on_hub_eq [of "check_output_operation store b outp operation", OF k, of fs]
  have g: "(case k of Inl e \<Rightarrow> (Inl (hub_io_error e), ?h1, fs)
      | Inr _ \<Rightarrow> if \<not> ca_sync a then (Inl HostFailure, ?h1, fs)
                 else replace_output_operation a store b outp temporary operation (?h2, fs)) = (r, h', fs')"
    using call K by (cases k) (simp_all add: finish_commit_def s_bind_def map_err_def split: if_splits)
  show thesis
  proof (cases "k = Inr () \<and> ca_sync a \<and> (\<exists>destination. check_replace store b outp operation ?h2 = Inr destination)
      \<and> ca_replace a \<and> (\<exists>content. fh_files fs temporary = Some content)")
    case False
    then have "(\<exists>e. r = Inl e) \<and> fs' = fs \<and> (h' = ?h1 \<or> h' = ?h2)"
      using g by (cases k) (auto simp: replace_output_operation_def fs_replace_file_def s_bind_def
          split: if_splits sum.splits option.splits)
    with refused 1(2) 2(2) show thesis by blast
  next
    case True
    then obtain destination content where t: "k = Inr ()" "ca_sync a"
      "check_replace store b outp operation ?h2 = Inr destination"
      "ca_replace a" "fh_files fs temporary = Some content" by blast
    note C = check_replace_live [OF held_inv [OF 2(1)] t(3)]
    obtain s where s: "bt_get (hub_resources ?h2) b = Some s" using C(1) by blast
    then have "rs_committing s" using 2(1) by (simp add: held_def)
    then obtain h3 where h3: "settle_commit b outp operation ?h2 = (Inr (), h3)" "tracks c {} ?h2 h3"
      using tracks_settle_commit [OF tracks_refl [OF held_inv [OF 2(1)]], of operation b s outp] C s by auto
    have "r = Inr () \<and> h' = h3 \<and> fh_files fs' = (fh_files fs)(temporary := None, destination \<mapsto> content)"
      using g t h3(1) by (auto simp: replace_output_operation_def fs_replace_file_def s_bind_def set_file_def
          on_hub_def map_err_def)
    with t h3 2(2) tracks_follows [OF h3(2)] replaced [of ?h2 destination content] show thesis by simp
  qed
qed

section \<open>Temporary files\<close>

lemma temporary_name_longer: "temporary_name name n \<noteq> name"
  by (simp add: temporary_name_def temporary_prefix_def)

text \<open>The sibling of a destination with a number.\<close>

definition temporary_sibling :: "hub_path \<Rightarrow> hub_path \<Rightarrow> bool" where
  "temporary_sibling destination temporary \<longleftrightarrow>
     (\<exists>n. temporary = butlast destination @ [temporary_name (last destination) n])"

lemma temporary_sibling_other:
  assumes "temporary_sibling destination temporary" "destination \<noteq> []"
  shows "temporary \<noteq> destination"
  using assms temporary_name_longer unfolding temporary_sibling_def by (metis append_butlast_last_id last_snoc)

lemma next_token_keeps:
  assumes "next_token h = (q, h')" "hub_inv c {} h"
  shows "keeps c b h h'"
  using tracks_keeps [OF assms(2)] tracks_next_token [OF tracks_refl [OF assms(2)] assms(1)] by blast

lemma try_temporary_path_fresh:
  assumes R: "\<forall>p. rely c b (ca_others a p)" and "hub_inv c {} h"
    and "try_temporary_path tries a parent name (h, fs) = (r, h', fs')"
  shows "keeps c b h h' \<and> fs' = fs
    \<and> (\<forall>temporary. r = Inr temporary \<longrightarrow>
         fh_files fs temporary = None \<and> (\<exists>n. temporary = parent @ [temporary_name name n]))"
  using assms(2,3)
proof (induction tries arbitrary: h)
  case 0
  then show ?case using tracks_keeps [OF _ tracks_refl] by (auto simp: s_lift_def)
next
  case (Suc tries)
  let ?h1 = "ca_others a (Before_Attempt tries) h"
  obtain q h2 where q: "next_token ?h1 = (q, h2)" by (cases "next_token ?h1")
  have K1: "keeps c b h ?h1" using R Suc.prems(1) by (simp add: rely_def)
  then have I1: "hub_inv c {} ?h1" using tracks_inv by (auto simp: keeps_def)
  have K2: "keeps c b h h2" using keeps_trans [OF Suc.prems(1) K1 next_token_keeps [OF q I1]] .
  then have I2: "hub_inv c {} h2" using tracks_inv by (auto simp: keeps_def)
  show ?case
  proof (cases q)
    case (Inl e)
    with Suc.prems q K2 show ?thesis by (auto simp: s_bind_def on_hub_def map_err_def)
  next
    case (Inr n)
    with Suc.prems q have "(if fh_files fs (parent @ [temporary_name name n]) = None
        then (Inr (parent @ [temporary_name name n]), h2, fs)
        else try_temporary_path tries a parent name (h2, fs)) = (r, h', fs')"
      by (simp add: s_bind_def on_hub_def map_err_def Let_def)
    with Suc.IH [OF I2] K2 keeps_trans [OF Suc.prems(1) K2] show ?thesis by (auto split: if_splits)
  qed
qed

abbreviation open_temporary :: "commit_answers \<Rightarrow> hub_path \<Rightarrow> (output_world, ErrorKind, hub_path) state_result" where
  "open_temporary a destination \<equiv> s_bind (temporary_output_path a destination) (\<lambda>temporary.
     s_bind (create_temporary a temporary) (\<lambda>_. s_return temporary))"

lemma open_temporary_cases:
  assumes R: "\<forall>p. rely c b (ca_others a p)" and inv: "hub_inv c {} h"
    and call: "open_temporary a destination (h, fs) = (r, h', fs')"
  shows "keeps c b h h'" "r = Inl e \<Longrightarrow> fs' = fs"
    "r = Inr temporary \<Longrightarrow> fh_files fs temporary = None \<and> temporary_sibling destination temporary
       \<and> destination \<noteq> [] \<and> fs' = fs\<lparr>fh_files := (fh_files fs)(temporary \<mapsto> [])\<rparr>"
proof -
  obtain q h1 fs1 where q: "temporary_output_path a destination (h, fs) = (q, h1, fs1)" by (rule prod_cases3)
  have P: "keeps c b h h1 \<and> fs1 = fs \<and> (\<forall>t. q = Inr t \<longrightarrow>
      fh_files fs t = None \<and> temporary_sibling destination t \<and> destination \<noteq> [])"
  proof (cases "destination = [] \<or> last destination = [0x2E, 0x2E]")
    case True
    with q tracks_keeps [OF inv tracks_refl [OF inv]] show ?thesis
      by (auto simp: temporary_output_path_def path_parent_def path_file_name_def s_bind_def s_lift_def
          map_err_def ok_or_def split: if_splits)
  next
    case False
    then have "try_temporary_path 16 a (butlast destination) (last destination) (h, fs) = (q, h1, fs1)"
      using q by (simp add: temporary_output_path_def path_parent_def path_file_name_def s_bind_def s_lift_def
          map_err_def ok_or_def)
    from try_temporary_path_fresh [OF R inv this] False show ?thesis by (auto simp: temporary_sibling_def)
  qed
  have "h' = h1 \<and> (\<forall>e. r = Inl e \<longrightarrow> fs' = fs)
    \<and> (\<forall>t. r = Inr t \<longrightarrow> q = Inr t \<and> fs' = fs\<lparr>fh_files := (fh_files fs)(t \<mapsto> [])\<rparr>)"
    using call P q
    by (cases q) (auto simp: s_bind_def s_return_def create_temporary_def set_file_def split: if_splits)
  with P show "keeps c b h h'" "r = Inl e \<Longrightarrow> fs' = fs"
    "r = Inr temporary \<Longrightarrow> fh_files fs temporary = None \<and> temporary_sibling destination temporary
       \<and> destination \<noteq> [] \<and> fs' = fs\<lparr>fh_files := (fh_files fs)(temporary \<mapsto> [])\<rparr>"
    by auto
qed

section \<open>The whole commit\<close>

lemma follows_gone:
  assumes "follows c W h h'" "bt_get (hub_resources h) x = None" "x \<le> hub_next_opaque_token h"
  shows "bt_get (hub_resources h') x = None"
proof (cases "bt_get (hub_resources h') x")
  case (Some r')
  from follows_kept [OF assms(1) this assms(3)] assms(2) show ?thesis by auto
qed

text \<open>The destination of an output never changes.\<close>

lemma value_evolves_output: "value_evolves v (ExactOutput p) \<longleftrightarrow> v = ExactOutput p"
  by (cases v) auto

lemma exact_output_stays:
  assumes F: "follows c W h h'" and inv: "hub_inv c W' h"
    and "resource_value h' t = Some (ExactOutput p)" "bt_get (hub_resources h) t \<noteq> None"
  shows "resource_value h t = Some (ExactOutput p)"
proof -
  obtain r' where r': "bt_get (hub_resources h') t = Some r'" "rs_value r' = ExactOutput p"
    using assms(3) by (auto simp: resource_value_def)
  obtain r0 where "bt_get (hub_resources h) t = Some r0" using assms(4) by blast
  from follows_kept [OF F r'(1) follows_token(1) [OF F inv this]]
  obtain r where "bt_get (hub_resources h) t = Some r" "resource_ages r r'" .
  with r'(2) show ?thesis by (simp add: resource_value_def resource_change_def value_evolves_output)
qed

lemma check_replace_path:
  "check_replace store b outp operation h = Inr destination \<Longrightarrow> resource_value h outp = Some (ExactOutput destination)"
  by (auto simp: check_replace_def check_commit_resource_def and_then_def ok_or_def resource_value_def
      split: if_splits option.splits sum.splits ResourceValue.splits)

lemma exact_path_value:
  "exact_output_path store outp h = (Inr destination, h') \<Longrightarrow> resource_value h outp = Some (ExactOutput destination)"
  by (auto simp: exact_output_path_def and_then_def resource_value_def
      split: option.splits sum.splits ResourceValue.splits)

text \<open>What a failed commit may leave behind: nothing, or the temporary file that could not be removed.\<close>

definition left_over :: "commit_answers \<Rightarrow> hub_path \<Rightarrow> file_host \<Rightarrow> file_host \<Rightarrow> bool" where
  "left_over a destination fs fs' \<longleftrightarrow>
     fh_files fs' = fh_files fs
     \<or> \<not> ca_remove a \<and> (\<exists>temporary content. temporary_sibling destination temporary \<and> temporary \<noteq> destination
          \<and> fh_files fs temporary = None \<and> fh_files fs' = (fh_files fs)(temporary \<mapsto> content))"

lemma stream_and_replace_files:
  assumes lim: "limits_ok c" and R: "\<forall>p. rely c b (ca_others a p)" and held: "held c b xs h"
    and path: "resource_value h0 outp = Some (ExactOutput destination)" "follows c {} h0 h" "hub_inv c {} h0"
    and temp: "temporary_sibling destination temporary" "temporary \<noteq> destination" "fh_files fs0 temporary = None"
      "fs = fs0\<lparr>fh_files := (fh_files fs0)(temporary \<mapsto> [])\<rparr>"
    and call: "stream_and_replace rounds c a store b outp operation temporary (h, fs) = Some (r, h', fs')"
  shows "follows c {} h h' \<and> (r \<noteq> Inr () \<and> left_over a destination fs0 fs'
    \<or> r = Inr () \<and> fh_files fs' = (fh_files fs0)(destination \<mapsto> xs)
      \<and> bt_get (hub_resources h') b = None \<and> bt_get (hub_resources h') outp = None)"
proof -
  have empty: "fh_files fs temporary = Some []" using temp(4) by simp
  obtain k h1 fs1 where k: "copy_loop rounds c a store b outp operation temporary 0 (h, fs) = Some (k, h1, fs1)"
    using call by (auto simp: stream_and_replace_def split: option.splits)
  obtain copied where F1: "follows c {} h h1" and copied: "fh_files fs1 = (fh_files fs0)(temporary \<mapsto> copied)"
    "k = Inr () \<longrightarrow> copied = xs \<and> held c b [] h1"
    using copy_loop_copies [OF lim R held empty k] temp(4) by auto
  have left: "left_over a destination fs0 fs2"
    if "fh_files fs2 = (if ca_remove a then (fh_files fs1)(temporary := None) else fh_files fs1)" for fs2
    using that copied(1) temp by (auto simp: left_over_def fun_upd_idem)
  show ?thesis
  proof (cases k)
    case (Inl e)
    then have "r = k" "h' = h1" "fh_files fs' = (if ca_remove a then (fh_files fs1)(temporary := None) else fh_files fs1)"
      using call k by (auto simp: stream_and_replace_def drop_temporary_def set_file_def split: if_splits)
    with Inl F1 left show ?thesis by auto
  next
    case (Inr u)
    then have held1: "held c b [] h1" using copied(2) by simp
    obtain p h2 fs2 where p: "finish_commit a store b outp operation temporary (h1, fs1) = (p, h2, fs2)"
      by (rule prod_cases3)
    have ends: "r = p" "h' = h2" "fh_files fs' = (if p \<noteq> Inr () \<and> ca_remove a then (fh_files fs2)(temporary := None)
        else fh_files fs2)"
      using call k Inr p by (auto simp: stream_and_replace_def drop_temporary_def set_file_def split: if_splits)
    from R held1 p show ?thesis
    proof (cases rule: finish_commit_cases)
      case (refused e)
      with ends left follows_trans [OF F1] show ?thesis by auto
    next
      case (replaced h3 d content)
      have "follows c {} h0 h3" using follows_trans [OF follows_trans [OF path(2) F1] replaced(2)] .
      with exact_output_stays [OF _ path(3) check_replace_path [OF replaced(4)]] path(1)
      have "d = destination" by (auto simp: resource_value_def)
      moreover have "content = xs" using replaced(5) copied Inr by simp
      ultimately show ?thesis
        using replaced ends copied(1) temp(2,3) settle_commit_gone [OF replaced(7)]
          follows_trans [OF F1 follows_trans [OF replaced(2,3)]]
        by (auto simp: fun_eq_iff)
    qed
  qed
qed

lemma begin_commit_held:
  assumes inv: "hub_inv c {} h" and call: "begin_commit_section store b h = (Inr (), h')"
  shows "held c b (blob_content h b) h'" "follows c {} h h'" "bt_get (hub_resources h) b \<noteq> None"
proof -
  have T: "tracks c {} h h'" using tracks_begin_commit [OF tracks_refl [OF inv], of store b] call by simp
  then show "follows c {} h h'" by (rule tracks_follows)
  obtain r d where r: "bt_get (hub_resources h) b = Some r" "rs_value r = Blob d True"
    "h' = update_resource b (rs_committing_update (\<lambda>_. True)) h"
    using call by (auto simp: begin_commit_section_def split: if_splits option.splits sum.splits ResourceValue.splits)
  show "bt_get (hub_resources h) b \<noteq> None" using r(1) by simp
  show "held c b (blob_content h b) h'"
    using r tracks_inv [OF T] follows_token(2) [OF T inv r(1)]
    by (simp add: held_def blob_content_def resource_value_def update_resource_def)
qed

lemma begin_commit_refused: "begin_commit_section store b h = (Inl e, h') \<Longrightarrow> h' = h"
  by (auto simp: begin_commit_section_def split: if_splits option.splits sum.splits)

lemma end_consumption_follows:
  assumes lim: "limits_ok c" and R: "\<forall>p. rely c b (ca_others a p)" and inv: "hub_inv c {} h"
  shows "follows c {} h (fst (end_consumption c a b (h, fs)))" "snd (end_consumption c a b (h, fs)) = fs"
proof -
  have 1: "follows c {} h (ca_others a Before_End h)" by (rule rely_follows [OF R [rule_format] inv])
  have "rely c b (s_ignore (close_resource c b))" by (intro run_rely lim run_ignore run_close_resource(2))
  from follows_trans [OF 1 rely_follows [OF this tracks_inv [OF 1]]]
  show "follows c {} h (fst (end_consumption c a b (h, fs)))" by (simp add: end_consumption_def)
  show "snd (end_consumption c a b (h, fs)) = fs" by (simp add: end_consumption_def)
qed

lemma s_bind_Inr: "m s = (Inr x, s') \<Longrightarrow> s_bind m f s = f x s'"
  by (simp add: s_bind_def)

lemma s_bind_Inl: "m s = (Inl e, s') \<Longrightarrow> s_bind m f s = (Inl e, s')"
  by (simp add: s_bind_def)

text \<open>The hub when a commit takes hold of its blob, if it gets there.\<close>

definition hub_at_begin :: "commit_answers \<Rightarrow> hub \<Rightarrow> hub" where
  "hub_at_begin a h = ca_others a Before_Begin (ca_others a Before_Path h)"

lemma commit_unfold:
  assumes "check_output_operation store b outp operation h = (k, h)"
    and "exact_output_path store outp (ca_others a Before_Path h) = (d, ca_others a Before_Path h)"
    and "begin_commit_section store b (hub_at_begin a h) = (q, h1)"
  shows "commit_blob_operation rounds c a store b outp operation (h, fs) =
    (case k of Inl e \<Rightarrow> Some (Inl (hub_io_error e), (h, fs))
     | Inr _ \<Rightarrow> case d of Inl e \<Rightarrow> Some (Inl (hub_io_error e), (ca_others a Before_Path h, fs))
       | Inr destination \<Rightarrow> case q of Inl e \<Rightarrow> Some (Inl e, (h1, fs))
         | Inr _ \<Rightarrow>
             case open_temporary a destination (h1, fs) of
               (Inl e, w) \<Rightarrow> Some (Inl e, end_consumption c a b w)
             | (Inr temporary, w) \<Rightarrow> map_option (\<lambda>(r, w). (r, end_consumption c a b w))
                 (stream_and_replace rounds c a store b outp operation temporary w))"
proof -
  note facts = on_hub_eq [of "check_output_operation store b outp operation", OF assms(1), of fs]
    on_hub_eq [of "exact_output_path store outp", OF assms(2), of fs]
  show ?thesis
    unfolding commit_blob_operation_def
    by (cases k; cases d; cases q)
      (simp_all add: s_bind_Inr [of "on_hub _"] s_bind_Inl [of "on_hub _"] facts map_err_def
        assms(3) [unfolded hub_at_begin_def])
qed

text \<open>The ways a commit goes up to the point where its temporary file exists.\<close>

lemma commit_starts:
  assumes lim: "limits_ok c" and R: "\<forall>p. rely c b (ca_others a p)" and inv: "hub_inv c {} h"
  obtains (refused) e h' where "follows c {} h h'"
      "\<And>rounds. commit_blob_operation rounds c a store b outp operation (h, fs) = Some (Inl e, h', fs)"
  | (started) destination temporary h2 where "held c b (blob_content (hub_at_begin a h) b) h2" "follows c {} h h2"
      "resource_value h outp = Some (ExactOutput destination)"
      "temporary_sibling destination temporary" "temporary \<noteq> destination" "fh_files fs temporary = None"
      "\<And>rounds. commit_blob_operation rounds c a store b outp operation (h, fs)
         = map_option (\<lambda>(r, w). (r, end_consumption c a b w))
             (stream_and_replace rounds c a store b outp operation temporary
               (h2, fs\<lparr>fh_files := (fh_files fs)(temporary \<mapsto> [])\<rparr>))"
proof -
  note R' = R [rule_format]
  let ?hp = "ca_others a Before_Path h" and ?hb = "hub_at_begin a h"
  have Fp: "follows c {} h ?hp" using rely_follows [OF R' inv] .
  have Fb: "follows c {} h ?hb"
    unfolding hub_at_begin_def using follows_trans [OF Fp rely_follows [OF R' tracks_inv [OF Fp]]] .
  obtain k where k: "check_output_operation store b outp operation h = (k, h)" using check_output_pure by blast
  obtain d where d: "exact_output_path store outp ?hp = (d, ?hp)" by (simp add: exact_output_path_def)
  obtain q h1 where q: "begin_commit_section store b ?hb = (q, h1)" by (cases "begin_commit_section store b ?hb")
  note U = commit_unfold [OF k d q, of _ c fs]
  show thesis
  proof (cases "\<exists>destination. k = Inr () \<and> d = Inr destination \<and> q = Inr ()")
    case False
    then consider e where "k = Inl e" | e where "k = Inr ()" "d = Inl e"
      | destination e where "k = Inr ()" "d = Inr destination" "q = Inl e" by (cases k; cases d; cases q) auto
    then show thesis
    proof cases
      case (1 e)
      with U tracks_refl [OF inv, of False] show thesis by (intro refused [of h "hub_io_error e"]) simp_all
    next
      case (2 e)
      with U Fp show thesis by (intro refused [of ?hp "hub_io_error e"]) simp_all
    next
      case (3 destination e)
      with U Fb begin_commit_refused [of store b ?hb e h1] q show thesis by (intro refused [of ?hb e]) simp_all
    qed
  next
    case True
    then obtain destination where t: "k = Inr ()" "d = Inr destination" "q = Inr ()" by auto
    note B = begin_commit_held [OF tracks_inv [OF Fb] q [unfolded t(3)]]
    have F1: "follows c {} h h1" using follows_trans [OF Fb B(2)] .
    have live: "bt_get (hub_resources h) outp \<noteq> None"
      using k t(1) by (auto simp: check_output_operation_def check_commit_resource_def and_then_def ok_or_def
          split: if_splits option.splits sum.splits)
    have out: "resource_value h outp = Some (ExactOutput destination)"
      using exact_output_stays [OF Fp inv exact_path_value [of store outp ?hp destination] live] d t(2) by simp
    obtain z h2 fs2 where z: "open_temporary a destination (h1, fs) = (z, h2, fs2)" by (rule prod_cases3)
    note O = open_temporary_cases [OF R tracks_inv [OF F1] z]
    have F2: "follows c {} h h2" using follows_trans [OF F1] O(1) by (simp add: keeps_def)
    show thesis
    proof (cases z)
      case (Inl e)
      have "follows c {} h (fst (end_consumption c a b (h2, fs)))"
        using follows_trans [OF F2 end_consumption_follows(1) [OF lim R tracks_inv [OF F2]]] .
      with U t z Inl O(2) end_consumption_follows(2) [OF lim R tracks_inv [OF F2], of fs]
      show thesis by (intro refused [of "fst (end_consumption c a b (h2, fs))" e]) (auto simp: prod_eq_iff)
    next
      case (Inr temporary)
      note T = O(3) [OF this]
      have "temporary \<noteq> destination" using temporary_sibling_other T by blast
      with U t z Inr T out F2 keeps_held [OF B(1) O(1)] show thesis by (intro started) auto
    qed
  qed
qed

lemma commit_files:
  assumes lim: "limits_ok c" and R: "\<forall>p. rely c b (ca_others a p)" and inv: "hub_inv c {} h"
    and call: "commit_blob_operation rounds c a store b outp operation (h, fs) = Some (r, h', fs')"
  shows "follows c {} h h' \<and> (r \<noteq> Inr () \<and> (fh_files fs' = fh_files fs
        \<or> (\<exists>destination. resource_value h outp = Some (ExactOutput destination) \<and> left_over a destination fs fs'))
    \<or> r = Inr () \<and> (\<exists>destination. resource_value h outp = Some (ExactOutput destination)
        \<and> fh_files fs' = (fh_files fs)(destination \<mapsto> blob_content (hub_at_begin a h) b)
        \<and> bt_get (hub_resources h') b = None \<and> bt_get (hub_resources h') outp = None))"
  using lim R inv
proof (cases rule: commit_starts [where store = store and outp = outp and operation = operation and fs = fs])
  case (refused e h2)
  with call show ?thesis by auto
next
  case (started destination temporary h2)
  let ?fs = "fs\<lparr>fh_files := (fh_files fs)(temporary \<mapsto> [])\<rparr>"
  obtain h3 fs3 where s: "stream_and_replace rounds c a store b outp operation temporary (h2, ?fs) = Some (r, h3, fs3)"
    and e: "(h', fs') = end_consumption c a b (h3, fs3)"
    using call started(7) by auto
  note S = stream_and_replace_files [OF lim R started(1,3,2) inv started(4,5,6) refl s]
  then have F3: "follows c {} h2 h3" by simp
  have F4: "follows c {} h3 h'" "fs' = fs3"
    using end_consumption_follows [OF lim R tracks_inv [OF F3], of fs3] by (simp_all flip: e)
  have F: "follows c {} h h3" using follows_trans [OF started(2) F3] .
  have "outp \<le> hub_next_opaque_token h3"
    using started(3) follows_token(2) [OF F inv] by (auto simp: resource_value_def)
  moreover have "b \<le> hub_next_opaque_token h3"
    using started(1) F3 evolvesD(1) [of False h2 h3] by (auto simp: held_def tracks_def)
  ultimately show ?thesis
    using S follows_gone [OF F4(1)] F4(2) follows_trans [OF F F4(1)] started(3) by auto
qed

lemma commit_returns:
  assumes lim: "limits_ok c" and R: "\<forall>p. rely c b (ca_others a p)" and inv: "hub_inv c {} h"
    and rounds: "length (blob_content (hub_at_begin a h) b) < rounds"
  shows "\<exists>r h' fs'. commit_blob_operation rounds c a store b outp operation (h, fs) = Some (r, h', fs')"
  using lim R inv
proof (cases rule: commit_starts [where store = store and outp = outp and operation = operation and fs = fs])
  case (refused e h2)
  then show ?thesis by auto
next
  case (started destination temporary h2)
  let ?fs = "fs\<lparr>fh_files := (fh_files fs)(temporary \<mapsto> [])\<rparr>"
  obtain q h3 fs3 where "copy_loop rounds c a store b outp operation temporary 0 (h2, ?fs) = Some (q, h3, fs3)"
    using copy_loop_ends [OF lim R started(1) rounds, of ?fs temporary "[]" store outp operation 0] by auto
  then obtain r w where "stream_and_replace rounds c a store b outp operation temporary (h2, ?fs) = Some (r, w)"
    by (cases q; cases "finish_commit a store b outp operation temporary (h3, fs3)")
      (simp_all add: stream_and_replace_def)
  then show ?thesis unfolding started(7) by (auto simp: prod_eq_iff)
qed

end
