(* ===== verification/Hub_Safety.thy ===== *)
theory Hub_Safety
  imports Hub_Commit "HOL-Library.Code_Target_Nat"
begin

text \<open>
  What holds of the hub in every state the machine reaches, and between any two states of a run,
  whatever the threads of guests, host and runtime do in between. The sample hub at the end of the
  first section is the one the witnesses run on.
\<close>

section \<open>Reachable worlds\<close>

abbreviation hub_reachable :: "hub_config \<Rightarrow> hub_world \<Rightarrow> bool" where
  "hub_reachable c \<equiv> reach (hub_start c) (hub_step c)"

lemma reachable_world_inv: "hub_reachable c w \<Longrightarrow> world_inv c w"
  by (rule hub_machine.reachable_inv)

lemma reachable_hub_inv: "hub_reachable c w \<Longrightarrow> hub_inv c {} (wd_hub w)"
  using reachable_world_inv by (simp add: world_inv_def)

lemma reachable_limits: "hub_reachable c w \<Longrightarrow> limits_ok c"
  using reachable_world_inv by (simp add: world_inv_def)

lemma reachable_runs: "hub_reachable c w \<Longrightarrow> hub_runs c w w' \<Longrightarrow> hub_reachable c w'"
  by (rotate_tac 1, induction rule: rtranclp_induct) (auto intro: reach.intros)

lemma reachable_evolves:
  "hub_reachable c w \<Longrightarrow> hub_runs c w w' \<Longrightarrow> ages (wd_hub w) (wd_hub w')"
  using hub_runs_tracks reachable_world_inv by (simp add: tracks_def)

lemma reachable_token:
  assumes "hub_reachable c w"
  shows "bt_get (hub_resources (wd_hub w)) t = Some r \<Longrightarrow> t \<le> hub_next_opaque_token (wd_hub w)"
    "bt_get (hub_operations (wd_hub w)) t = Some op \<Longrightarrow> t \<le> hub_next_opaque_token (wd_hub w)"
  using hub_invD(1) [OF reachable_hub_inv [OF assms]] by (auto simp: tables_ok_def)

lemma blob_content_bound:
  assumes "hub_inv c W h"
  shows "length (blob_content h b) \<le> maximum_blob_bytes (hc_blob_limits c)"
proof (cases "\<exists>r d sealed. bt_get (hub_resources h) b = Some r \<and> rs_value r = Blob d sealed")
  case True
  then obtain r d sealed where r: "bt_get (hub_resources h) b = Some r" "rs_value r = Blob d sealed" by blast
  then have "value_ok c (rs_value r)"
    using hub_invD(4) [OF assms] unfolding resources_ok_def resource_ok_def by blast
  with r show ?thesis by (simp add: value_ok_def blob_content_def resource_value_def)
next
  case False
  then have "blob_content h b = []"
    by (auto simp: blob_content_def resource_value_def split: option.split ResourceValue.split)
  then show ?thesis by simp
qed

lemma evolves_resource:
  assumes "hub_reachable c w" "hub_runs c w w'" "bt_get (hub_resources (wd_hub w)) t = Some r"
    "bt_get (hub_resources (wd_hub w')) t = Some r'"
  shows "resource_ages r r'"
  using evolvesD(5) [OF reachable_evolves [OF assms(1,2)] assms(4) reachable_token(1) [OF assms(1,3)]] assms(3)
  by simp

subsection \<open>A sample hub\<close>

definition sample_config :: hub_config where
  "sample_config = \<lparr>hc_scope = 1, hc_maximum_operations = 8, hc_maximum_resources = 8,
     hc_blob_limits = \<lparr>maximum_chunk_bytes = 4, maximum_blob_bytes = 8, maximum_sketch_bytes = 8,
       maximum_live_blobs = 2, maximum_pending_reads = 2, maximum_pending_writes = 2,
       maximum_transfer_bytes = 32, progress_idle_timeout = 30000\<rparr>,
     hc_try_reserve = (\<lambda>_. True)\<rparr>"

definition sample_world :: hub_world where
  "sample_world = \<lparr>wd_hub = hub_new 0, wd_submitted = {}, wd_committing = {}\<rparr>"

text \<open>
  A blob (token 1), three bytes written into it (operation 2), the blob sealed, and its first two
  bytes read by the host.
\<close>

definition sample_created :: hub where
  "sample_created = snd (create_blob sample_config 7 (hub_new 0))"

definition sample_written :: hub where
  "sample_written = snd (submit_blob_write sample_config 7 1 [1, 2, 3] sample_created)"

definition sample_sealed :: hub where
  "sample_sealed = snd (seal_blob sample_config 7 1 sample_written)"

definition sample_read :: hub where
  "sample_read = snd (read_blob_chunk sample_config 7 1 2 False sample_sealed)"

lemma sample_limits: "limits_ok sample_config"
  by (simp add: limits_ok_def sample_config_def usize_max_def)

lemma sample_reachable: "hub_reachable sample_config sample_world"
  by (rule reach_start) (auto simp: hub_start_def sample_limits sample_world_def)

lemma sample_runs:
  obtains w1 w2 w3 w4 where
    "hub_reachable sample_config w1" "wd_hub w1 = sample_created"
    "hub_runs sample_config w1 w2" "hub_reachable sample_config w2" "wd_hub w2 = sample_written"
    "hub_runs sample_config w2 w3" "hub_reachable sample_config w3" "wd_hub w3 = sample_sealed"
    "hub_runs sample_config w3 w4" "wd_hub w4 = sample_read"
proof -
  obtain w1 where 1: "hub_runs sample_config sample_world w1" "wd_hub w1 = sample_created"
    using leads_run [OF run_create_blob, of sample_config sample_world 7]
    by (auto simp: leads_to_def sample_created_def sample_world_def)
  obtain w2 where 2: "hub_runs sample_config w1 w2" "wd_hub w2 = sample_written"
    using leads_run [OF run_submit_write(2), of sample_config w1 7 1 "[1, 2, 3]"] 1(2)
    by (auto simp: leads_to_def sample_written_def)
  obtain w3 where 3: "hub_runs sample_config w2 w3" "wd_hub w3 = sample_sealed"
    using leads_run [OF run_seal_blob(2), of sample_config w2 7 1] 2(2)
    by (auto simp: leads_to_def sample_sealed_def)
  obtain w4 where 4: "hub_runs sample_config w3 w4" "wd_hub w4 = sample_read"
    using leads_run [OF run_read_chunk, of sample_config w3 7 1 2] 3(2)
    by (auto simp: leads_to_def sample_read_def)
  note R1 = reachable_runs [OF sample_reachable 1(1)]
  note R2 = reachable_runs [OF R1 2(1)]
  show thesis by (rule that [OF R1 1(2) 2(1) R2 2(2) 3(1) reachable_runs [OF R2 3(1)] 3(2) 4])
qed

section \<open>Bounds and types\<close>

text \<open>C4: the hub stays within its configuration: in every reachable state the tables are within their
  quotas, the byte ledger is exactly what the blobs hold and never above the budget of the sketch,
  no blob is larger than allowed, and all retained allocations together stay within the transfer
  budget.\<close>

theorem hub_within_limits:
  assumes "hub_reachable c w" and "h = wd_hub w"
  shows "length (hub_operations h) \<le> hc_maximum_operations c
    \<and> length (hub_resources h) \<le> hc_maximum_resources c
    \<and> live_blobs h \<le> maximum_live_blobs (hc_blob_limits c)
    \<and> pending_read_count h \<le> maximum_pending_reads (hc_blob_limits c)
    \<and> pending_write_count h \<le> maximum_pending_writes (hc_blob_limits c)
    \<and> hub_buffered_blob_bytes h = bt_total (\<lambda>r. blob_length (rs_value r)) (hub_resources h)
    \<and> hub_buffered_blob_bytes h \<le> maximum_sketch_bytes (hc_blob_limits c)
    \<and> length (blob_content h b) \<le> maximum_blob_bytes (hc_blob_limits c)
    \<and> transfer_capacity h \<le> maximum_transfer_bytes (hc_blob_limits c)"
proof -
  have inv: "hub_inv c {} h" using reachable_hub_inv [OF assms(1)] assms(2) by simp
  have "length (blob_content h b) \<le> maximum_blob_bytes (hc_blob_limits c)" by (rule blob_content_bound [OF inv])
  moreover have "transfer_capacity h \<le> maximum_transfer_bytes (hc_blob_limits c)"
    using hub_invD(7) [OF inv] by (auto simp: transfer_ok_def transfer_capacity_sum min_le_iff_disj)
  ultimately show ?thesis
    using hub_invD(2,6) [OF inv] by (simp add: quota_ok_def ledger_ok_def)
qed

theorem hub_within_limits_witness:
  "\<exists>w. hub_reachable sample_config w \<and> hub_buffered_blob_bytes (wd_hub w) = 3
     \<and> 3 \<le> maximum_sketch_bytes (hc_blob_limits sample_config)"
proof -
  obtain w where w: "hub_reachable sample_config w" "wd_hub w = sample_written" by (rule sample_runs)
  have "hub_buffered_blob_bytes sample_written = 3" by code_simp
  with hub_within_limits [OF w(1) refl] w show ?thesis by (intro exI [of _ w]) simp
qed

text \<open>C16: handles are well typed in every reachable state: the kind recorded for a resource is the kind
  of the value behind it and its scope is the scope of the hub; its slot is used by no other live
  resource and holds its generation; and a token names at most one of a resource, an operation and
  a tombstone.\<close>

theorem hub_well_typed:
  assumes "hub_reachable c w" and "bt_get (hub_resources (wd_hub w)) t = Some r"
  shows "id_kind (rs_identity r) = value_kind (rs_value r) \<and> id_scope (rs_identity r) = hc_scope c
    \<and> bt_get (hub_resource_generations (wd_hub w)) (id_slot (rs_identity r)) = Some (id_generation (rs_identity r))
    \<and> id_slot (rs_identity r) \<notin> set (hub_free_resource_slots (wd_hub w))
    \<and> (\<forall>t' r'. bt_get (hub_resources (wd_hub w)) t' = Some r' \<and> id_slot (rs_identity r') = id_slot (rs_identity r)
         \<longrightarrow> t' = t)
    \<and> bt_get (hub_operations (wd_hub w)) t = None \<and> \<not> resource_was_closed t (wd_hub w)"
proof -
  note D = hub_invD [OF reachable_hub_inv [OF assms(1)]]
  have "t' = t" if "bt_get (hub_resources (wd_hub w)) t' = Some r'"
    "id_slot (rs_identity r') = id_slot (rs_identity r)" for t' r'
    using D(3) that assms(2) unfolding slots_ok_def slot_table_ok_def
    by (auto dest!: inj_onD [where x = t' and y = t])
  with D(1,3,4) assms(2) show ?thesis
    unfolding tables_ok_def slots_ok_def slot_table_ok_def resources_ok_def resource_ok_def resource_was_closed_def
    by blast
qed

theorem hub_well_typed_witness:
  "\<exists>w r. hub_reachable sample_config w \<and> bt_get (hub_resources (wd_hub w)) 1 = Some r
     \<and> id_kind (rs_identity r) = value_kind (rs_value r)"
proof -
  obtain w where w: "hub_reachable sample_config w" "wd_hub w = sample_written" by (rule sample_runs)
  have "bt_get (hub_resources sample_written) 1 \<noteq> None" by code_simp
  then obtain r where "bt_get (hub_resources (wd_hub w)) 1 = Some r" using w(2) by auto
  with hub_well_typed [OF w(1) this] w show ?thesis by blast
qed

section \<open>Safety of runs\<close>

text \<open>C17: no wakeup is lost: in every reachable state each operation that has its result has been
  notified, so a guest that parked on it is running again, and once the hub is closed no operation
  is open and no resource is left.\<close>

theorem finished_operations_woken:
  assumes "hub_reachable c w" and "h = wd_hub w"
  shows "(\<forall>t op. bt_get (hub_operations h) t = Some op \<and> op_terminal op \<noteq> None \<longrightarrow> Notified t \<in> set (hub_log h))
    \<and> (hub_closed h \<longrightarrow> hub_resources h = []
         \<and> (\<forall>t op. bt_get (hub_operations h) t = Some op \<longrightarrow> op_terminal op \<noteq> None))"
  using hub_invD(9,10) [OF reachable_hub_inv [OF assms(1)]] assms(2)
  by (auto simp: wakes_ok_def closed_ok_def)

theorem finished_operations_woken_witness:
  "\<exists>w op. hub_reachable sample_config w \<and> bt_get (hub_operations (wd_hub w)) 2 = Some op
     \<and> op_terminal op \<noteq> None \<and> Notified 2 \<in> set (hub_log (wd_hub w))"
proof -
  obtain w where w: "hub_reachable sample_config w" "wd_hub w = sample_written" by (rule sample_runs)
  have "map_option op_terminal (bt_get (hub_operations sample_written) 2)
      = Some (Some \<lparr>tr_terminal = T_Completed, tr_resource = None\<rparr>)" by code_simp
  then obtain op where "bt_get (hub_operations (wd_hub w)) 2 = Some op" "op_terminal op \<noteq> None"
    using w(2) by auto
  with finished_operations_woken [OF w(1) refl] w(1) show ?thesis by blast
qed

text \<open>C13: a handle that was revoked never works again: a token that was given out and names no resource
  (or no operation) in some state names none in any later state, whatever runs in between, and a
  slot that is used again has a higher generation.\<close>

theorem revoked_stays_revoked:
  assumes "hub_reachable c w" and "hub_runs c w w'" and "t \<le> hub_next_opaque_token (wd_hub w)"
  shows "(bt_get (hub_resources (wd_hub w)) t = None \<longrightarrow> bt_get (hub_resources (wd_hub w')) t = None)
    \<and> (bt_get (hub_operations (wd_hub w)) t = None \<longrightarrow> bt_get (hub_operations (wd_hub w')) t = None)
    \<and> (\<forall>t' r r'. bt_get (hub_resources (wd_hub w)) t = Some r \<and> bt_get (hub_resources (wd_hub w')) t' = Some r'
         \<and> hub_next_opaque_token (wd_hub w) < t' \<and> id_slot (rs_identity r') = id_slot (rs_identity r)
         \<longrightarrow> id_generation (rs_identity r) < id_generation (rs_identity r'))"
proof -
  note E = evolvesD [OF reachable_evolves [OF assms(1,2)]]
  have "id_generation (rs_identity r) < id_generation (rs_identity r')"
    if r: "bt_get (hub_resources (wd_hub w)) t = Some r" "bt_get (hub_resources (wd_hub w')) t' = Some r'"
      "hub_next_opaque_token (wd_hub w) < t'" "id_slot (rs_identity r') = id_slot (rs_identity r)" for t' r r'
  proof -
    have "bt_get (hub_resource_generations (wd_hub w)) (id_slot (rs_identity r')) = Some (id_generation (rs_identity r))"
      using hub_invD(3) [OF reachable_hub_inv [OF assms(1)]] r(1,4) by (auto simp: slots_ok_def slot_table_ok_def)
    from E(7) [OF r(2,3) this] show ?thesis .
  qed
  moreover have "bt_get (hub_resources (wd_hub w')) t = None" if "bt_get (hub_resources (wd_hub w)) t = None"
    using E(5) [of t] assms(3) that by (cases "bt_get (hub_resources (wd_hub w')) t") auto
  moreover have "bt_get (hub_operations (wd_hub w')) t = None" if "bt_get (hub_operations (wd_hub w)) t = None"
    using E(4) [of t] assms(3) that by (cases "bt_get (hub_operations (wd_hub w')) t") auto
  ultimately show ?thesis by blast
qed

theorem revoked_stays_revoked_witness:
  "\<exists>w w'. hub_reachable sample_config w \<and> hub_runs sample_config w w' \<and> w \<noteq> w'
     \<and> bt_get (hub_operations (wd_hub w)) 1 = None \<and> bt_get (hub_operations (wd_hub w')) 1 = None"
proof -
  obtain w1 w2 where w: "hub_reachable sample_config w1" "wd_hub w1 = sample_created"
    "hub_runs sample_config w1 w2" "wd_hub w2 = sample_written" by (rule sample_runs)
  have "hub_next_opaque_token sample_created = 1" "bt_get (hub_operations sample_created) 1 = None"
    "hub_next_opaque_token sample_written = 2"
    by code_simp+
  with revoked_stays_revoked [OF w(1,3), of 1] w show ?thesis by (intro exI [of _ w1] exI [of _ w2]) auto
qed

text \<open>C7: a result is final: once an operation has its terminal result, every later state in which the
  operation still exists shows the same result; the one exception is a completed read or wait of a
  compiler that nobody has collected yet, which may still be revoked, never completed anew.\<close>

theorem results_are_final:
  assumes "hub_reachable c w" and "hub_runs c w w'"
    and "bt_get (hub_operations (wd_hub w)) t = Some op" and "op_terminal op = Some result"
    and "bt_get (hub_operations (wd_hub w')) t = Some op'"
  shows "op_terminal op' = Some result
    \<or> ready_read op \<and> (\<exists>result'. op_terminal op' = Some result' \<and> tr_terminal result' \<noteq> T_Completed)"
proof -
  have "op_evolves op op'"
    using evolvesD(4) [OF reachable_evolves [OF assms(1,2)] assms(5) reachable_token(2) [OF assms(1,3)]] assms(3)
    by simp
  with assms(4) show ?thesis by (auto simp: op_evolves_def)
qed

theorem results_are_final_witness:
  "\<exists>w w' op op'. hub_reachable sample_config w \<and> hub_runs sample_config w w'
     \<and> bt_get (hub_operations (wd_hub w)) 2 = Some op
     \<and> op_terminal op = Some \<lparr>tr_terminal = T_Completed, tr_resource = None\<rparr>
     \<and> bt_get (hub_operations (wd_hub w')) 2 = Some op' \<and> op_terminal op' = op_terminal op"
proof -
  obtain w2 w3 where w: "hub_reachable sample_config w2" "wd_hub w2 = sample_written"
    "hub_runs sample_config w2 w3" "wd_hub w3 = sample_sealed" by (rule sample_runs)
  have "map_option op_terminal (bt_get (hub_operations sample_written) 2)
      = Some (Some \<lparr>tr_terminal = T_Completed, tr_resource = None\<rparr>)"
    "map_option ready_read (bt_get (hub_operations sample_written) 2) = Some False"
    "bt_get (hub_operations sample_sealed) 2 \<noteq> None" by code_simp+
  then obtain op op' where op: "bt_get (hub_operations (wd_hub w2)) 2 = Some op"
    "op_terminal op = Some \<lparr>tr_terminal = T_Completed, tr_resource = None\<rparr>" "\<not> ready_read op"
    "bt_get (hub_operations (wd_hub w3)) 2 = Some op'" using w by auto
  from results_are_final [OF w(1,3) op(1,2,4)] op(2,3) have "op_terminal op' = op_terminal op" by simp
  with op w(1,3) show ?thesis by blast
qed

text \<open>C12: authority never grows: for as long as a resource lives its owner, kind and whether it may be
  shared stay what they were, its rights are a subset of what they were, what was published is
  never hidden again, and a commit that has begun keeps its claim on the blob.\<close>

theorem authority_never_grows:
  assumes "hub_reachable c w" and "hub_runs c w w'"
    and "bt_get (hub_resources (wd_hub w)) t = Some r" and "bt_get (hub_resources (wd_hub w')) t = Some r'"
  shows "rs_store r' = rs_store r \<and> rs_shareable r' = rs_shareable r
    \<and> id_kind (rs_identity r') = id_kind (rs_identity r)
    \<and> id_rights (rs_identity r') AND id_rights (rs_identity r) = id_rights (rs_identity r')
    \<and> (validate_resource_owner r' store kind rights = Inr () \<longrightarrow> validate_resource_owner r store kind rights = Inr ())
    \<and> (\<not> rs_reserved r \<longrightarrow> \<not> rs_reserved r') \<and> (rs_committing r \<longrightarrow> rs_committing r')"
proof -
  note E = evolves_resource [OF assms]
  have "id_rights (rs_identity r) AND rights = rights" if "id_rights (rs_identity r') AND rights = rights"
    using E that unfolding resource_evolves_def by (metis and.assoc and.commute)
  with E show ?thesis
    by (auto simp: resource_evolves_def validate_resource_owner_def split: if_splits)
qed

theorem authority_never_grows_witness:
  "\<exists>w w' r r'. hub_reachable sample_config w \<and> hub_runs sample_config w w'
     \<and> bt_get (hub_resources (wd_hub w)) 1 = Some r \<and> bt_get (hub_resources (wd_hub w')) 1 = Some r'
     \<and> rs_store r' = rs_store r \<and> id_kind (rs_identity r') = id_kind (rs_identity r)"
proof -
  obtain w1 w2 where w: "hub_reachable sample_config w1" "wd_hub w1 = sample_created"
    "hub_runs sample_config w1 w2" "wd_hub w2 = sample_written" by (rule sample_runs)
  have "bt_get (hub_resources sample_created) 1 \<noteq> None" "bt_get (hub_resources sample_written) 1 \<noteq> None"
    by code_simp+
  then obtain r r' where r: "bt_get (hub_resources (wd_hub w1)) 1 = Some r"
    "bt_get (hub_resources (wd_hub w2)) 1 = Some r'" using w by auto
  from authority_never_grows [OF w(1,3) r] r w show ?thesis by blast
qed

text \<open>C5: a sealed blob is immutable: whatever runs, it stays sealed, and what it holds later is what is
  left of what it held after a prefix was read.\<close>

theorem sealed_blob_immutable:
  assumes "hub_reachable c w" and "hub_runs c w w'"
    and "resource_value (wd_hub w) b = Some (Blob d True)" and "resource_value (wd_hub w') b = Some v"
  shows "\<exists>d' n. v = Blob d' True \<and> dq_bytes d' = drop n (dq_bytes d)"
proof -
  obtain r r' where r: "bt_get (hub_resources (wd_hub w)) b = Some r" "rs_value r = Blob d True"
    "bt_get (hub_resources (wd_hub w')) b = Some r'" "rs_value r' = v"
    using assms(3,4) by (auto simp: resource_value_def)
  with evolves_resource [OF assms(1,2) r(1,3)] show ?thesis
    by (cases v) (auto simp: resource_evolves_def)
qed

theorem sealed_blob_immutable_witness:
  "\<exists>w w' d d' n. hub_reachable sample_config w \<and> hub_runs sample_config w w'
     \<and> resource_value (wd_hub w) 1 = Some (Blob d True) \<and> dq_bytes d = [1, 2, 3]
     \<and> resource_value (wd_hub w') 1 = Some (Blob d' True) \<and> dq_bytes d' = [3]
     \<and> dq_bytes d' = drop n (dq_bytes d)"
proof -
  obtain w w' where w: "hub_reachable sample_config w" "wd_hub w = sample_sealed"
    "hub_runs sample_config w w'" "wd_hub w' = sample_read" by (rule sample_runs)
  have d: "resource_value (wd_hub w) 1 = Some (Blob \<lparr>dq_bytes = [1, 2, 3], dq_capacity = 3\<rparr> True)"
    "resource_value (wd_hub w') 1 = Some (Blob \<lparr>dq_bytes = [3], dq_capacity = 3\<rparr> True)"
    unfolding w by code_simp+
  from sealed_blob_immutable [OF w(1,3) d] obtain n where "[3] = drop n [1, 2, 3 :: u8]" by auto
  with d w(1,3) show ?thesis
    by (intro exI [of _ w] exI [of _ w'] exI [of _ "\<lparr>dq_bytes = [1, 2, 3], dq_capacity = 3\<rparr>"]
        exI [of _ "\<lparr>dq_bytes = [3], dq_capacity = 3\<rparr>"] exI [of _ n]) simp
qed

end
