(* ===== verification/Hub_Progress.thy ===== *)
theory Hub_Progress
  imports Hub_Safety
begin

text \<open>
  How transfers behave: the passes move bytes in order, and the loop over them leaves nothing
  behind that could still be done.
\<close>

section \<open>Transfers that wait\<close>

lemma queued_reachable:
  assumes "hub_reachable c w" "submit c store (Some b) BLOB_RESOURCE_KIND rights (wd_hub w) = (Inr t, h)"
  shows "length bytes \<le> maximum_chunk_bytes (hc_blob_limits c) \<Longrightarrow>
      \<exists>w'. hub_reachable c w' \<and> wd_hub w' = snd (queue_write_section c t (length bytes) bytes h)"
    "0 < m \<Longrightarrow> m \<le> maximum_chunk_bytes (hc_blob_limits c) \<Longrightarrow>
      \<exists>w'. hub_reachable c w' \<and> wd_hub w' = snd (queue_read_section c t m h)"
proof -
  let ?w1 = "w\<lparr>wd_hub := h, wd_submitted := insert t (wd_submitted w)\<rparr>"
  have 1: "hub_reachable c ?w1" using assms by (auto intro: reach.intros hub_step_of.submit_transfer)
  show "\<exists>w'. hub_reachable c w' \<and> wd_hub w' = snd (queue_write_section c t (length bytes) bytes h)"
    if "length bytes \<le> maximum_chunk_bytes (hc_blob_limits c)"
    using reach_step [OF 1 hub_step_of.queue_write [of t ?w1 bytes c]] that by auto
  show "\<exists>w'. hub_reachable c w' \<and> wd_hub w' = snd (queue_read_section c t m h)"
    if "0 < m" "m \<le> maximum_chunk_bytes (hc_blob_limits c)"
    using reach_step [OF 1 hub_step_of.queue_read [of t ?w1 m c]] that by auto
qed

text \<open>In the sample hub, a write and a read that no pass has seen yet.\<close>

definition sample_queued :: hub where
  "sample_queued = snd (queue_write_section sample_config 2 3 [1, 2, 3]
     (snd (submit sample_config 7 (Some 1) BLOB_RESOURCE_KIND BLOB_RIGHT_WRITE sample_created)))"

definition sample_reading :: hub where
  "sample_reading = snd (queue_read_section sample_config 3 2
     (snd (submit sample_config 7 (Some 1) BLOB_RESOURCE_KIND BLOB_RIGHT_READ sample_written)))"

lemma sample_queued_reachable:
  obtains w where "hub_reachable sample_config w" "wd_hub w = sample_queued"
proof -
  obtain w where w: "hub_reachable sample_config w" "wd_hub w = sample_created" by (rule sample_runs)
  have s: "submit sample_config 7 (Some 1) BLOB_RESOURCE_KIND BLOB_RIGHT_WRITE (wd_hub w)
      = (Inr 2, snd (submit sample_config 7 (Some 1) BLOB_RESOURCE_KIND BLOB_RIGHT_WRITE (wd_hub w)))"
  proof -
    have "fst (submit sample_config 7 (Some 1) BLOB_RESOURCE_KIND BLOB_RIGHT_WRITE sample_created) = Inr 2"
      by code_simp
    then show ?thesis by (simp add: w(2) prod_eq_iff)
  qed
  have "length [1, 2, 3 :: u8] \<le> maximum_chunk_bytes (hc_blob_limits sample_config)"
    by (simp add: sample_config_def)
  from queued_reachable(1) [OF w(1) s this] w(2) that show thesis by (auto simp: sample_queued_def numeral_3_eq_3)
qed

lemma sample_reading_reachable:
  obtains w where "hub_reachable sample_config w" "wd_hub w = sample_reading"
proof -
  obtain w where w: "hub_reachable sample_config w" "wd_hub w = sample_written" by (rule sample_runs)
  have s: "submit sample_config 7 (Some 1) BLOB_RESOURCE_KIND BLOB_RIGHT_READ (wd_hub w)
      = (Inr 3, snd (submit sample_config 7 (Some 1) BLOB_RESOURCE_KIND BLOB_RIGHT_READ (wd_hub w)))"
  proof -
    have "fst (submit sample_config 7 (Some 1) BLOB_RESOURCE_KIND BLOB_RIGHT_READ sample_written) = Inr 3"
      by code_simp
    then show ?thesis by (simp add: w(2) prod_eq_iff)
  qed
  have "(0 :: nat) < 2" "2 \<le> maximum_chunk_bytes (hc_blob_limits sample_config)"
    by (simp_all add: sample_config_def)
  from queued_reachable(2) [OF w(1) s this] w(2) that show thesis by (auto simp: sample_reading_def)
qed

text \<open>Checking all operations of a concrete hub.\<close>

lemma all_operations:
  "list_all (\<lambda>(t, op). P op) (hub_operations h) \<Longrightarrow> bt_get (hub_operations h) t = Some op \<Longrightarrow> P op"
  by (auto simp: list_all_iff dest!: map_of_SomeD)

section \<open>Bytes in order\<close>

text \<open>C8: within a pass writes reach a blob in the order of their operations: for a blob that no waiting
  write is itself about to create, the pass appends the bytes of exactly the writes it completed on
  it, one after the other in token order, and leaves the content as it was otherwise.\<close>

theorem writes_append_in_order:
  assumes "hub_reachable c w" and "write_section c (wd_hub w) = (r, h')"
    and "\<And>t op. bt_get (hub_operations (wd_hub w)) t = Some op \<Longrightarrow> pending_write op \<Longrightarrow>
      op_created_resource op \<noteq> Some b"
  shows "blob_content h' b = blob_content (wd_hub w) b
    @ concat (map (moved_by bytes_written b (wd_hub w) h') (select_operations pending_write (wd_hub w)))"
  using streamed_write.pass_joins [OF reachable_limits [OF assms(1)] reachable_hub_inv [OF assms(1)] assms(3)]
    assms(2) by (simp add: write_section_def)

theorem writes_append_in_order_witness:
  "\<exists>w. hub_reachable sample_config w
     \<and> blob_content (snd (write_section sample_config (wd_hub w))) 1 = blob_content (wd_hub w) 1 @ [1, 2, 3]"
proof -
  obtain w where w: "hub_reachable sample_config w" "wd_hub w = sample_queued" by (rule sample_queued_reachable)
  have none: "list_all (\<lambda>(t, op). op_created_resource op \<noteq> Some 1) (hub_operations sample_queued)" by code_simp
  have moved: "concat (map (moved_by bytes_written 1 sample_queued (snd (write_section sample_config sample_queued)))
      (select_operations pending_write sample_queued)) = [1, 2, 3]" by code_simp
  from writes_append_in_order [OF w(1) prod.collapse [symmetric], of 1]
  have "blob_content (snd (write_section sample_config (wd_hub w))) 1 = blob_content (wd_hub w) 1 @ [1, 2, 3]"
    using all_operations [OF none] moved w(2) by simp
  with w(1) show ?thesis by blast
qed

text \<open>C9: reads drain a blob from its front: for a blob that no waiting read is itself about to create, a
  read pass hands consecutive pieces to the reads it completed, in token order, so the pieces followed
  by what is left are what the blob held.\<close>

theorem reads_take_in_order:
  assumes "hub_reachable c w" and "drive_blob_read_pass c (wd_hub w) = (r, h')"
    and "\<And>t op. bt_get (hub_operations (wd_hub w)) t = Some op \<Longrightarrow> pending_read op \<Longrightarrow>
      op_created_resource op \<noteq> Some b"
  shows "blob_content (wd_hub w) b
    = concat (map (moved_by bytes_read b (wd_hub w) h') (select_operations pending_read (wd_hub w)))
      @ blob_content h' b"
  using streamed_read.pass_joins [OF reachable_limits [OF assms(1)] reachable_hub_inv [OF assms(1)] assms(3)]
    assms(2) by (simp add: drive_blob_read_pass_def)

theorem reads_take_in_order_witness:
  "\<exists>w. hub_reachable sample_config w
     \<and> blob_content (wd_hub w) 1 = [1, 2] @ blob_content (snd (drive_blob_read_pass sample_config (wd_hub w))) 1"
proof -
  obtain w where w: "hub_reachable sample_config w" "wd_hub w = sample_reading" by (rule sample_reading_reachable)
  have none: "list_all (\<lambda>(t, op). op_created_resource op \<noteq> Some 1) (hub_operations sample_reading)" by code_simp
  have moved: "concat (map (moved_by bytes_read 1 sample_reading (snd (drive_blob_read_pass sample_config sample_reading)))
      (select_operations pending_read sample_reading)) = [1, 2]" by code_simp
  from reads_take_in_order [OF w(1) prod.collapse [symmetric], of 1]
  have "blob_content (wd_hub w) 1 = [1, 2] @ blob_content (snd (drive_blob_read_pass sample_config (wd_hub w))) 1"
    using all_operations [OF none] moved w(2) by simp
  with w(1) show ?thesis by blast
qed

section \<open>Nothing is left that could be done\<close>

lemma finish_transfer_wakes:
  assumes "bt_get (hub_operations h) t = Some op" "op_terminal op = None"
  shows "finish_transfer t k ps h \<noteq> (Inr ([], qs), h')"
  using finish_transfer_progress [OF assms, of k ps] by auto

lemma complete_write_wakes:
  assumes "bt_get (hub_operations h) t = Some op" "op_terminal op = None"
  shows "complete_write t b bytes h \<noteq> (Inr ([], qs), h')"
proof -
  let ?f = "op_pending_blob_write_update (\<lambda>_. None)"
  have "bt_get (hub_operations (append_blob b bytes (update_operation t ?f h))) t = Some (?f op)"
    using assms(1) by simp
  from finish_transfer_wakes [OF this, of T_Completed "[b]" qs h'] assms(2) show ?thesis
    by (auto simp: complete_write_def Let_def split: option.splits)
qed

text \<open>A pass whose turns either wake somebody or change nothing.\<close>

locale settling_pass = tracked_pass +
  assumes turn_idle: "bt_get (hub_operations h) t = Some op \<Longrightarrow> waiting op \<Longrightarrow>
      turn c t h = (Inr ([], ps), h') \<Longrightarrow> ps = [] \<and> h' = h"
begin

lemma loop_idle:
  assumes "limits_ok c" "tracks c W h0 h" "distinct ts"
    "\<forall>t\<in>set ts. \<exists>op. bt_get (hub_operations h) t = Some op \<and> waiting op"
    "pass_loop (turn c) ts h = (Inr ([], ps), h')"
  shows "ps = [] \<and> h' = h \<and> (\<forall>t\<in>set ts. turn c t h = (Inr ([], []), h))"
  using assms
proof (induction ts arbitrary: ps)
  case Nil
  then show ?case by (simp add: s_return_def)
next
  case (Cons t ts)
  from Cons.prems(4) obtain op where op: "bt_get (hub_operations h) t = Some op" "waiting op" by auto
  obtain p1 h1 p2 where t: "turn c t h = (Inr ([], p1), h1)" "pass_loop (turn c) ts h1 = (Inr ([], p2), h')"
    "ps = p1 @ p2"
    using Cons.prems(5) by (auto simp: s_Inr_iffs split: prod.splits)
  have "p1 = []" "h1 = h" using turn_idle [OF op t(1)] by simp_all
  with Cons.IH [OF Cons.prems(1,2)] Cons.prems(3,4) t show ?case by auto
qed

lemma pass_idle:
  assumes "limits_ok c" "hub_inv c W h" "run_pass (turn c) waiting h = (Inr False, h')"
  shows "h' = h" "bt_get (hub_operations h) t = Some op \<Longrightarrow> waiting op \<Longrightarrow> turn c t h = (Inr ([], []), h)"
proof -
  have sel: "\<forall>t\<in>set (select_operations waiting h). \<exists>op. bt_get (hub_operations h) t = Some op \<and> waiting op"
    by (auto simp: select_operations_def split: option.splits)
  obtain ps h1 where l: "pass_loop (turn c) (select_operations waiting h) h = (Inr ([], ps), h1)"
    and h': "h' = notify_all [] (report_all_progress ps h1)"
    using assms(3) by (auto simp: run_pass_def s_Inr_iffs split: prod.splits)
  note I = loop_idle [OF assms(1) tracks_refl [OF assms(2)] distinct_select [OF assms(2)] sel l]
  then show "h' = h" using h' by (simp add: notify_all_def report_all_progress_def)
  show "turn c t h = (Inr ([], []), h)" if "bt_get (hub_operations h) t = Some op" "waiting op"
  proof -
    have "t \<in> set (select_operations waiting h)"
      using that by (auto simp: select_operations_def dest: map_of_SomeD intro: rev_image_eqI)
    with I show ?thesis by blast
  qed
qed

end

lemma write_turn_idle:
  assumes op: "bt_get (hub_operations h) t = Some op" "pending_write op"
    and turn: "write_turn c t h = (Inr ([], ps), h')"
  shows "ps = [] \<and> h' = h"
proof -
  obtain x bytes where b: "op_resource op = Some x" "op_pending_blob_write op = Some bytes" "op_terminal op = None"
    using turn op by (auto simp: write_turn_def pending_write_def split: option.splits)
  let ?reserve = "reserve_blob_capacity c x (length bytes) (maximum_sketch_bytes (hc_blob_limits c))
      (transfer_maximum c) h"
  obtain q h1 where res: "?reserve = (q, h1)" by (cases ?reserve)
  have op1: "bt_get (hub_operations h1) t = Some op" using op(1) reserve_open [OF res] by simp
  have "h1 = h" if "q = Inl e" for e
    using res that by (auto simp: reserve_blob_capacity_def Let_def split: option.splits ResourceValue.splits if_splits)
  with finish_transfer_wakes [OF op(1) b(3)] finish_transfer_wakes [OF op1 b(3)]
    complete_write_wakes [OF op1 b(3)] turn op b res show ?thesis
    by (cases "write_terminal c x (length bytes) h"; cases q)
      (auto simp: write_turn_def split: if_splits)
qed

lemma read_turn_idle:
  assumes op: "bt_get (hub_operations h) t = Some op" "pending_read op"
    and turn: "read_turn c t h = (Inr ([], ps), h')"
  shows "ps = [] \<and> h' = h"
proof (cases rule: read_turn_cases [of c t h])
  case (read op' b d sealed m)
  let ?n = "min m (length (dq_bytes d))"
  have "bt_get (hub_operations (read_out t b ?n (take ?n (dq_bytes d)) h)) t
      = Some (op\<lparr>op_blob_read_result := Some (take ?n (dq_bytes d))\<rparr>)"
    using op by (simp add: hub_operations_read_out)
  from finish_transfer_wakes [OF this] op(2) turn read(8) show ?thesis by (simp add: pending_read_def)
qed (use turn in auto)

interpretation settling_write: settling_pass write_turn pending_write
  by unfold_locales (rule write_turn_idle)

interpretation settling_read: settling_pass read_turn pending_read
  by unfold_locales (rule read_turn_idle)

lemma drive_writes_settled:
  assumes "limits_ok c" "hub_inv c W h" "drive_blob_writes c h = (r, h')"
  shows "r = Inr () \<and> hub_inv c W h' \<and> run_pass (write_turn c) pending_write h' = (Inr False, h')
    \<and> run_pass (read_turn c) pending_read h' = (Inr False, h')"
  using assms
proof (induction c h arbitrary: r rule: drive_blob_writes.induct)
  case (1 c h)
  obtain p h1 where p: "write_section c h = (Inr p, h1)" "hub_inv c W h1"
    using tracked_write.pass_tracks [OF 1(2) tracks_refl [OF 1(3)]]
    by (auto simp: write_section_def tracks_def)
  obtain q h2 where q: "drive_blob_read_pass c h1 = (Inr q, h2)" "hub_inv c W h2"
    using tracked_read.pass_tracks [OF 1(2) tracks_refl [OF p(2)]]
    by (auto simp: drive_blob_read_pass_def tracks_def)
  have d: "drive_blob_write_pass c h = (Inr (q \<or> p), h2)"
    using p q by (simp add: drive_blob_write_pass_def s_bind_def s_return_def)
  show ?case
  proof (cases "q \<or> p")
    case True
    with 1(4) d have "drive_blob_writes c h2 = (r, h')" by (subst (asm) drive_blob_writes.simps) simp
    with 1(1) [OF d [symmetric], of True] True q(2) 1(2) show ?thesis by simp
  next
    case False
    with 1(4) d have "r = Inr () \<and> h' = h2" by (subst (asm) drive_blob_writes.simps) simp
    moreover have "h1 = h" using settling_write.pass_idle(1) [OF 1(2,3)] p(1) False by (simp add: write_section_def)
    moreover have "h2 = h1" using settling_read.pass_idle(1) [OF 1(2) p(2)] q(1) False
      by (simp add: drive_blob_read_pass_def)
    ultimately show ?thesis using p q False by (simp add: write_section_def drive_blob_read_pass_def)
  qed
qed

text \<open>Why a write still waits: its blob is open and one of the budgets has no room for it.\<close>

lemma write_turn_waits:
  assumes lim: "limits_ok c" and op: "bt_get (hub_operations h) t = Some op" "op_terminal op = None"
      "op_resource op = Some b" "op_pending_blob_write op = Some bytes"
    and turn: "write_turn c t h = (Inr ([], []), h)"
  shows "\<exists>d. resource_value h b = Some (Blob d False)
    \<and> (maximum_blob_bytes (hc_blob_limits c) < length (dq_bytes d) + length bytes
       \<or> maximum_sketch_bytes (hc_blob_limits c) < hub_buffered_blob_bytes h + length bytes
       \<or> maximum_sketch_bytes (hc_blob_limits c)
           < retained_blob_capacity h + (length (dq_bytes d) + length bytes - dq_capacity d)
       \<or> transfer_maximum c < transfer_capacity h + (length (dq_bytes d) + length bytes - dq_capacity d))"
proof -
  let ?t = "write_terminal c b (length bytes) h"
  let ?reserve = "reserve_blob_capacity c b (length bytes) (maximum_sketch_bytes (hc_blob_limits c))
      (transfer_maximum c) h"
  obtain q h1 where res: "?reserve = (q, h1)" by (cases ?reserve)
  have op1: "bt_get (hub_operations h1) t = Some op" using op(1) reserve_open [OF res] by simp
  note W = finish_transfer_wakes [OF op(1,2)] finish_transfer_wakes [OF op1 op(2)] complete_write_wakes [OF op1 op(2)]
  consider "?t = None" | "?t = Some T_Completed" "q = Inl Quota"
    using turn op W res by (cases ?t; cases q) (auto simp: write_turn_def split: if_splits)
  then show ?thesis
  proof cases
    case 1
    then show ?thesis
      using limitsD(1,2) [OF lim]
      by (auto simp: write_terminal_def saturating_add_def split: option.splits ResourceValue.splits if_splits)
  next
    case 2
    then obtain d where d: "resource_value h b = Some (Blob d False)"
      "length (dq_bytes d) + length bytes \<le> maximum_blob_bytes (hc_blob_limits c)"
      using limitsD(1,2) [OF lim]
      by (auto simp: write_terminal_def saturating_add_le_iff not_less split: option.splits ResourceValue.splits if_splits)
    with 2(2) res limitsD(2) [OF lim] show ?thesis
      by (auto simp: reserve_blob_capacity_def Let_def checked_add_def saturating_add_def saturating_sub_def
          split: if_splits option.splits)
  qed
qed

lemma read_turn_waits:
  assumes op: "bt_get (hub_operations h) t = Some op" "op_terminal op = None" "op_pending_blob_read op = Some m"
      "op_resource op = Some b" "resource_value h b = Some (Blob d sealed)"
    and turn: "read_turn c t h = (Inr ([], []), h)"
  shows "dq_bytes d = [] \<and> \<not> sealed
    \<or> maximum_sketch_bytes (hc_blob_limits c) < completed_read_bytes h + min m (length (dq_bytes d))
    \<or> maximum_transfer_bytes (hc_blob_limits c) < transfer_capacity h + min m (length (dq_bytes d))"
proof -
  let ?n = "min m (length (dq_bytes d))"
  let ?h = "read_out t b ?n (take ?n (dq_bytes d)) h"
  have "bt_get (hub_operations ?h) t = Some (op\<lparr>op_blob_read_result := Some (take ?n (dq_bytes d))\<rparr>)"
    using op by (simp add: hub_operations_read_out)
  from finish_transfer_wakes [OF this, of T_Completed "[b]"] op turn show ?thesis
    by (auto simp: read_turn_def Let_def saturating_add_def split: if_splits)
qed

text \<open>C10: the loop over the passes ends and leaves nothing ready: afterwards a write waits only while its
  blob is open and one of the budgets (the blob, the sketch, its allocations, the transfer budget)
  has no room for it, and a read on a live blob waits only while the blob is empty and unsealed or
  the budgets for results have no room for the piece it would get.\<close>

theorem drive_leaves_nothing_ready:
  assumes "hub_reachable c w" and "drive_blob_writes c (wd_hub w) = (r, h)"
  shows "r = Inr ()
    \<and> (\<forall>t op b bytes. bt_get (hub_operations h) t = Some op \<and> op_terminal op = None
         \<and> op_resource op = Some b \<and> op_pending_blob_write op = Some bytes \<longrightarrow>
         (\<exists>d. resource_value h b = Some (Blob d False)
            \<and> (maximum_blob_bytes (hc_blob_limits c) < length (dq_bytes d) + length bytes
               \<or> maximum_sketch_bytes (hc_blob_limits c) < hub_buffered_blob_bytes h + length bytes
               \<or> maximum_sketch_bytes (hc_blob_limits c)
                   < retained_blob_capacity h + (length (dq_bytes d) + length bytes - dq_capacity d)
               \<or> transfer_maximum c < transfer_capacity h + (length (dq_bytes d) + length bytes - dq_capacity d))))
    \<and> (\<forall>t op b m d sealed. bt_get (hub_operations h) t = Some op \<and> op_terminal op = None
         \<and> op_pending_blob_read op = Some m \<and> op_resource op = Some b \<and> resource_value h b = Some (Blob d sealed) \<longrightarrow>
         dq_bytes d = [] \<and> \<not> sealed
         \<or> maximum_sketch_bytes (hc_blob_limits c) < completed_read_bytes h + min m (length (dq_bytes d))
         \<or> maximum_transfer_bytes (hc_blob_limits c) < transfer_capacity h + min m (length (dq_bytes d)))"
proof -
  note L = reachable_limits [OF assms(1)]
  note S = drive_writes_settled [OF L reachable_hub_inv [OF assms(1)] assms(2)]
  have "write_turn c t h = (Inr ([], []), h)"
    if "bt_get (hub_operations h) t = Some op" "op_terminal op = None" "op_pending_blob_write op = Some bytes" for t op bytes
    using settling_write.pass_idle(2) [OF L] S that by (auto simp: pending_write_def)
  moreover have "read_turn c t h = (Inr ([], []), h)"
    if "bt_get (hub_operations h) t = Some op" "op_terminal op = None" "op_pending_blob_read op = Some m" for t op m
    using settling_read.pass_idle(2) [OF L] S that by (auto simp: pending_read_def)
  ultimately show ?thesis
    using S write_turn_waits [OF L] read_turn_waits by blast
qed

theorem drive_leaves_nothing_ready_witness:
  "\<exists>w. hub_reachable sample_config w \<and> pending_write_count (wd_hub w) = 1
     \<and> fst (drive_blob_writes sample_config (wd_hub w)) = Inr ()"
proof -
  obtain w where w: "hub_reachable sample_config w" "wd_hub w = sample_queued" by (rule sample_queued_reachable)
  have "pending_write_count sample_queued = 1" by code_simp
  with drive_leaves_nothing_ready [OF w(1) prod.collapse [symmetric]] w show ?thesis by auto
qed

end
