(* ===== verification/Hub_Contracts.thy ===== *)
theory Hub_Contracts
  imports Hub_Safety
begin

text \<open>
  What the interface of the hub promises: one store cannot touch what belongs to another,
  closing is final, the account of retained memory is exact, and a grant is used once.
\<close>

section \<open>Isolation\<close>

text \<open>C20: a store cannot act on an operation of another store, whether the hub is open or closed:
  parking on it, waiting for it, cancelling, collecting and abandoning it are refused as stale
  (collecting the bytes of a read as closed once the hub is closed), polling it answers with the
  error word, binding a producer or an encoder to it is refused for want of rights (the encoder as
  closed once the hub is closed), and the checks of a commit that runs under it fail as closed.
  Each of these calls leaves the hub exactly as it was.\<close>

theorem foreign_operation_refused:
  assumes "bt_get (hub_operations h) t = Some op" and "op_store op \<noteq> store"
  shows "suspend_wire c store t h = (Inl Stale, h)
    \<and> suspend_stream_wire c store t h = (Inl Stale, h)
    \<and> wait_external_operation c store t h = (Inl Stale, h)
    \<and> poll_wire store t h = (pack STATUS_ERROR None, h)
    \<and> cancel_wire c store t h = (Inl Stale, h)
    \<and> collect_blob_read_wire c store t capacity h = (Inl (if hub_closed h then Closed else Stale), h)
    \<and> abandon_transfer_wire c store t h = (Inl Stale, h)
    \<and> collect_compiler_output_wire c copy store t capacity h = (Inl Stale, h)
    \<and> abandon_compiler_output_wire c store t h = (Inl Stale, h)
    \<and> collect_compiler_wait store t h = (Inl Stale, h)
    \<and> abandon_compiler_scalar store t close h = (Inl Stale, h)
    \<and> abandon_compiler_spawn store t h = (Inl Stale, h)
    \<and> abandon_hash_operation store t h = (Inl Stale, h)
    \<and> bind_producer_cancellation store t h = (Inl WrongRights, h)
    \<and> bind_capture_section (en\<lparr>en_store := store\<rparr>) t h = (Inl (if hub_closed h then Closed else WrongRights), h)
    \<and> check_output_operation store b outp (Some t) h = (Inl Closed, h)
    \<and> check_replace store b outp (Some t) h = Inl Closed"
  using assms
  by (auto simp: suspend_wire_def suspend_stream_wire_def suspend_def suspend_section_def s_bind_def poll_wire_def
      wait_external_operation_def
      take_terminal_def cancel_wire_def cancel_compiler_output_wire_def cancel_output_section_def take_owner_def
      s_return_def collect_blob_read_wire_def collect_section_def abandon_transfer_wire_def
      abandon_transfer_section_def collect_compiler_output_wire_def collect_output_wire_section_def
      abandon_compiler_output_wire_def abandon_output_section_def collect_compiler_wait_def
      abandon_hash_operation_def abandon_compiler_scalar_def abandon_compiler_spawn_def
      bind_producer_cancellation_def bind_capture_section_def validate_capture_operation_def
      check_output_operation_def check_replace_def)











theorem foreign_operation_refused_witness:
  "bt_get (hub_operations sample_written) 2 \<noteq> None \<and> cancel_wire sample_config 8 2 sample_written = (Inl Stale, sample_written)"
proof -
  have "map_option op_store (bt_get (hub_operations sample_written) 2) = Some 7"
    by code_simp
  then obtain op where "bt_get (hub_operations sample_written) 2 = Some op" "op_store op \<noteq> 8"
    by auto
  from foreign_operation_refused [OF this, of sample_config] this show ?thesis by simp
qed


section \<open>Closing\<close>

text \<open>C14: closing the hub ends everything at once and for good: every resource is gone, every operation
  that was open, or ready and not collected, has the given result and was woken, the others keep
  theirs, and in every later state nothing can be created or submitted any more.\<close>

theorem closing_is_final:
  assumes "hub_reachable c w" and "k \<noteq> T_Completed" and "h = close_all k (wd_hub w)"
    and "hub_runs c (w\<lparr>wd_hub := h\<rparr>) w'"
  shows "hub_resources h = [] \<and> hub_buffered_blob_bytes h = 0
    \<and> (\<forall>t op. bt_get (hub_operations (wd_hub w)) t = Some op \<longrightarrow>
         (\<exists>op'. bt_get (hub_operations h) t = Some op'
            \<and> op_terminal op' = (if op_terminal op = None \<or> ready_read op
                then Some \<lparr>tr_terminal = k, tr_resource = None\<rparr> else op_terminal op)
            \<and> Notified t \<in> set (hub_log h)))
    \<and> hub_resources (wd_hub w') = []
    \<and> submit c store resource kind rights (wd_hub w') = (Inl Closed, wd_hub w')
    \<and> create_resource_value c store kind rights shareable v (wd_hub w') = (Inl Closed, wd_hub w')"
proof -
  have step: "hub_step c w (w\<lparr>wd_hub := h\<rparr>)"
    using assms(2,3) by (auto intro!: hub_step_of.run_section section_step.close_hub)
  have R: "hub_reachable c (w\<lparr>wd_hub := h\<rparr>)" using reach_step [OF assms(1) step] .
  have closed: "hub_closed h" "hub_resources h = []" "hub_buffered_blob_bytes h = 0"
    by (simp_all add: assms(3) close_all_def close_locked_def Let_def notify_all_def)
  have ops: "bt_get (hub_operations h) t = map_option (close_slot k) (bt_get (hub_operations (wd_hub w)) t)" for t
    by (simp add: assms(3) close_all_def close_locked_def Let_def notify_all_def map_of_map)
  have slot: "op_terminal (close_slot k op) = (if op_terminal op = None \<or> ready_read op
                then Some \<lparr>tr_terminal = k, tr_resource = None\<rparr> else op_terminal op)" for op
    by (simp add: close_slot_def Let_def)
  have "Notified t \<in> set (hub_log h)" if "bt_get (hub_operations h) t = Some op'" "op_terminal op' \<noteq> None" for t op'
    using hub_invD(10) [OF reachable_hub_inv [OF R]] that by (auto simp: wakes_ok_def)
  moreover have "op_terminal (close_slot k op) \<noteq> None" for op using slot [of op] by (auto split: if_splits)
  moreover have "hub_closed (wd_hub w')"
    using evolvesD(2) [OF reachable_evolves [OF R assms(4)]] closed(1) by simp
  moreover from this have "hub_resources (wd_hub w') = []"
    using hub_invD(9) [OF reachable_hub_inv [OF reachable_runs [OF R assms(4)]]] by (simp add: closed_ok_def)
  ultimately show ?thesis
    using closed ops slot
    by (auto simp: submit_def submit_locked_def create_resource_value_def create_resource_value_locked_def)
qed

theorem closing_is_final_witness:
  "\<exists>w. hub_reachable sample_config w \<and> hub_resources (wd_hub w) \<noteq> []
     \<and> hub_resources (close_all T_Cancelled (wd_hub w)) = []"
proof -
  obtain w where w: "hub_reachable sample_config w" "wd_hub w = sample_written" by (rule sample_runs)
  have "hub_resources sample_written \<noteq> []" by code_simp
  with closing_is_final [OF w(1) _ refl rtranclp.rtrancl_refl, of T_Cancelled] w show ?thesis by auto
qed

section \<open>Accounts\<close>

text \<open>C19: the account of retained memory is exact: the capacity the code computes by saturating additions
  over the tables is, in every reachable state, the true sum of the bytes native readers hold, the
  reservations for compiler output, the allocations of all blobs, and the bytes and results of all
  operations.\<close>

theorem retained_capacity_exact:
  assumes "hub_reachable c w" and "h = wd_hub w"
  shows "transfer_capacity h =
    hub_native_transfer_capacity h + hub_reserved_process_output_bytes h
    + hub_reserved_native_process_output_bytes h
    + bt_total (\<lambda>r. blob_capacity (rs_value r)) (hub_resources h)
    + bt_total (\<lambda>op. option_length (op_pending_blob_write op) + option_length (op_blob_read_result op)
        + (if op_compiler_output op \<noteq> None then MAX_PROCESS_OUTPUT_CHUNK else 0)) (hub_operations h)"
proof -
  have "transfer_sum h \<le> maximum_transfer_bytes (hc_blob_limits c)"
    using hub_invD(7) [OF reachable_hub_inv [OF assms(1)]] assms(2) by (auto simp: transfer_ok_def)
  with limitsD(3) [OF reachable_limits [OF assms(1)]] have "transfer_capacity h = transfer_sum h"
    by (simp add: transfer_capacity_sum)
  moreover have "op_charge = (\<lambda>op. option_length (op_pending_blob_write op) + option_length (op_blob_read_result op)
        + (if op_compiler_output op \<noteq> None then MAX_PROCESS_OUTPUT_CHUNK else 0))"
    by (simp add: fun_eq_iff op_charge_def)
  ultimately show ?thesis by (simp add: transfer_sum_def blob_charge_def)
qed

theorem retained_capacity_exact_witness:
  "\<exists>w. hub_reachable sample_config w \<and> transfer_capacity (wd_hub w) = 3
     \<and> bt_total (\<lambda>r. blob_capacity (rs_value r)) (hub_resources (wd_hub w)) = 3"
proof -
  obtain w where w: "hub_reachable sample_config w" "wd_hub w = sample_written" by (rule sample_runs)
  have "hub_native_transfer_capacity sample_written = 0" "hub_reserved_process_output_bytes sample_written = 0"
    "hub_reserved_native_process_output_bytes sample_written = 0"
    "bt_total (\<lambda>r. blob_capacity (rs_value r)) (hub_resources sample_written) = 3"
    "bt_total (\<lambda>op. option_length (op_pending_blob_write op) + option_length (op_blob_read_result op)
        + (if op_compiler_output op \<noteq> None then MAX_PROCESS_OUTPUT_CHUNK else 0)) (hub_operations sample_written) = 0"
    by code_simp+
  with retained_capacity_exact [OF w(1) refl] w show ?thesis by (intro exI [of _ w]) simp
qed

section \<open>Grants\<close>

lemma spawn_takes_spec:
  assumes "submit_compiler_spawn c store grant h = (Inr t, h')"
  obtains g where "resource_value h' grant = Some (CompilerGrant g)" "cg_spec g = None"
proof -
  obtain x spec deadline h1 h2 where "consume_grant grant h1 = (Inr (spec, deadline), h2)"
    "h' = start_supervisor t x spec deadline h2"
    using assms
    by (auto simp: submit_compiler_spawn_def Let_def s_bind_def s_catch_def split: if_splits sum.splits prod.splits)
  then show thesis
    using that
    by (auto simp: consume_grant_def start_supervisor_def launch_job_def update_resource_def take_grant_spec_def
        resource_value_def split: option.splits ResourceValue.splits)
qed

text \<open>C18: a grant runs one compiler: once a spawn on it was accepted, every later spawn on the same grant
  is refused, whatever happened in between.\<close>

theorem grant_spawns_once:
  assumes "hub_reachable c w" and "submit_compiler_spawn c store grant (wd_hub w) = (Inr t, h)"
    and "hub_runs c (w\<lparr>wd_hub := h\<rparr>) w'"
  shows "\<exists>e. fst (submit_compiler_spawn c store' grant (wd_hub w')) = Inl e"
proof -
  have "section_step c (wd_hub w) h"
    using section_step.spawn [of c "wd_hub w" store grant] assms(2) by simp
  then have R: "hub_reachable c (w\<lparr>wd_hub := h\<rparr>)" by (intro reach_step [OF assms(1)] hub_step_of.run_section)
  obtain g where g: "resource_value h grant = Some (CompilerGrant g)" "cg_spec g = None"
    using assms(2) by (rule spawn_takes_spec)
  then obtain r where r: "bt_get (hub_resources h) grant = Some r" "rs_value r = CompilerGrant g"
    by (auto simp: resource_value_def)
  have used: "\<exists>g'. rs_value r' = CompilerGrant g' \<and> cg_spec g' = None"
    if "bt_get (hub_resources (wd_hub w')) grant = Some r'" for r'
    using evolves_resource [OF R assms(3), of grant r r'] r g(2) that
    by (cases "rs_value r'") (auto simp: resource_evolves_def)
  have same: "hub_resources (poll_process_jobs h') = hub_resources h'" for h' by (simp add: poll_process_jobs_def)
  have "\<exists>e. check_compiler_spawn c store' grant (poll_process_jobs (wd_hub w')) = Inl e"
    using used
    by (cases "bt_get (hub_resources (wd_hub w')) grant")
      (auto simp: check_compiler_spawn_def same and_then_def split: sum.splits)
  then show ?thesis by (auto simp: submit_compiler_spawn_def Let_def)
qed

definition compiler_config :: hub_config where
  "compiler_config = \<lparr>hc_scope = 1, hc_maximum_operations = 8, hc_maximum_resources = 8,
     hc_blob_limits = \<lparr>maximum_chunk_bytes = 4, maximum_blob_bytes = 8, maximum_sketch_bytes = 10000000,
       maximum_live_blobs = 2, maximum_pending_reads = 2, maximum_pending_writes = 2,
       maximum_transfer_bytes = 20000000, progress_idle_timeout = 30000\<rparr>,
     hc_try_reserve = (\<lambda>_. True)\<rparr>"

definition sample_spec :: SpawnSpec where
  "sample_spec = \<lparr>sp_program = [0x2F, 0x61], sp_current_dir = Some [0x2F], sp_clear_env = True,
     sp_stdin = Inherit, sp_stdout = Inherit, sp_stderr = Inherit, sp_lifetime_owner = None\<rparr>"

definition sample_granted :: hub where
  "sample_granted = snd (grant_compiler_with_cache compiler_config 7 sample_spec 1000 None (hub_new 0))"

theorem grant_spawns_once_witness:
  "\<exists>w h e. hub_reachable compiler_config w \<and> submit_compiler_spawn compiler_config 7 1 (wd_hub w) = (Inr 2, h)
     \<and> fst (submit_compiler_spawn compiler_config 7 1 h) = Inl e"
proof -
  have "limits_ok compiler_config" by (simp add: limits_ok_def compiler_config_def usize_max_def)
  then have 0: "hub_reachable compiler_config sample_world"
    by (intro reach_start) (auto simp: hub_start_def sample_world_def)
  have "section_step compiler_config (wd_hub sample_world) sample_granted"
    unfolding sample_granted_def sample_world_def by (simp add: section_step.grant_compiler)
  from reach_step [OF 0 hub_step_of.run_section [OF this]]
  obtain w where w: "hub_reachable compiler_config w" "wd_hub w = sample_granted" by auto
  have "fst (submit_compiler_spawn compiler_config 7 1 sample_granted) = Inr 2" by code_simp
  then have s: "submit_compiler_spawn compiler_config 7 1 (wd_hub w)
      = (Inr 2, snd (submit_compiler_spawn compiler_config 7 1 (wd_hub w)))" by (simp add: w(2) prod_eq_iff)
  from grant_spawns_once [OF w(1) s rtranclp.rtrancl_refl, of 7] s w(1) show ?thesis by auto
qed

end
