(* ===== verification/Hub_Publish.thy ===== *)
theory Hub_Publish
  imports Hub_Safety
begin

text \<open>
  Publishing: what the other threads can do to a blob while it is committed, what ends up in a file
  the host authorised, and that every commit comes to its end.
\<close>

section \<open>Blobs that are being committed\<close>

text \<open>C15: from the moment a commit has taken hold of a blob, no step of any other thread changes what
  the blob holds, in whatever order and number these steps come: a blob that is still there holds the
  same bytes, sealed and marked as being committed, and no open operation is on it; all the other
  threads can do is revoke it.\<close>

theorem committing_blob_held:
  assumes "hub_reachable c w" and "other_runs c b w w'"
    and "bt_get (hub_resources (wd_hub w)) b = Some r" and "rs_committing r"
  shows "bt_get (hub_resources (wd_hub w')) b = None
    \<or> (\<exists>r' d. bt_get (hub_resources (wd_hub w')) b = Some r' \<and> rs_committing r'
        \<and> rs_value r' = Blob d True \<and> rs_value r = Blob d True
        \<and> (\<forall>t op. bt_get (hub_operations (wd_hub w')) t = Some op \<longrightarrow> op_resource op = Some b \<longrightarrow>
             op_terminal op \<noteq> None))"
proof (cases "bt_get (hub_resources (wd_hub w')) b")
  case (Some r')
  have K: "keeps c b (wd_hub w) (wd_hub w')"
    using other_runs_keep [OF assms(2) reachable_world_inv [OF assms(1)]] .
  have r': "rs_committing r'" "rs_value r' = rs_value r"
    using K assms(3,4) Some by (auto simp: keeps_def spares_def)
  have C: "commits_ok (wd_hub w)" "commits_ok (wd_hub w')"
    using hub_invD(13) [OF reachable_hub_inv [OF assms(1)]] hub_invD(13) [OF tracks_inv] K by (auto simp: keeps_def)
  then have "is_sealed (rs_value r)" using assms(3,4) by (auto simp: commits_ok_def)
  then obtain d where "rs_value r = Blob d True" by (cases "rs_value r") auto
  moreover have "\<forall>t op. bt_get (hub_operations (wd_hub w')) t = Some op \<longrightarrow> op_resource op = Some b \<longrightarrow>
      op_terminal op \<noteq> None"
    using C(2) Some r'(1) unfolding commits_ok_def by blast
  ultimately show ?thesis using Some r' by simp
qed simp

section \<open>Commits\<close>

text \<open>C6: a commit is all or nothing, whatever the other threads do to the hub before each of the calls the
  commit makes on it, the revocation of the blob or of the authority included, as long as they keep
  the invariant of the hub and leave the value of a blob that is being committed alone, which every run of
  the other threads does, and as long as only the commit changes the files.  When it succeeds, the
  authorised file holds exactly the bytes the blob held when the commit took hold of it, no other file
  has changed, the temporary file included, and blob and authority are revoked.  When it fails, at
  whatever point, every file is as it was, except that a temporary file next to the destination, which
  was not there before, stays behind if the host also failed to remove it.\<close>

theorem commit_all_or_nothing:
  assumes "hub_reachable c w" and "\<forall>p. rely c b (ca_others a p)"
    and "commit_blob_operation rounds c a store b outp operation (wd_hub w, fs) = Some (r, h', fs')"
  shows "r \<noteq> Inr () \<and> (fh_files fs' = fh_files fs
        \<or> \<not> ca_remove a \<and> (\<exists>destination temporary content.
            resource_value (wd_hub w) outp = Some (ExactOutput destination)
            \<and> temporary_sibling destination temporary \<and> temporary \<noteq> destination
            \<and> fh_files fs temporary = None \<and> fh_files fs' = (fh_files fs)(temporary \<mapsto> content)))
    \<or> r = Inr () \<and> (\<exists>destination. resource_value (wd_hub w) outp = Some (ExactOutput destination)
        \<and> fh_files fs' = (fh_files fs)(destination \<mapsto> blob_content (hub_at_begin a (wd_hub w)) b)
        \<and> bt_get (hub_resources h') b = None \<and> bt_get (hub_resources h') outp = None)"
  using commit_files [OF reachable_limits [OF assms(1)] assms(2) reachable_hub_inv [OF assms(1)] assms(3)]
  by (auto simp: left_over_def)

text \<open>C22: a commit ends, whatever the other threads do between its calls: with one round more than the
  blob has bytes when the commit takes hold of it, the copying loop has always come to its end, so the
  commit has returned.\<close>

theorem commit_ends:
  assumes "hub_reachable c w" and "\<forall>p. rely c b (ca_others a p)"
    and "length (blob_content (hub_at_begin a (wd_hub w)) b) < rounds"
  shows "\<exists>r h' fs'. commit_blob_operation rounds c a store b outp operation (wd_hub w, fs) = Some (r, h', fs')"
  using commit_returns [OF reachable_limits [OF assms(1)] assms(2) reachable_hub_inv [OF assms(1)] assms(3)] .

section \<open>Examples\<close>

definition sample_granted_output :: hub where
  "sample_granted_output = snd (grant_exact_output sample_config Some 7 [[97], [98]] sample_sealed)"

text \<open>A host on which every call succeeds, and other threads that do something at one point.\<close>

definition sample_answers :: "commit_point \<Rightarrow> (hub \<Rightarrow> hub) \<Rightarrow> commit_answers" where
  "sample_answers p g = \<lparr>ca_create = True, ca_write = (\<lambda>_. None), ca_sync = True, ca_replace = True,
     ca_remove = True, ca_others = (\<lambda>x. if x = p then g else (\<lambda>h. h))\<rparr>"

definition no_files :: file_host where
  "no_files = \<lparr>fh_files = (\<lambda>_. None)\<rparr>"

text \<open>Another store creates a blob; a thread closes the blob.\<close>

definition creating :: "hub \<Rightarrow> hub" where
  "creating h = snd (create_blob sample_config 8 h)"

definition closing :: "hub \<Rightarrow> hub" where
  "closing h = snd (close_resource sample_config 1 h)"

lemma sample_others:
  "is_run sample_config g \<Longrightarrow> \<forall>x. rely sample_config b (ca_others (sample_answers p g) x)"
  using run_rely [OF sample_limits] run_id [of sample_config] by (simp add: sample_answers_def)

lemma creating_run: "is_run sample_config creating" "is_run sample_config closing"
  unfolding creating_def closing_def by (rule run_create_blob run_close_resource)+

lemma sample_output_reachable:
  obtains w where "hub_reachable sample_config w" "wd_hub w = sample_granted_output"
proof -
  obtain w where w: "hub_reachable sample_config w" "wd_hub w = sample_sealed" by (rule sample_runs)
  obtain w' where w': "hub_runs sample_config w w'" "wd_hub w' = sample_granted_output"
    using leads_run [OF run_grant_output, of sample_config w Some 7 "[[97], [98]]"] w(2)
    by (auto simp: leads_to_def sample_granted_output_def)
  with reachable_runs [OF w(1) w'(1)] that show thesis by simp
qed

lemma sample_commits:
  "map_option fst (commit_blob_operation 4 sample_config (sample_answers (Before_Read 1) creating) 7 1 3 None
      (sample_granted_output, no_files)) = Some (Inr ())"
  "map_option (isl \<circ> fst) (commit_blob_operation 4 sample_config (sample_answers (During_Write 0) closing) 7 1 3 None
      (sample_granted_output, no_files)) = Some True"
  by code_simp+

lemma sample_contents:
  "resource_value sample_granted_output 3 = Some (ExactOutput [[97], [98]])"
  "blob_content sample_granted_output 1 = [1, 2, 3]"
  by code_simp+

lemma sample_at_begin [simp]:
  "hub_at_begin (sample_answers (Before_Read n) g) h = h" "hub_at_begin (sample_answers (During_Write n) g) h = h"
  by (simp_all add: hub_at_begin_def sample_answers_def)

text \<open>A commit among which another store creates a blob, and one whose blob is closed while the file is
  written.\<close>

theorem commit_all_or_nothing_witness:
  "\<exists>w h1 fs1 e h2 fs2. hub_reachable sample_config w \<and> blob_content (wd_hub w) 1 = [1, 2, 3]
     \<and> commit_blob_operation 4 sample_config (sample_answers (Before_Read 1) creating) 7 1 3 None (wd_hub w, no_files)
         = Some (Inr (), h1, fs1)
     \<and> fh_files fs1 = (fh_files no_files)([[97], [98]] \<mapsto> [1, 2, 3])
     \<and> commit_blob_operation 4 sample_config (sample_answers (During_Write 0) closing) 7 1 3 None (wd_hub w, no_files)
         = Some (Inl e, h2, fs2)
     \<and> fh_files fs2 = fh_files no_files"
proof -
  obtain w where w: "hub_reachable sample_config w" "wd_hub w = sample_granted_output"
    by (rule sample_output_reachable)
  let ?a = "sample_answers (Before_Read 1) creating" and ?z = "sample_answers (During_Write 0) closing"
  obtain h1 fs1 where 1: "commit_blob_operation 4 sample_config ?a 7 1 3 None (wd_hub w, no_files) = Some (Inr (), h1, fs1)"
    using sample_commits(1) w(2) by auto
  obtain e h2 fs2 where 2: "commit_blob_operation 4 sample_config ?z 7 1 3 None (wd_hub w, no_files) = Some (Inl e, h2, fs2)"
    using sample_commits(2) w(2) by (auto simp: isl_def)
  have "fh_files fs1 = (fh_files no_files)([[97], [98]] \<mapsto> [1, 2, 3])"
    using commit_all_or_nothing [OF w(1) sample_others [OF creating_run(1)] 1] sample_contents w(2) by auto
  moreover have "fh_files fs2 = fh_files no_files"
    using commit_all_or_nothing [OF w(1) sample_others [OF creating_run(2)] 2] by (simp add: sample_answers_def)
  ultimately show ?thesis using w 1 2 sample_contents(2) by metis
qed

theorem commit_ends_witness:
  "\<exists>w. hub_reachable sample_config w \<and> length (blob_content (wd_hub w) 1) < 4
     \<and> (\<exists>r h' fs'. commit_blob_operation 4 sample_config (sample_answers (Before_Read 1) creating) 7 1 3 None
          (wd_hub w, no_files) = Some (r, h', fs'))"
proof -
  obtain w where w: "hub_reachable sample_config w" "wd_hub w = sample_granted_output"
    by (rule sample_output_reachable)
  have len: "length (blob_content (wd_hub w) 1) < 4" using sample_contents(2) w(2) by simp
  have "\<exists>r h' fs'. commit_blob_operation 4 sample_config (sample_answers (Before_Read 1) creating) 7 1 3 None
      (wd_hub w, no_files) = Some (r, h', fs')"
    by (rule commit_ends [OF w(1) sample_others [OF creating_run(1)]]) (use len in simp)
  with w(1) len show ?thesis by blast
qed

definition sample_begun :: hub where
  "sample_begun = snd (begin_commit_section 7 1 sample_granted_output)"

theorem committing_blob_held_witness:
  "\<exists>w w' r'. hub_reachable sample_config w \<and> other_runs sample_config 1 w w' \<and> wd_hub w' \<noteq> wd_hub w
     \<and> bt_get (hub_resources (wd_hub w')) 1 = Some r' \<and> rs_committing r' \<and> blob_content (wd_hub w') 1 = [1, 2, 3]"
proof -
  obtain v where v: "hub_reachable sample_config v" "wd_hub v = sample_granted_output"
    by (rule sample_output_reachable)
  let ?w = "v\<lparr>wd_hub := sample_begun, wd_committing := insert 1 (wd_committing v)\<rparr>"
  have "begin_commit_section 7 1 sample_granted_output = (Inr (), sample_begun)"
  proof -
    have "fst (begin_commit_section 7 1 sample_granted_output) = Inr ()" by code_simp
    then show ?thesis by (simp add: sample_begun_def prod_eq_iff)
  qed
  then have R: "hub_reachable sample_config ?w"
    using v hub_step_of.begin_commit [of 7 1 v sample_begun sample_config UNIV] by (auto intro: reach.intros)
  obtain w' where "calm_runs sample_config ?w w'" and w': "wd_hub w' = creating sample_begun"
    using creating_run(1) unfolding is_run_def by force
  then have O: "other_runs sample_config 1 ?w w'" using runs_mono by blast
  have c: "map_option rs_committing (bt_get (hub_resources sample_begun) 1) = Some True"
    "blob_content sample_begun 1 = [1, 2, 3]" "bt_get (hub_resources (creating sample_begun)) 1 \<noteq> None"
    "length (hub_resources (creating sample_begun)) \<noteq> length (hub_resources sample_begun)" by code_simp+
  then obtain r where r: "bt_get (hub_resources (wd_hub ?w)) 1 = Some r" "rs_committing r" by auto
  from committing_blob_held [OF R O r] c(3) w' obtain r' d
    where r': "bt_get (hub_resources (wd_hub w')) 1 = Some r'" "rs_committing r'" "rs_value r' = Blob d True"
      "rs_value r = Blob d True" by auto
  have "blob_content (wd_hub w') 1 = [1, 2, 3]"
    using r(1) r'(1,3,4) c(2) by (simp add: blob_content_def resource_value_def)
  moreover have "wd_hub w' \<noteq> wd_hub ?w" using w' c(4) by auto
  ultimately show ?thesis using R O r' by blast
qed

end
