(* ===== verification/Hub_Encoding.thy ===== *)
theory Hub_Encoding
  imports Hub_Safety
begin

text \<open>
  The native encoder against its reference: a file that is written at a position, holes filled
  with zeros. A producer that seeks and rewrites, as image encoders do when they patch a header,
  finds in the published blob exactly the bytes a file would hold.
\<close>

section \<open>The reference\<close>

definition file_write :: "nat \<Rightarrow> u8 list \<Rightarrow> u8 list \<Rightarrow> u8 list" where
  "file_write position bytes content =
     (if bytes = [] then content
      else take position (content @ replicate (position - length content) 0)
           @ bytes @ drop (position + length bytes) content)"

lemma length_file_write:
  "bytes \<noteq> [] \<Longrightarrow> length (file_write position bytes content) = max (length content) (position + length bytes)"
  by (auto simp: file_write_def)

lemma file_write_split:
  assumes "bytes \<noteq> []" and "n = min (length bytes) (length content - position)"
  shows "file_write position bytes content
    = overwrite_at position (take n bytes) (content @ replicate (position - length content) 0) @ drop n bytes"
proof (cases "position \<le> length content")
  case True
  then show ?thesis
    using assms by (cases "length bytes \<le> length content - position") (auto simp: file_write_def overwrite_at_def)
next
  case False
  then show ?thesis using assms by (simp add: file_write_def overwrite_at_def)
qed

lemma overwrite_at_Nil [simp]: "overwrite_at position [] content = content"
  by (simp add: overwrite_at_def)

section \<open>An encoder that owns its blob\<close>

definition encoder_ok :: "hub_config \<Rightarrow> token \<Rightarrow> encoder_world \<Rightarrow> bool" where
  "encoder_ok c b w \<longleftrightarrow>
     limits_ok c \<and> hub_inv c {} (snd w) \<and> quiet b (snd w) \<and> en_blob (fst w) = Some b
     \<and> en_written (fst w) = length (blob_content (snd w) b)"

lemma blob_write_appends:
  assumes lim: "limits_ok c" and inv: "hub_inv c {} h" and q: "quiet b h"
    and call: "blob_write_inner c store b bytes unpublished h = (Inr n, h')"
  shows "blob_content h' b = blob_content h b @ bytes" "quiet b h'" "hub_inv c {} h'"
proof -
  obtain h1 where s: "blob_write_section c store b bytes unpublished h = (Inr (), h1)"
    and d: "drive_blob_reads c h1 = (Inr (), h')"
    using call by (auto simp: blob_write_inner_def s_lift_def s_Inr_iffs split: if_splits)
  obtain h2 where r: "reserve_blob_capacity c b (length bytes) (maximum_sketch_bytes (hc_blob_limits c))
      (transfer_maximum c) h = (Inr (), h2)" and h1: "h1 = report_progress b (append_blob b bytes h2)"
    using s by (auto simp: blob_write_section_def s_Inr_iffs split: sum.splits)
  have inv1: "hub_inv c {} h1"
    using tracks_blob_write_section [OF lim tracks_refl [OF inv], of store b bytes unpublished] s
    by (simp add: tracks_def)
  have "\<exists>d sealed. resource_value h b = Some (Blob d sealed)"
    using r by (auto simp: reserve_blob_capacity_def Let_def split: option.splits ResourceValue.splits)
  then obtain d sealed where "resource_value h2 b = Some (Blob d sealed)" using reserve_keeps_blob [OF r] by blast
  from append_content [OF this, of bytes b] reserve_content [OF r]
  have content: "blob_content h1 b = blob_content h b @ bytes"
    by (simp add: h1 report_progress_def blob_content_def resource_value_def)
  have "hub_operations h1 = hub_operations h" using reserve_open [OF r] by (simp add: h1)
  then have q1: "quiet b h1" using q quiet_cong by blast
  note D = drive_reads_quiet [OF lim inv1 q1 d]
  then show "blob_content h' b = blob_content h b @ bytes" "quiet b h'" "hub_inv c {} h'"
    using content blob_content_cong [of h' b h1] by simp_all
qed

lemma write_chunks_append:
  assumes "limits_ok c" "hub_inv c {} h" "quiet b h"
    and "encoder_write_chunks c store (Some b) chunks h = (Inr u, h')"
  shows "blob_content h' b = blob_content h b @ concat chunks \<and> quiet b h' \<and> hub_inv c {} h'"
  using assms
proof (induction chunks arbitrary: h)
  case Nil
  then show ?case by (simp add: s_return_def)
next
  case (Cons chunk chunks)
  obtain n h1 where 1: "blob_write_inner c store b chunk True h = (Inr n, h1)"
    "encoder_write_chunks c store (Some b) chunks h1 = (Inr u, h')"
    using Cons.prems(4) by (auto simp: s_Inr_iffs)
  note A = blob_write_appends [OF Cons.prems(1-3) 1(1)]
  from Cons.IH [OF Cons.prems(1) A(3,2) 1(2)] A(1) show ?case by simp
qed

lemma concat_slice_chunks: "0 < n \<Longrightarrow> concat (slice_chunks n bytes) = bytes"
  by (induction n bytes rule: slice_chunks.induct) (subst slice_chunks.simps, auto)

lemma append_ok:
  assumes ok: "encoder_ok c b w" and call: "encoder_append c bytes w = (Inr u, w')"
  shows "encoder_ok c b w'" "blob_content (snd w') b = blob_content (snd w) b @ bytes"
    "fst w' = (fst w)\<lparr>en_written := en_written (fst w) + length bytes\<rparr>"
proof -
  obtain en h where w: "w = (en, h)" by (cases w)
  note O = ok [unfolded encoder_ok_def w fst_conv snd_conv]
  obtain h' where e: "encoder_write_chunks c (en_store en) (Some b)
      (slice_chunks (maximum_chunk_bytes (hc_blob_limits c)) bytes) h = (Inr (), h')"
    and w': "w' = (en\<lparr>en_written := en_written en + length bytes\<rparr>, h')"
    using call O w
    by (auto simp: encoder_append_def encoding_def encoder_append_body_def
        split: option.splits prod.splits sum.splits if_splits)
  have "0 < maximum_chunk_bytes (hc_blob_limits c)" using O by (simp add: limits_ok_def)
  with write_chunks_append [OF _ _ _ e] O
  have "blob_content h' b = blob_content h b @ bytes" "quiet b h'" "hub_inv c {} h'"
    by (simp_all add: concat_slice_chunks)
  then show "encoder_ok c b w'" "blob_content (snd w') b = blob_content (snd w) b @ bytes"
    "fst w' = (fst w)\<lparr>en_written := en_written (fst w) + length bytes\<rparr>"
    using O w w' by (simp_all add: encoder_ok_def)
qed

text \<open>Every piece closes some of the gap, so as many pieces as missing bytes are enough.\<close>

lemma fill_ok:
  assumes "encoder_ok c b w" "fill_hole pieces c w = (Inr u, w')" "en_position (fst w) - en_written (fst w) \<le> pieces"
  shows "encoder_ok c b w' \<and> en_position (fst w') = en_position (fst w) \<and> en_store (fst w') = en_store (fst w)
    \<and> en_maximum_bytes (fst w') = en_maximum_bytes (fst w)
    \<and> blob_content (snd w') b = blob_content (snd w) b @ replicate (en_position (fst w) - en_written (fst w)) 0"
  using assms
proof (induction pieces arbitrary: w)
  case 0
  then show ?case by (simp add: s_return_def)
next
  case (Suc pieces)
  let ?gap = "en_position (fst w) - en_written (fst w)"
  let ?n = "min ?gap 1024"
  show ?case
  proof (cases "en_written (fst w) < en_position (fst w)")
    case True
    obtain w1 where 1: "encoder_append c (replicate ?n 0) w = (Inr (), w1)" "fill_hole pieces c w1 = (Inr u, w')"
      using Suc.prems(2) True by (auto simp: s_Inr_iffs)
    note A = append_ok [OF Suc.prems(1) 1(1)]
    have "en_position (fst w1) - en_written (fst w1) = ?gap - ?n" using A(3) by simp
    with Suc.IH [OF A(1) 1(2)] Suc.prems(3) True A show ?thesis
      by (auto simp: replicate_add [symmetric])
  next
    case False
    with Suc.prems show ?thesis by auto
  qed
qed

lemma overwrite_content:
  assumes "overwrite_section store (Some b) position bytes h = (Inr u, h')"
  shows "blob_content h' b = overwrite_at position bytes (blob_content h b)"
    "hub_operations h' = hub_operations h" "position + length bytes \<le> length (blob_content h b) \<or> bytes = []"
proof -
  obtain r d where r: "bt_get (hub_resources h) b = Some r" "rs_value r = Blob d False"
      and fits: "length bytes \<le> length (dq_bytes d) - position"
      and h': "h' = update_resource b (overwrite_slot position bytes) h"
    using assms
    by (auto simp: overwrite_section_def Let_def split: if_splits option.splits sum.splits ResourceValue.splits bool.splits)
  show "blob_content h' b = overwrite_at position bytes (blob_content h b)"
    using r by (simp add: h' blob_content_def resource_value_def get_update_resource overwrite_slot_def)
  show "hub_operations h' = hub_operations h" by (simp add: h' update_resource_def)
  show "position + length bytes \<le> length (blob_content h b) \<or> bytes = []"
    using r fits by (cases bytes) (auto simp: blob_content_def resource_value_def)
qed

text \<open>The overwriting part of a write, on the encoder and its hub.\<close>

abbreviation encoder_overwrite :: "u8 list \<Rightarrow> (encoder_world, HubError, unit) state_result" where
  "encoder_overwrite bytes \<equiv> (\<lambda>(en, h). case overwrite_section (en_store en) (en_blob en) (en_position en) bytes h of
     (r, h) \<Rightarrow> (r, (en, h)))"

lemma overwrite_ok:
  assumes ok: "encoder_ok c b w" and call: "encoder_overwrite bytes w = (Inr u, w')" and "bytes \<noteq> []"
  shows "encoder_ok c b w'" "fst w' = fst w"
    "blob_content (snd w') b = overwrite_at (en_position (fst w)) bytes (blob_content (snd w) b)"
proof -
  obtain en h where w: "w = (en, h)" by (cases w)
  note O = ok [unfolded encoder_ok_def w fst_conv snd_conv]
  obtain h' where o: "overwrite_section (en_store en) (Some b) (en_position en) bytes h = (Inr u, h')" and w': "w' = (en, h')"
    using call O by (auto simp: w split: prod.splits)
  note C = overwrite_content [OF o]
  have "hub_inv c {} h'"
    using tracks_overwrite [OF tracks_refl, of c "{}" h "en_store en" "Some b" "en_position en" bytes] O o by (simp add: tracks_def)
  moreover have "quiet b h'" using O C(2) quiet_cong by blast
  ultimately show "encoder_ok c b w'"
    using O C(1,3) assms(3) by (simp add: encoder_ok_def w' overwrite_at_def)
  show "fst w' = fst w"
    "blob_content (snd w') b = overwrite_at (en_position (fst w)) bytes (blob_content (snd w) b)"
    using C(1) by (simp_all add: w w')
qed

lemma encoding_Inr:
  "encoding m w = (Inr x, w') \<longleftrightarrow> en_failure (fst w) = None \<and> m w = (Inr x, w')"
  by (auto simp: encoding_def split: option.splits prod.splits sum.splits)

lemma write_at_position_ok:
  assumes ok: "encoder_ok c b w" and call: "write_at_position c bytes w = (Inr u, w')"
  shows "encoder_ok c b w'"
    "blob_content (snd w') b = file_write (en_position (fst w)) bytes (blob_content (snd w) b)"
    "en_position (fst w') = en_position (fst w) + length bytes"
proof -
  let ?p = "en_position (fst w)" and ?xs = "blob_content (snd w) b"
  have "encoder_ok c b w' \<and> blob_content (snd w') b = file_write ?p bytes ?xs
    \<and> en_position (fst w') = ?p + length bytes"
  proof (cases "bytes = []")
    case True
    with call ok show ?thesis by (simp add: write_at_position_def file_write_def split: option.splits)
  next
    case False
    define n where "n = min (length bytes) (length ?xs - ?p)"
    have body: "write_at_position_body c bytes w = (Inr u, w')"
      using call False by (simp add: write_at_position_def encoding_Inr split: option.splits)
    obtain w1 where f: "fill_hole (?p - en_written (fst w)) c w = (Inr (), w1)"
      and rest: "s_bind (if 0 < min (length bytes) (en_written (fst w1) - en_position (fst w1))
          then encoder_overwrite (take (min (length bytes) (en_written (fst w1) - en_position (fst w1))) bytes)
          else s_return ())
        (\<lambda>_. s_bind (encoder_append c (drop (min (length bytes) (en_written (fst w1) - en_position (fst w1))) bytes))
          (\<lambda>_ w. (Inr (), apfst (\<lambda>en. en\<lparr>en_position := ?p + length bytes\<rparr>) w))) w1 = (Inr u, w')"
      using body by (auto simp: write_at_position_body_def checked_add_def Let_def s_bind_Inr_iff split: if_splits)
    note F = fill_ok [OF ok f order_refl]
    have len: "en_written (fst w) = length ?xs" using ok by (simp add: encoder_ok_def)
    have "en_written (fst w1) = length (blob_content (snd w1) b)" using F by (simp add: encoder_ok_def)
    then have n: "min (length bytes) (en_written (fst w1) - en_position (fst w1)) = n"
      using F len by (auto simp: n_def)
    obtain w2 where o: "(if 0 < n then encoder_overwrite (take n bytes) else s_return ()) w1 = (Inr (), w2)"
      and a: "s_bind (encoder_append c (drop n bytes))
          (\<lambda>_ w. (Inr (), apfst (\<lambda>en. en\<lparr>en_position := ?p + length bytes\<rparr>) w)) w2 = (Inr u, w')"
      using rest unfolding n by (auto simp: s_bind_Inr_iff)
    have 2: "encoder_ok c b w2 \<and> blob_content (snd w2) b = overwrite_at ?p (take n bytes) (blob_content (snd w1) b)"
    proof (cases "0 < n")
      case True
      with o have "encoder_overwrite (take n bytes) w1 = (Inr (), w2)" by simp
      from overwrite_ok [OF conjunct1 [OF F] this] True False F show ?thesis by simp
    next
      case False
      with o F show ?thesis by (simp add: s_return_def)
    qed
    obtain w3 where a3: "encoder_append c (drop n bytes) w2 = (Inr (), w3)"
      and w': "w' = apfst (\<lambda>en. en\<lparr>en_position := ?p + length bytes\<rparr>) w3"
      using a by (auto simp: s_bind_Inr_iff)
    note A = append_ok [OF conjunct1 [OF 2] a3]
    have "blob_content (snd w') b = file_write ?p bytes ?xs"
      using A(2) 2 F len file_write_split [OF False n_def] by (simp add: w')
    with A(1) show ?thesis by (simp add: w' encoder_ok_def)
  qed
  then show "encoder_ok c b w'" "blob_content (snd w') b = file_write ?p bytes ?xs"
    "en_position (fst w') = ?p + length bytes" by simp_all
qed

section \<open>Whole encodings\<close>

text \<open>What a producer calls on the encoder, and the same calls on a file with a cursor.\<close>

datatype encoder_call = Call_Write "u8 list" | Call_Seek seek_from

fun encoder_call_result :: "hub_config \<Rightarrow> encoder_call \<Rightarrow> encoder_world \<Rightarrow> encoder_world option" where
  "encoder_call_result c (Call_Write bytes) w =
     (case write_at_position c bytes w of (Inr _, w') \<Rightarrow> Some w' | (Inl _, _) \<Rightarrow> None)"
| "encoder_call_result c (Call_Seek origin) (en, h) =
     (case encoder_seek origin en of (Inr _, en') \<Rightarrow> Some (en', h) | (Inl _, _) \<Rightarrow> None)"

primrec encoder_calls :: "hub_config \<Rightarrow> encoder_call list \<Rightarrow> encoder_world \<Rightarrow> encoder_world option" where
  "encoder_calls c [] w = Some w"
| "encoder_calls c (call # calls) w =
     (case encoder_call_result c call w of None \<Rightarrow> None | Some w' \<Rightarrow> encoder_calls c calls w')"

fun file_call :: "encoder_call \<Rightarrow> u8 list \<times> nat \<Rightarrow> u8 list \<times> nat" where
  "file_call (Call_Write bytes) (content, position) =
     (file_write position bytes content, position + length bytes)"
| "file_call (Call_Seek (SeekStart n)) (content, position) = (content, n)"
| "file_call (Call_Seek (SeekCurrent d)) (content, position) = (content, nat (int position + d))"
| "file_call (Call_Seek (SeekEnd d)) (content, position) = (content, nat (int (length content) + d))"

definition file_calls :: "encoder_call list \<Rightarrow> u8 list \<times> nat" where
  "file_calls calls = fold file_call calls ([], 0)"

definition as_file :: "token \<Rightarrow> encoder_world \<Rightarrow> u8 list \<times> nat" where
  "as_file b w = (blob_content (snd w) b, en_position (fst w))"

lemma encoder_call_refines:
  assumes ok: "encoder_ok c b w" and call: "encoder_call_result c call w = Some w'"
  shows "encoder_ok c b w' \<and> as_file b w' = file_call call (as_file b w)"
proof (cases call)
  case (Call_Write bytes)
  then have "write_at_position c bytes w = (Inr (), w')"
    using call by (auto split: prod.splits sum.splits)
  from write_at_position_ok [OF ok this] Call_Write show ?thesis by (simp add: as_file_def)
next
  case (Call_Seek origin)
  obtain en h where w: "w = (en, h)" by (cases w)
  have len: "en_written en = length (blob_content h b)" using ok by (simp add: encoder_ok_def w)
  from Call_Seek have "\<exists>position. encoder_seek origin en = (Inr position, en\<lparr>en_position := position\<rparr>)
      \<and> w' = (en\<lparr>en_position := position\<rparr>, h)"
    using call by (auto simp: w encoder_seek_def Let_def split: if_splits)
  then obtain position where "encoder_seek origin en = (Inr position, en\<lparr>en_position := position\<rparr>)"
      and w': "w' = (en\<lparr>en_position := position\<rparr>, h)" by blast
  then have "(blob_content h b, position) = file_call (Call_Seek origin) (blob_content h b, en_position en)"
    using len by (cases origin) (auto simp: encoder_seek_def Let_def split: if_splits)
  then show ?thesis
    using ok Call_Seek by (simp add: w w' as_file_def encoder_ok_def)
qed

lemma encoder_calls_refine:
  "encoder_ok c b w \<Longrightarrow> encoder_calls c calls w = Some w' \<Longrightarrow>
   encoder_ok c b w' \<and> as_file b w' = fold file_call calls (as_file b w)"
  by (induction calls arbitrary: w) (auto dest: encoder_call_refines split: option.splits)

lemma encoder_new_ok:
  assumes lim: "limits_ok c" and inv: "hub_inv c {} h"
    and none: "\<forall>t op. bt_get (hub_operations h) t = Some op \<longrightarrow> waits op \<longrightarrow> op_created_resource op = None"
    and call: "encoder_new c store m h = (Inr en, h')"
  shows "\<exists>b. encoder_ok c b (en, h') \<and> as_file b (en, h') = ([], 0)"
proof -
  obtain b where b: "create_resource_value_locked c store BLOB_RESOURCE_KIND (BLOB_RIGHT_READ OR BLOB_RIGHT_WRITE)
      False (Blob vec_deque_new False) h = (Inr b, h')"
    and en: "en_blob en = Some b" "en_written en = 0" "en_position en = 0"
    using call by (auto simp: encoder_new_def create_resource_value_def s_Inr_iffs split: if_splits)
  have fresh: "fresh_value c BLOB_RESOURCE_KIND (BLOB_RIGHT_READ OR BLOB_RIGHT_WRITE) (Blob vec_deque_new False)"
    by (simp add: fresh_values)
  note C = tracks_create [OF tracks_refl [OF inv] fresh b]
  have "quiet b h'"
    using C none fresh_token(4) [OF inv] by (fastforce simp: quiet_def)
  moreover have "blob_content h' b = []"
    using C by (auto simp: blob_content_def resource_value_def created_slot_def vec_deque_new_def)
  ultimately show ?thesis
    using C lim en by (auto simp: encoder_ok_def as_file_def tracks_def)
qed

lemma encoder_finish_publishes:
  assumes ok: "encoder_ok c b (en, h)" and call: "encoder_finish c en operation h = (Inr t, h')"
  shows "t = b \<and> (\<exists>r d. bt_get (hub_resources h') b = Some r \<and> rs_value r = Blob d True
    \<and> dq_bytes d = blob_content h b \<and> id_rights (rs_identity r) = BLOB_RIGHT_READ)"
proof -
  have f: "finish_section en b operation h = (Inr (), h')" "t = b"
    using call ok by (auto simp: encoder_finish_def encoder_ok_def s_Inr_iffs split: if_splits option.splits prod.splits sum.splits)
  let ?h = "update_resource b (publish_encoded (operation \<noteq> None)) h"
  obtain r where r: "bt_get (hub_resources h) b = Some r" "is_blob (rs_value r)"
    and h': "(case operation of None \<Rightarrow> (Inr (), ?h)
      | Some op \<Rightarrow> terminal op \<lparr>tr_terminal = T_Completed, tr_resource = Some b\<rparr>
          (update_operation op (op_created_resource_update (\<lambda>_. Some b)) ?h)) = (Inr (), h')"
    using f(1) by (auto simp: finish_section_def Let_def and_then_def ok_or_def split: option.splits sum.splits if_splits)
  obtain d sealed where v: "rs_value r = Blob d sealed" using r(2) by (cases "rs_value r") auto
  have "\<exists>r'. bt_get (hub_resources h') b = Some r' \<and> rs_value r' = rs_value (publish_encoded x r)
      \<and> rs_identity r' = rs_identity (publish_encoded x r)" for x
    using h' r(1)
    by (auto simp: terminal_def s_bind_def terminal_locked_def Let_def update_operation_def update_resource_def publish_encoded_def
        notify_option_def notify_one_def s_return_def split: option.splits if_splits prod.splits sum.splits)
  then show ?thesis
    using f(2) r(1) v by (auto simp: publish_encoded_def Let_def seal_slot_def blob_content_def resource_value_def)
qed

section \<open>The encoder writes what a file would hold\<close>

text \<open>C11: the encoder is a file: take an encoding that starts in a reachable state in which no transfer that
  still waits is about to create a resource, and whose calls run one after the other with no other
  call on the hub in between.  When it goes through, however the producer seeked, rewrote and left
  holes, the blob that is handed out is sealed, can only be read, and holds exactly the bytes a file
  would hold after the same calls.\<close>

theorem encoder_writes_like_a_file:
  assumes "hub_reachable c w"
    and "\<forall>t op. bt_get (hub_operations (wd_hub w)) t = Some op \<longrightarrow> waits op \<longrightarrow> op_created_resource op = None"
    and "encoder_new c store maximum_bytes (wd_hub w) = (Inr en, h)"
    and "encoder_calls c calls (en, h) = Some (en', h')"
    and "encoder_finish c en' operation h' = (Inr b, h'')"
  shows "\<exists>r d. bt_get (hub_resources h'') b = Some r \<and> rs_value r = Blob d True
    \<and> dq_bytes d = fst (file_calls calls) \<and> id_rights (rs_identity r) = BLOB_RIGHT_READ"
proof -
  obtain b' where n: "encoder_ok c b' (en, h)" "as_file b' (en, h) = ([], 0)"
    using encoder_new_ok [OF reachable_limits [OF assms(1)] reachable_hub_inv [OF assms(1)] assms(2,3)] by blast
  from encoder_calls_refine [OF n(1) assms(4)] n(2)
  have e: "encoder_ok c b' (en', h')" "blob_content h' b' = fst (file_calls calls)"
    by (simp_all add: file_calls_def as_file_def) (metis fst_conv)
  from encoder_finish_publishes [OF e(1) assms(5)] e(2) show ?thesis by auto
qed

text \<open>Three bytes, a hole, one byte behind it, and the first byte patched at the end.\<close>

definition sample_encoding :: "encoder_call list" where
  "sample_encoding = [Call_Write [1, 2, 3], Call_Seek (SeekStart 5), Call_Write [9],
     Call_Seek (SeekEnd (- 6)), Call_Write [7]]"

theorem encoder_writes_like_a_file_witness:
  "\<exists>en h en' h' h'' r d. encoder_new sample_config 7 8 (hub_new 0) = (Inr en, h)
     \<and> encoder_calls sample_config sample_encoding (en, h) = Some (en', h')
     \<and> encoder_finish sample_config en' None h' = (Inr 1, h'')
     \<and> bt_get (hub_resources h'') 1 = Some r \<and> rs_value r = Blob d True \<and> dq_bytes d = [7, 2, 3, 0, 0, 9]"
proof -
  have all: "case encoder_new sample_config 7 8 (hub_new 0) of
      (Inl e, h) \<Rightarrow> False
    | (Inr en, h) \<Rightarrow> (case encoder_calls sample_config sample_encoding (en, h) of
        None \<Rightarrow> False
      | Some (en', h') \<Rightarrow> fst (encoder_finish sample_config en' None h') = Inr 1)"
    by code_simp
  obtain en h where n: "encoder_new sample_config 7 8 (hub_new 0) = (Inr en, h)"
    using all by (auto split: prod.splits sum.splits)
  obtain en' h' where k: "encoder_calls sample_config sample_encoding (en, h) = Some (en', h')"
    and f: "fst (encoder_finish sample_config en' None h') = Inr 1"
    using all n by (auto split: option.splits prod.splits)
  obtain h'' where f: "encoder_finish sample_config en' None h' = (Inr 1, h'')"
    using f by (cases "encoder_finish sample_config en' None h'") auto
  have "wd_hub sample_world = hub_new 0" "hub_operations (hub_new 0) = []"
    by (simp_all add: sample_world_def hub_new_def)
  moreover have "fst (file_calls sample_encoding) = [7, 2, 3, 0, 0, 9]" by code_simp
  ultimately show ?thesis
    using encoder_writes_like_a_file [OF sample_reachable _ _ k f, of 7 8] n k f by auto
qed

lemma write_failure_sticks: "write_at_position c bytes w = (Inl e, w') \<Longrightarrow> en_failure (fst w') = Some e"
  by (auto simp: write_at_position_def encoding_def split: option.splits if_splits prod.splits sum.splits)

lemma drop_encoder_revokes:
  assumes "hub_reachable c w" "en_blob en = Some b" "b \<le> hub_next_opaque_token (wd_hub w)"
  shows "bt_get (hub_resources (drop_encoder c en (wd_hub w))) b = None"
proof -
  obtain r h1 where s: "close_resource_section b T_Closed (wd_hub w) = (r, h1)" by (rule prod.exhaust)
  have T1: "tracks c {} (wd_hub w) h1"
    using tracks_close_section [OF tracks_refl [OF reachable_hub_inv [OF assms(1)]], of b T_Closed] s by simp
  obtain h2 where d: "drive_blob_writes c h1 = (Inr (), h2)" "tracks c {} h1 h2"
    using tracks_drive_writes [OF reachable_limits [OF assms(1)] tracks_refl, of "{}" h1] T1 by (auto simp: tracks_def)
  have gone: "bt_get (hub_resources h1) b = None"
    using s close_resource_gone(1) [of b T_Closed "wd_hub w"]
    by (auto simp: close_resource_section_def s_bind_def notify_all_def split: prod.splits sum.splits)
  have "b \<le> hub_next_opaque_token h1"
    using T1 assms(3) evolvesD(1) [of True "wd_hub w" h1] by (simp add: tracks_def)
  then have "bt_get (hub_resources h2) b = None"
    using d(2) evolvesD(5) [of True h1 h2 b] gone by (cases "bt_get (hub_resources h2) b") (auto simp: tracks_def)
  with s d(1) gone show ?thesis
    by (cases r) (simp_all add: drop_encoder_def s_ignore_def close_resource_def close_resource_with_terminal_def
        assms(2) s_bind_def)
qed

text \<open>C32: an encoding that failed is never seen: after a refused write the encoder cannot be finished, however
  much later it is tried, and the attempt revokes the blob with what was written so far.\<close>

theorem failed_encoding_withheld:
  assumes "write_at_position c bytes (en, h) = (Inl e, (en', h'))" and "en_blob en' = Some b"
    and "hub_reachable c w" and "b \<le> hub_next_opaque_token (wd_hub w)"
  shows "\<exists>e' h''. encoder_finish c en' operation (wd_hub w) = (Inl e', h'')
    \<and> bt_get (hub_resources h'') b = None"
  using write_failure_sticks [OF assms(1)] drop_encoder_revokes [OF assms(3,2,4)]
  by (auto simp: encoder_finish_def)

theorem failed_encoding_withheld_witness:
  "\<exists>en h w en' h' e h''. encoder_new sample_config 7 8 (hub_new 0) = (Inr en, h) \<and> hub_reachable sample_config w
     \<and> wd_hub w = h' \<and> write_at_position sample_config (replicate 9 0) (en, h) = (Inl Quota, (en', h'))
     \<and> encoder_finish sample_config en' None h' = (Inl e, h'') \<and> bt_get (hub_resources h'') 1 = None"
proof -
  have all: "case encoder_new sample_config 7 8 (hub_new 0) of
      (Inl e, h) \<Rightarrow> False
    | (Inr en, h) \<Rightarrow> (case write_at_position sample_config (replicate 9 0) (en, h) of
        (r, en', h') \<Rightarrow> r = Inl Quota \<and> en_blob en' = Some 1 \<and> hub_next_opaque_token h' = 1)"
    by code_simp
  obtain en h where n: "encoder_new sample_config 7 8 (hub_new 0) = (Inr en, h)"
    using all by (auto split: prod.splits sum.splits)
  obtain r en' h' where k: "write_at_position sample_config (replicate 9 0) (en, h) = (r, en', h')"
    by (rule prod_cases3)
  have k': "r = Inl Quota" "en_blob en' = Some 1" "hub_next_opaque_token h' = 1" using all n k by simp_all
  have "leads_to sample_config sample_world h"
    using leads_run [OF run_encoder_new(1), of sample_config sample_world 7 8] n by (simp add: sample_world_def)
  then obtain w1 where w1: "hub_runs sample_config sample_world w1" "wd_hub w1 = h" by (auto simp: leads_to_def)
  have "leads_to sample_config w1 h'"
    using leads_run [OF encoder_runD [OF encoder_write_run], of sample_config w1 "replicate 9 0" en] k w1(2) by simp
  then obtain w2 where w2: "hub_runs sample_config w1 w2" "wd_hub w2 = h'" by (auto simp: leads_to_def)
  note R = reachable_runs [OF reachable_runs [OF sample_reachable w1(1)] w2(1)]
  obtain e h'' where "encoder_finish sample_config en' None h' = (Inl e, h'')" "bt_get (hub_resources h'') 1 = None"
    using failed_encoding_withheld [OF _ k'(2) R, of "replicate 9 0" en h Quota h' None] k k' w2(2) by auto
  with n k k'(1) R w2(2) show ?thesis by blast
qed

end
