(* ===== verification/Terminal_Keys.thy ===== *)
theory Terminal_Keys
  imports Prelude "HOL-Library.Code_Target_Nat"
begin

text \<open>
  The terminal key decoder of \<^verbatim>\<open>src/src/keys.rs\<close>: a byte-driven state machine that turns
  what a terminal sends into keys, and the poll loop that feeds it from the chunks of an input
  session. The lemmas show that its buffers stay bounded, that an error poisons it, that a pasted
  text never becomes keys, that typed characters are read back, and that polling feeds the bytes
  of the terminal in order, each once.

  A \<^verbatim>\<open>char\<close> is its code point. The input session is code of the platform layer: what its
  \<^verbatim>\<open>read_chunk\<close> answers is an argument of the loop, and so are the clock readings.
\<close>

section \<open>The decoder\<close>

datatype Key = Character nat | Enter | Key_Escape | Other

record KeyModifiers =
  km_control :: bool
  km_alt :: bool

record KeyEvent =
  ke_key :: Key
  ke_modifiers :: KeyModifiers

datatype key_state =
    Ground
  | Escape
  | EscapeIntermediate
  | Utf8 nat bool
  | Csi
  | Ss3
  | Paste nat
  | Control_String bool bool
  | Failed

record KeyDecoder =
  kd_state :: key_state
  kd_pending :: "u8 list"
  kd_consumed :: nat

datatype key_error = InvalidData | InvalidWait | ReadFailed

type_synonym key_result = "(KeyDecoder, key_error, KeyEvent option) state_result"

definition decoder_new :: KeyDecoder where
  "decoder_new = \<lparr>kd_state = Ground, kd_pending = [], kd_consumed = 0\<rparr>"

definition failure :: key_result where
  "failure d = (Inl InvalidData, d\<lparr>kd_state := Failed, kd_pending := []\<rparr>)"

definition key_event :: "Key \<Rightarrow> bool \<Rightarrow> bool \<Rightarrow> key_result" where
  "key_event k control alt d =
     (Inr (Some \<lparr>ke_key = k, ke_modifiers = \<lparr>km_control = control, km_alt = alt\<rparr>\<rparr>),
      d\<lparr>kd_state := Ground, kd_pending := [], kd_consumed := 0\<rparr>)"

definition key_waits :: "key_state \<Rightarrow> key_result" where
  "key_waits st d = (Inr None, d\<lparr>kd_state := st\<rparr>)"

definition character :: "u8 \<Rightarrow> bool \<Rightarrow> key_result" where
  "character byte alt d =
     (if byte = 13 \<or> byte = 10 then key_event Enter False alt d
      else if 1 \<le> byte \<and> byte \<le> 26 then key_event (Character (96 + unat byte)) True alt d
      else if 32 \<le> byte \<and> byte \<le> 126 then key_event (Character (unat byte)) False alt d
      else if byte = 0 \<or> (28 \<le> byte \<and> byte \<le> 31) \<or> byte = 127 then key_event Other False alt d
      else if 0xC2 \<le> byte \<and> byte \<le> 0xF4 then
        key_waits (Utf8 (if byte < 0xE0 then 2 else if byte < 0xF0 then 3 else 4) alt)
          (d\<lparr>kd_pending := kd_pending d @ [byte]\<rparr>)
      else failure d)"

text \<open>\<^verbatim>\<open>from_utf8(..).ok().and_then(|text| text.chars().next())\<close>.\<close>

definition utf8_first :: "u8 list \<Rightarrow> nat option" where
  "utf8_first bytes =
     (if \<not> utf8_valid bytes then None
      else case bytes of
        [] \<Rightarrow> None
      | a # r \<Rightarrow>
          let low = (\<lambda>b. unat b - 0x80) in
          Some (if a < 0x80 then unat a
                else if a < 0xE0 then (unat a - 0xC0) * 64 + low (r ! 0)
                else if a < 0xF0 then (unat a - 0xE0) * 4096 + low (r ! 0) * 64 + low (r ! 1)
                else (unat a - 0xF0) * 262144 + low (r ! 0) * 4096 + low (r ! 1) * 64 + low (r ! 2)))"

definition paste_start :: "u8 list" where
  "paste_start = [0x32, 0x30, 0x30, 0x7E]"

definition paste_marker :: "u8 list" where
  "paste_marker = [27, 0x5B, 0x32, 0x30, 0x31, 0x7E]"

definition push_escape :: "u8 \<Rightarrow> key_result" where
  "push_escape byte d =
     (if byte = 0x5B then key_waits Csi d
      else if byte = 0x4F then key_waits Ss3 d
      else if byte = 27 then
        (case key_event Key_Escape False False d of
           (r, d) \<Rightarrow> (r, d\<lparr>kd_state := Escape, kd_consumed := 1\<rparr>))
      else if byte = 0x5D \<or> byte = 0x50 \<or> byte = 0x5F \<or> byte = 0x5E \<or> byte = 0x58 then
        key_waits (Control_String (byte = 0x5D) False) d
      else if 0x20 \<le> byte \<and> byte \<le> 0x2F then key_waits EscapeIntermediate d
      else character byte True d)"

definition push_intermediate :: "u8 \<Rightarrow> key_result" where
  "push_intermediate byte d =
     (if 0x20 \<le> byte \<and> byte \<le> 0x2F \<and> kd_consumed d \<le> 128 then (Inr None, d)
      else if 0x30 \<le> byte \<and> byte \<le> 0x7E then key_event Other False False d
      else failure d)"

definition push_utf8 :: "nat \<Rightarrow> bool \<Rightarrow> u8 \<Rightarrow> key_result" where
  "push_utf8 len alt byte d =
     (let d = d\<lparr>kd_pending := kd_pending d @ [byte]\<rparr> in
      if length (kd_pending d) < len then (Inr None, d)
      else case utf8_first (kd_pending d) of
        Some ch \<Rightarrow> key_event (Character ch) False alt d
      | None \<Rightarrow> failure d)"

definition push_sequence :: "bool \<Rightarrow> u8 \<Rightarrow> key_result" where
  "push_sequence csi byte d =
     (if 128 \<le> length (kd_pending d) then failure d
      else let d = d\<lparr>kd_pending := kd_pending d @ [byte]\<rparr> in
        if 0x20 \<le> byte \<and> byte \<le> 0x3F then (Inr None, d)
        else if 0x40 \<le> byte \<and> byte \<le> 0x7E \<and> csi \<and> kd_pending d = paste_start then
          key_waits (Paste 0) (d\<lparr>kd_pending := []\<rparr>)
        else if byte = 0x4D \<and> csi \<and> kd_pending d = [0x4D] then failure d
        else if 0x40 \<le> byte \<and> byte \<le> 0x7E then key_event Other False False d
        else failure d)"

definition push_paste :: "nat \<Rightarrow> u8 \<Rightarrow> key_result" where
  "push_paste matched byte d =
     (let matched = (if byte = paste_marker ! matched then matched + 1 else if byte = 27 then 1 else 0) in
      if matched = length paste_marker then key_event Other False False d
      else key_waits (Paste matched) d)"

definition push_string :: "bool \<Rightarrow> bool \<Rightarrow> u8 \<Rightarrow> key_result" where
  "push_string bell escape byte d =
     (if (bell \<and> byte = 7) \<or> (escape \<and> byte = 0x5C) then key_event Other False False d
      else key_waits (Control_String bell (byte = 27)) d)"

definition push :: "u8 \<Rightarrow> key_result" where
  "push byte d =
     (let d = d\<lparr>kd_consumed := kd_consumed d + 1\<rparr> in
      if 65536 < kd_consumed d then failure d
      else case kd_state d of
        Failed \<Rightarrow> failure d
      | Ground \<Rightarrow> if byte = 27 then key_waits Escape d else character byte False d
      | Escape \<Rightarrow> push_escape byte d
      | EscapeIntermediate \<Rightarrow> push_intermediate byte d
      | Utf8 len alt \<Rightarrow> push_utf8 len alt byte d
      | Csi \<Rightarrow> push_sequence True byte d
      | Ss3 \<Rightarrow> push_sequence False byte d
      | Paste matched \<Rightarrow> push_paste matched byte d
      | Control_String bell escape \<Rightarrow> push_string bell escape byte d)"

definition finish_pending :: key_result where
  "finish_pending d =
     (case kd_state d of
        Ground \<Rightarrow> (Inr None, d)
      | Escape \<Rightarrow> key_event Key_Escape False False d
      | _ \<Rightarrow> failure d)"

section \<open>Polling\<close>

datatype read_answer = Read_Error | Read_Nothing | Read_Chunk "u8 list"

record TerminalKeys =
  tk_decoder :: KeyDecoder
  tk_bytes :: "u8 list"
  tk_cursor :: nat
  tk_partial_since :: "nat option"

definition keys_new :: TerminalKeys where
  "keys_new = \<lparr>tk_decoder = decoder_new, tk_bytes = [], tk_cursor = 0, tk_partial_since = None\<rparr>"

text \<open>Feeding the byte under the cursor; \<open>Inr None\<close> goes on with the loop.\<close>

definition poll_byte :: "nat \<Rightarrow> (TerminalKeys, key_error, KeyEvent option) state_result" where
  "poll_byte now tk =
     (case push (tk_bytes tk ! tk_cursor tk) (tk_decoder tk) of
        (r, d) \<Rightarrow>
          let tk = tk\<lparr>tk_decoder := d, tk_cursor := tk_cursor tk + 1\<rparr> in
          (r, case r of
                Inl _ \<Rightarrow> tk
              | Inr (Some _) \<Rightarrow> tk\<lparr>tk_partial_since := (if kd_state d \<noteq> Ground then Some now else None)\<rparr>
              | Inr None \<Rightarrow>
                  tk\<lparr>tk_partial_since := (case tk_partial_since tk of None \<Rightarrow> Some now | since \<Rightarrow> since)\<rparr>))"

text \<open>
  The loop of at most so many turns. \<open>clock\<close> gives the instants it reads, \<open>reads\<close> what the session
  answers when the buffer is used up; a session with no more answers has nothing in time.
\<close>

primrec poll_loop :: "nat \<Rightarrow> (nat \<Rightarrow> nat) \<Rightarrow> read_answer list \<Rightarrow> TerminalKeys \<Rightarrow>
    (key_error + KeyEvent option) \<times> TerminalKeys \<times> read_answer list" where
  "poll_loop 0 clock reads tk = (Inr None, tk, reads)"
| "poll_loop (Suc turns) clock reads tk =
     (let go = (\<lambda>tk reads. case poll_byte (clock turns) tk of
                  (Inr None, tk) \<Rightarrow> poll_loop turns clock reads tk
                | (r, tk) \<Rightarrow> (r, tk, reads)) in
      if tk_cursor tk = length (tk_bytes tk) then
        (let tk = tk\<lparr>tk_bytes := [], tk_cursor := 0\<rparr> in
         case reads of
           [] \<Rightarrow> (Inr None, tk, [])
         | Read_Error # reads \<Rightarrow> (Inl ReadFailed, tk, reads)
         | Read_Nothing # reads \<Rightarrow> (Inr None, tk, reads)
         | Read_Chunk data # reads \<Rightarrow>
             if data = [] then (Inr None, tk, reads) else go (tk\<lparr>tk_bytes := data\<rparr>) reads)
      else go tk reads)"

definition poll :: "nat \<Rightarrow> nat \<Rightarrow> (nat \<Rightarrow> nat) \<Rightarrow> read_answer list \<Rightarrow> TerminalKeys \<Rightarrow>
    (key_error + KeyEvent option) \<times> TerminalKeys \<times> read_answer list" where
  "poll wait now clock reads tk =
     (if 100 * 1000000 < wait then (Inl InvalidWait, tk, reads)
      else if tk_cursor tk = length (tk_bytes tk)
        \<and> (case tk_partial_since tk of None \<Rightarrow> False | Some start \<Rightarrow> 250 * 1000000 \<le> now - start) then
        (case finish_pending (tk_decoder tk) of
           (r, d) \<Rightarrow> (r, tk\<lparr>tk_decoder := d, tk_partial_since := None\<rparr>, reads))
      else poll_loop 65536 clock reads tk)"

section \<open>Bounds, and errors that stick\<close>

primrec feed :: "u8 list \<Rightarrow> KeyDecoder \<Rightarrow> (key_error + KeyEvent option) list \<times> KeyDecoder" where
  "feed [] d = ([], d)"
| "feed (byte # bytes) d =
     (case push byte d of (r, d) \<Rightarrow> case feed bytes d of (rs, d) \<Rightarrow> (r # rs, d))"

lemma feed_append:
  "feed (xs @ ys) d = (fst (feed xs d) @ fst (feed ys (snd (feed xs d))), snd (feed ys (snd (feed xs d))))"
  by (induction xs arbitrary: d) (auto simp: split_beta)

lemma length_feed [simp]: "length (fst (feed bytes d)) = length bytes"
  by (induction bytes arbitrary: d) (auto simp: split_beta)

fun pending_ok :: "key_state \<Rightarrow> nat \<Rightarrow> bool" where
  "pending_ok (Utf8 len alt) n \<longleftrightarrow> 0 < n \<and> n < len \<and> len \<le> 4"
| "pending_ok Csi n \<longleftrightarrow> n \<le> 128"
| "pending_ok Ss3 n \<longleftrightarrow> n \<le> 128"
| "pending_ok (Paste matched) n \<longleftrightarrow> matched < 6 \<and> n = 0"
| "pending_ok _ n \<longleftrightarrow> n = 0"

definition decoder_ok :: "KeyDecoder \<Rightarrow> bool" where
  "decoder_ok d \<longleftrightarrow> pending_ok (kd_state d) (length (kd_pending d))
     \<and> (kd_state d \<noteq> Failed \<longrightarrow> kd_consumed d \<le> 65536) \<and> (kd_state d = Ground \<longrightarrow> kd_consumed d = 0)"

lemmas push_defs = push_def push_escape_def push_intermediate_def push_utf8_def push_sequence_def push_paste_def
  push_string_def character_def key_event_def key_waits_def failure_def Let_def

lemma length_markers [simp]: "length paste_marker = 6" "length paste_start = 4"
  by (simp_all add: paste_marker_def paste_start_def)

lemma push_ok: "decoder_ok d \<Longrightarrow> decoder_ok (snd (push byte d))"
  by (cases "kd_state d") (auto simp: push_defs decoder_ok_def split: option.split)

lemma feed_ok: "decoder_ok d \<Longrightarrow> decoder_ok (snd (feed bytes d))"
  by (induction bytes arbitrary: d) (simp_all add: split_beta push_ok)

lemma decoder_new_ok: "decoder_ok decoder_new"
  by (simp add: decoder_ok_def decoder_new_def)

lemma pending_bound: "decoder_ok d \<Longrightarrow> length (kd_pending d) \<le> 128"
  by (cases "kd_state d") (auto simp: decoder_ok_def)

lemma push_error: "fst (push byte d) = Inl e \<Longrightarrow> e = InvalidData \<and> kd_state (snd (push byte d)) = Failed"
  by (cases "kd_state d") (auto simp: push_defs split: option.splits if_splits)

lemma push_failed: "kd_state d = Failed \<Longrightarrow> fst (push byte d) = Inl InvalidData \<and> kd_state (snd (push byte d)) = Failed"
  by (simp add: push_defs)

lemma feed_failed:
  "kd_state d = Failed \<Longrightarrow> set (fst (feed bytes d)) \<subseteq> {Inl InvalidData} \<and> kd_state (snd (feed bytes d)) = Failed"
  by (induction bytes arbitrary: d) (use push_failed in \<open>auto simp: split_beta\<close>)

lemma feed_error: "Inl e \<in> set (fst (feed bytes d)) \<Longrightarrow> kd_state (snd (feed bytes d)) = Failed"
proof (induction bytes arbitrary: d)
  case (Cons byte bytes)
  show ?case
  proof (cases "fst (push byte d) = Inl e")
    case True
    with push_error feed_failed show ?thesis by (simp add: split_beta)
  next
    case False
    with Cons show ?thesis by (auto simp: split_beta)
  qed
qed simp

text \<open>C36: the decoder is bounded and fails closed: whatever bytes a terminal sends, at most 128 of them are
  kept and an unfinished sequence never grows beyond 64 KiB, and once a byte was refused every
  later byte is refused as well, so the rest of a bad sequence cannot become keys.\<close>

theorem decoder_bounded_fails_closed:
  assumes "feed bytes decoder_new = (results, d)"
  shows "length (kd_pending d) \<le> 128 \<and> (kd_state d \<noteq> Failed \<longrightarrow> kd_consumed d \<le> 65536)
    \<and> (Inl e \<in> set results \<longrightarrow> set (fst (feed later d)) \<subseteq> {Inl InvalidData}
         \<and> fst (finish_pending (snd (feed later d))) = Inl InvalidData)"
proof -
  have ok: "decoder_ok d" using feed_ok [OF decoder_new_ok, of bytes] assms by simp
  have "Inl e \<in> set results \<longrightarrow> kd_state d = Failed" using feed_error [of e bytes decoder_new] assms by simp
  then show ?thesis
    using pending_bound [OF ok] ok feed_failed [of d later] by (auto simp: decoder_ok_def finish_pending_def failure_def)
qed

lemma only_element: "set xs \<subseteq> {x} \<Longrightarrow> length xs = length [y] \<Longrightarrow> xs = [x]"
  by (cases xs) auto

theorem decoder_bounded_fails_closed_witness:
  "feed [27, 0x5B, 0x80] decoder_new = ([Inr None, Inr None, Inl InvalidData],
       \<lparr>kd_state = Failed, kd_pending = [], kd_consumed = 3\<rparr>)
   \<and> fst (feed [97] \<lparr>kd_state = Failed, kd_pending = [], kd_consumed = 3\<rparr>) = [Inl InvalidData]"
proof -
  let ?d = "\<lparr>kd_state = Failed, kd_pending = [], kd_consumed = 3\<rparr>"
  have f: "feed [27, 0x5B, 0x80] decoder_new = ([Inr None, Inr None, Inl InvalidData], ?d)" by code_simp
  have "set (fst (feed [97] ?d)) \<subseteq> {Inl InvalidData}"
    using decoder_bounded_fails_closed [OF f, of InvalidData "[97]"] by simp
  moreover have "length (fst (feed [97] ?d)) = length [97 :: u8]" by (rule length_feed)
  ultimately have "fst (feed [97] ?d) = [Inl InvalidData]" by (rule only_element)
  with f show ?thesis by blast
qed

section \<open>Pasted text\<close>

definition marker_at :: "nat \<Rightarrow> u8 list \<Rightarrow> bool" where
  "marker_at i bytes \<longleftrightarrow> take 6 (drop i bytes) = paste_marker"

lemma marker_at_drop: "marker_at i (drop k bytes) = marker_at (k + i) bytes"
  by (simp add: marker_at_def add.commute)

abbreviation other_key :: KeyEvent where
  "other_key \<equiv> \<lparr>ke_key = Other, ke_modifiers = \<lparr>km_control = False, km_alt = False\<rparr>\<rparr>"

abbreviation in_paste :: "nat \<Rightarrow> nat \<Rightarrow> KeyDecoder" where
  "in_paste matched n \<equiv> \<lparr>kd_state = Paste matched, kd_pending = [], kd_consumed = n\<rparr>"

lemma push_in_paste:
  assumes "n < 65536" "m < 6"
  shows "push byte (in_paste m n) =
    (let m' = (if byte = paste_marker ! m then m + 1 else if byte = 27 then 1 else 0) in
     if m' = 6 then (Inr (Some other_key), decoder_new) else (Inr None, in_paste m' (n + 1)))"
  using assms by (simp add: push_def push_paste_def key_event_def key_waits_def decoder_new_def Let_def)

lemma marker_nths: "paste_marker ! 0 = 27" "m < 6 \<Longrightarrow> paste_marker ! m = 27 \<longleftrightarrow> m = 0"
  by (simp_all add: paste_marker_def nth_Cons' )

lemma paste_end:
  assumes "m < 6" "n + 6 \<le> 65536"
  shows "feed paste_marker (in_paste m n) = (replicate 5 (Inr None) @ [Inr (Some other_key)], decoder_new)"
proof -
  have 0: "push 27 (in_paste m n) = (Inr None, in_paste 1 (n + 1))"
    using assms marker_nths(2) [of m] by (auto simp: push_in_paste Let_def)
  have "push 0x5B (in_paste 1 (n + 1)) = (Inr None, in_paste 2 (n + 2))"
    "push 0x32 (in_paste 2 (n + 2)) = (Inr None, in_paste 3 (n + 3))"
    "push 0x30 (in_paste 3 (n + 3)) = (Inr None, in_paste 4 (n + 4))"
    "push 0x31 (in_paste 4 (n + 4)) = (Inr None, in_paste 5 (n + 5))"
    "push 0x7E (in_paste 5 (n + 5)) = (Inr (Some other_key), decoder_new)"
    using assms(2) by (simp_all add: push_in_paste paste_marker_def Let_def)
  moreover have "replicate 5 (Inr None) = [Inr None, Inr None, Inr None, Inr None, Inr None :: key_error + KeyEvent option]"
    by code_simp
  ultimately show ?thesis
    unfolding paste_marker_def by (simp only: 0 feed.simps prod.case append_Cons append_Nil)
qed

text \<open>The matcher needs no table: only the first byte of the marker is an Escape.\<close>

lemma paste_text:
  assumes "m < 6" "n + length bytes + 6 \<le> 65536"
    "\<And>i. i < m + length bytes \<Longrightarrow> \<not> marker_at i (take m paste_marker @ bytes @ paste_marker)"
  shows "feed (bytes @ paste_marker) (in_paste m n)
    = (replicate (length bytes + 5) (Inr None) @ [Inr (Some other_key)], decoder_new)"
  using assms
proof (induction bytes arbitrary: m n)
  case Nil
  then show ?case using paste_end by simp
next
  case (Cons byte bytes)
  define m' where "m' = (if byte = paste_marker ! m then m + 1 else if byte = 27 then 1 else (0::nat))"
  have cut: "\<exists>k. k + m' = m + 1 \<and> drop k (take m paste_marker @ byte # bytes @ paste_marker)
      = take m' paste_marker @ bytes @ paste_marker"
  proof (cases "byte = paste_marker ! m")
    case True
    with Cons.prems(1) show ?thesis
      by (intro exI [of _ 0]) (simp add: m'_def take_Suc_conv_app_nth)
  next
    case False
    with Cons.prems(1) show ?thesis
      by (intro exI [of _ "m + 1 - m'"]) (auto simp: m'_def paste_marker_def)
  qed
  then obtain k where k: "k + m' = m + 1" "drop k (take m paste_marker @ byte # bytes @ paste_marker)
      = take m' paste_marker @ bytes @ paste_marker" by blast
  have none: "\<not> marker_at i (take m' paste_marker @ bytes @ paste_marker)" if "i < m' + length bytes" for i
  proof -
    have "k + i < m + length (byte # bytes)" using that k(1) by simp
    with Cons.prems(3) have "\<not> marker_at (k + i) (take m paste_marker @ byte # bytes @ paste_marker)" by simp
    then show ?thesis by (simp only: marker_at_drop not_False_eq_True flip: k(2))
  qed
  have "m' \<noteq> 6"
  proof
    assume "m' = 6"
    then have "marker_at 0 (take m' paste_marker @ bytes @ paste_marker)" by (simp add: marker_at_def)
    with none [of 0] \<open>m' = 6\<close> show False by simp
  qed
  then have m': "m' < 6" using Cons.prems(1) by (auto simp: m'_def split: if_splits)
  have "push byte (in_paste m n) = (Inr None, in_paste m' (n + 1))"
    using Cons.prems \<open>m' \<noteq> 6\<close> by (simp add: push_in_paste flip: m'_def)
  moreover have "feed (bytes @ paste_marker) (in_paste m' (n + 1))
      = (replicate (length bytes + 5) (Inr None) @ [Inr (Some other_key)], decoder_new)"
    using Cons.prems(2) by (intro Cons.IH [OF m' _ none]) simp_all
  moreover have "length (byte # bytes) + 5 = Suc (length bytes + 5)" by simp
  ultimately show ?case by (simp only: append_Cons feed.simps prod.case replicate_Suc)
qed

text \<open>C33: a paste is opaque: a text between the bracketed-paste markers that is at most 64 KiB long
  together with both markers, and has no closing marker before its end, gives one unspecific key
  when the paste ends and nothing before, whatever else it contains, and leaves the decoder as
  new.\<close>

theorem paste_is_opaque:
  assumes "length bytes + 12 \<le> 65536" and "\<And>i. i < length bytes \<Longrightarrow> \<not> marker_at i (bytes @ paste_marker)"
  shows "feed ([27, 0x5B] @ paste_start @ bytes @ paste_marker) decoder_new
    = (replicate (length bytes + 11) (Inr None) @ [Inr (Some other_key)], decoder_new)"
proof -
  have start: "feed ([27, 0x5B] @ paste_start) decoder_new = (replicate 6 (Inr None), in_paste 0 6)" by code_simp
  have body: "feed (bytes @ paste_marker) (in_paste 0 6)
      = (replicate (length bytes + 5) (Inr None) @ [Inr (Some other_key)], decoder_new)"
    using assms by (intro paste_text) auto
  have "feed (([27, 0x5B] @ paste_start) @ bytes @ paste_marker) decoder_new
      = ((replicate 6 (Inr None) @ replicate (length bytes + 5) (Inr None)) @ [Inr (Some other_key)], decoder_new)"
    by (simp only: feed_append [of "[27, 0x5B] @ paste_start"] start body fst_conv snd_conv) (simp only: append_assoc)
  moreover have "6 + (length bytes + 5) = length bytes + 11" by simp
  ultimately show ?thesis by (simp only: append_assoc flip: replicate_add)
qed

text \<open>A paste of a space, an Enter and the beginning of a closing marker.\<close>

definition sample_paste :: "u8 list" where
  "sample_paste = [0x20, 13, 27, 0x5B, 0x32, 27]"

theorem paste_is_opaque_witness:
  "fst (feed ([27, 0x5B] @ paste_start @ sample_paste @ paste_marker) decoder_new)
     = replicate 17 (Inr None) @ [Inr (Some other_key)]"
proof -
  have len: "length sample_paste = 6" by (simp add: sample_paste_def)
  have "list_all (\<lambda>i. \<not> marker_at i (sample_paste @ paste_marker)) [0..<6]" by code_simp
  then have "\<not> marker_at i (sample_paste @ paste_marker)" if "i < length sample_paste" for i
    using that by (simp add: list_all_iff len)
  from paste_is_opaque [OF _ this] len show ?thesis by simp
qed

section \<open>Typed text\<close>

text \<open>The UTF-8 encoding of a code point, as \<^verbatim>\<open>char::encode_utf8\<close> defines it.\<close>

definition utf8_encode :: "nat \<Rightarrow> u8 list" where
  "utf8_encode ch =
     (if ch < 0x80 then [of_nat ch]
      else if ch < 0x800 then [of_nat (0xC0 + ch div 64), of_nat (0x80 + ch mod 64)]
      else if ch < 0x10000 then
        [of_nat (0xE0 + ch div 4096), of_nat (0x80 + ch div 64 mod 64), of_nat (0x80 + ch mod 64)]
      else [of_nat (0xF0 + ch div 262144), of_nat (0x80 + ch div 4096 mod 64),
            of_nat (0x80 + ch div 64 mod 64), of_nat (0x80 + ch mod 64)])"

text \<open>What a key that types a character can send: printable ASCII, or any scalar value beyond it.\<close>

definition typed :: "nat \<Rightarrow> bool" where
  "typed ch \<longleftrightarrow> 32 \<le> ch \<and> ch \<le> 126 \<or> 0x80 \<le> ch \<and> ch < 0xD800 \<or> 0xE000 \<le> ch \<and> ch < 0x110000"

definition plain_key :: "nat \<Rightarrow> KeyEvent" where
  "plain_key ch = \<lparr>ke_key = Character ch, ke_modifiers = \<lparr>km_control = False, km_alt = False\<rparr>\<rparr>"

lemma unat_u8: "n < 256 \<Longrightarrow> unat (of_nat n :: u8) = n"
  by (simp add: unat_of_nat)

lemma u8_le: "n < 256 \<Longrightarrow> (of_nat n :: u8) \<le> w \<longleftrightarrow> n \<le> unat w" "n < 256 \<Longrightarrow> w \<le> (of_nat n :: u8) \<longleftrightarrow> unat w \<le> n"
  "n < 256 \<Longrightarrow> (of_nat n :: u8) < w \<longleftrightarrow> n < unat w"
  by (simp_all add: word_le_nat_alt word_less_nat_alt unat_u8)

lemma u8_eq: "n < 256 \<Longrightarrow> (of_nat n :: u8) = w \<longleftrightarrow> n = unat w"
  by (simp add: word_unat_eq_iff unat_u8)

lemmas u8_simps = u8_le u8_eq unat_u8

abbreviation in_utf8 :: "nat \<Rightarrow> u8 list \<Rightarrow> KeyDecoder" where
  "in_utf8 len bytes \<equiv> \<lparr>kd_state = Utf8 len False, kd_pending = bytes, kd_consumed = length bytes\<rparr>"

lemma push_lead:
  assumes "0xC2 \<le> a" "a \<le> 0xF4"
  shows "push (of_nat a) decoder_new
    = (Inr None, in_utf8 (if a < 0xE0 then 2 else if a < 0xF0 then 3 else 4) [of_nat a])"
  using assms by (simp add: push_def character_def key_waits_def decoder_new_def u8_simps)

lemma push_more:
  "length bytes < 4 \<Longrightarrow> length bytes + 1 < len \<Longrightarrow>
   push b (in_utf8 len bytes) = (Inr None, in_utf8 len (bytes @ [b]))"
  by (simp add: push_def push_utf8_def)

lemma push_last:
  "length bytes < 4 \<Longrightarrow> len \<le> length bytes + 1 \<Longrightarrow> utf8_first (bytes @ [b]) = Some ch \<Longrightarrow>
   push b (in_utf8 len bytes) = (Inr (Some (plain_key ch)), decoder_new)"
  by (simp add: push_def push_utf8_def key_event_def plain_key_def decoder_new_def)

lemma utf8_first_two:
  assumes "0x80 \<le> ch" "ch < 0x800"
  shows "utf8_first (utf8_encode ch) = Some ch"
proof -
  have "2 \<le> ch div 64" "ch div 64 < 32" "ch mod 64 < 64" using assms by auto
  with assms show ?thesis
    by (simp add: utf8_encode_def utf8_first_def utf8_continuation_def u8_simps Let_def del: of_nat_add)
qed

lemma digits:
  fixes n :: nat
  shows "n div 64 * 64 + n mod 64 = n" "n div 4096 * 64 + n div 64 mod 64 = n div 64"
    "n div 262144 * 64 + n div 4096 mod 64 = n div 4096"
proof -
  have "n div 4096 = n div 64 div 64" "n div 262144 = n div 4096 div 64" by (simp_all flip: div_mult2_eq)
  then show "n div 64 * 64 + n mod 64 = n" "n div 4096 * 64 + n div 64 mod 64 = n div 64"
    "n div 262144 * 64 + n div 4096 mod 64 = n div 4096" by (simp_all only: div_mult_mod_eq)
qed

lemma utf8_first_three:
  assumes "0x800 \<le> ch" "ch < 0x10000" "ch < 0xD800 \<or> 0xE000 \<le> ch"
  shows "utf8_first (utf8_encode ch) = Some ch"
proof -
  let ?q = "ch div 4096" and ?r = "ch div 64 mod 64" and ?s = "ch mod 64"
  have b: "?q < 16" "?r < 64" "?s < 64" using assms by auto
  have sum: "?q * 4096 + ?r * 64 + ?s = ch" using digits [of ch] by linarith
  have e: "?q = 0 \<Longrightarrow> 32 \<le> ?r" "?q = 13 \<Longrightarrow> ?r \<le> 31" using assms sum b by linarith+
  have b': "?r \<le> 63" "?s \<le> 63" using b by linarith+
  have enc: "utf8_encode ch = [of_nat (0xE0 + ?q), of_nat (0x80 + ?r), of_nat (0x80 + ?s)]"
    using assms by (simp add: utf8_encode_def)
  have val: "utf8_valid [of_nat (0xE0 + ?q), of_nat (0x80 + ?r), of_nat (0x80 + ?s)]"
    using b b' e by (simp add: utf8_continuation_def u8_simps del: of_nat_add)
  show ?thesis
    unfolding enc utf8_first_def using b val sum by (simp add: u8_simps Let_def del: of_nat_add utf8_valid.simps)
qed

lemma utf8_first_four:
  assumes "0x10000 \<le> ch" "ch < 0x110000"
  shows "utf8_first (utf8_encode ch) = Some ch"
proof -
  let ?p = "ch div 262144" and ?q = "ch div 4096 mod 64" and ?r = "ch div 64 mod 64" and ?s = "ch mod 64"
  have b: "?p \<le> 4" "?q < 64" "?r < 64" "?s < 64" using assms by auto
  have sum: "?p * 262144 + ?q * 4096 + ?r * 64 + ?s = ch" using digits [of ch] by linarith
  have e: "?p = 0 \<Longrightarrow> 16 \<le> ?q" "?p = 4 \<Longrightarrow> ?q \<le> 15" using assms sum b by linarith+
  have b': "?q \<le> 63" "?r \<le> 63" "?s \<le> 63" using b by linarith+
  have enc: "utf8_encode ch = [of_nat (0xF0 + ?p), of_nat (0x80 + ?q), of_nat (0x80 + ?r), of_nat (0x80 + ?s)]"
    using assms by (simp add: utf8_encode_def)
  have val: "utf8_valid [of_nat (0xF0 + ?p), of_nat (0x80 + ?q), of_nat (0x80 + ?r), of_nat (0x80 + ?s)]"
    using b b' e by (simp add: utf8_continuation_def u8_simps del: of_nat_add)
  show ?thesis
    unfolding enc utf8_first_def using b val sum by (simp add: u8_simps Let_def del: of_nat_add utf8_valid.simps)
qed

text \<open>The keys among the results.\<close>

fun keys_of :: "(key_error + KeyEvent option) list \<Rightarrow> KeyEvent list" where
  "keys_of [] = []"
| "keys_of (Inr (Some ev) # rs) = ev # keys_of rs"
| "keys_of (_ # rs) = keys_of rs"

lemma keys_of_append [simp]: "keys_of (xs @ ys) = keys_of xs @ keys_of ys"
  by (induction xs rule: keys_of.induct) auto

lemma feed_character:
  assumes "typed ch"
  shows "keys_of (fst (feed (utf8_encode ch) decoder_new)) = [plain_key ch] \<and> snd (feed (utf8_encode ch) decoder_new) = decoder_new"
proof -
  consider (one) "32 \<le> ch" "ch \<le> 126" | (two) "0x80 \<le> ch" "ch < 0x800"
    | (three) "0x800 \<le> ch" "ch < 0x10000" "ch < 0xD800 \<or> 0xE000 \<le> ch" | (four) "0x10000 \<le> ch" "ch < 0x110000"
    using assms unfolding typed_def by linarith
  then show ?thesis
  proof cases
    case one
    then show ?thesis
      by (simp add: utf8_encode_def push_def character_def key_event_def decoder_new_def plain_key_def u8_simps)
  next
    case two
    let ?a = "of_nat (0xC0 + ch div 64) :: u8"
    obtain b where enc: "utf8_encode ch = [?a, b]" using two by (simp add: utf8_encode_def)
    have l: "push ?a decoder_new = (Inr None, in_utf8 2 [?a])" using two push_lead [of "0xC0 + ch div 64"] by simp
    show ?thesis
      using utf8_first_two [OF two] push_last [of "[?a]" 2 b ch] by (simp add: enc l del: of_nat_add)
  next
    case three
    let ?a = "of_nat (0xE0 + ch div 4096) :: u8"
    obtain b d where enc: "utf8_encode ch = [?a, b, d]" using three by (simp add: utf8_encode_def)
    have l: "push ?a decoder_new = (Inr None, in_utf8 3 [?a])" using three push_lead [of "0xE0 + ch div 4096"] by simp
    show ?thesis
      using utf8_first_three [OF three] push_more [of "[?a]" 3 b] push_last [of "[?a, b]" 3 d ch]
      by (simp add: enc l numeral_2_eq_2 del: of_nat_add)
  next
    case four
    let ?a = "of_nat (0xF0 + ch div 262144) :: u8"
    obtain b d e where enc: "utf8_encode ch = [?a, b, d, e]" using four by (simp add: utf8_encode_def)
    have "ch div 262144 \<le> 4" using four by auto
    then have l: "push ?a decoder_new = (Inr None, in_utf8 4 [?a])" using push_lead [of "0xF0 + ch div 262144"] by simp
    show ?thesis
      using utf8_first_four [OF four] push_more [of "[?a]" 4 b] push_more [of "[?a, b]" 4 d] push_last [of "[?a, b, d]" 4 e ch]
      by (simp add: enc l numeral_2_eq_2 numeral_3_eq_3 del: of_nat_add)
  qed
qed

text \<open>C34: typed text arrives: the UTF-8 bytes of any sequence of printable characters are read as exactly
  these characters, in order and without modifiers, and nothing stays behind.\<close>

theorem typed_text_read:
  assumes "list_all typed chs"
  shows "keys_of (fst (feed (concat (map utf8_encode chs)) decoder_new)) = map plain_key chs
    \<and> snd (feed (concat (map utf8_encode chs)) decoder_new) = decoder_new"
  using assms by (induction chs) (use feed_character in \<open>auto simp: feed_append\<close>)

theorem typed_text_read_witness:
  "map utf8_encode [0x41, 0xE9, 0x20AC, 0x1F600] = [[0x41], [0xC3, 0xA9], [0xE2, 0x82, 0xAC], [0xF0, 0x9F, 0x98, 0x80]]
   \<and> keys_of (fst (feed (concat (map utf8_encode [0x41, 0xE9, 0x20AC, 0x1F600])) decoder_new))
     = [plain_key 0x41, plain_key 0xE9, plain_key 0x20AC, plain_key 0x1F600]"
proof -
  have "list_all typed [0x41, 0xE9, 0x20AC, 0x1F600]" by (simp add: typed_def)
  from typed_text_read [OF this]
  have "keys_of (fst (feed (concat (map utf8_encode [0x41, 0xE9, 0x20AC, 0x1F600])) decoder_new))
     = [plain_key 0x41, plain_key 0xE9, plain_key 0x20AC, plain_key 0x1F600]" by (simp only: list.map)
  moreover have "map utf8_encode [0x41, 0xE9, 0x20AC, 0x1F600]
      = [[0x41], [0xC3, 0xA9], [0xE2, 0x82, 0xAC], [0xF0, 0x9F, 0x98, 0x80]]" by code_simp
  ultimately show ?thesis by blast
qed

section \<open>Polling feeds every byte once\<close>

fun chunk_of :: "read_answer \<Rightarrow> u8 list" where
  "chunk_of (Read_Chunk data) = data"
| "chunk_of _ = []"

text \<open>The bytes not fed yet: the rest of the buffer, then what the session will answer.\<close>

definition unread :: "TerminalKeys \<Rightarrow> read_answer list \<Rightarrow> u8 list" where
  "unread tk reads = drop (tk_cursor tk) (tk_bytes tk) @ concat (map chunk_of reads)"

definition reported :: "key_error + KeyEvent option \<Rightarrow> (key_error + KeyEvent option) list" where
  "reported r = (if r = Inr None \<or> r = Inl ReadFailed then [] else [r])"

definition fed_in_order :: "TerminalKeys \<Rightarrow> read_answer list \<Rightarrow>
    (key_error + KeyEvent option) \<times> TerminalKeys \<times> read_answer list \<Rightarrow> bool" where
  "fed_in_order tk reads x \<longleftrightarrow> (case x of (r, tk', reads') \<Rightarrow>
     tk_cursor tk' \<le> length (tk_bytes tk')
     \<and> (\<exists>fed k. unread tk reads = fed @ unread tk' reads'
          \<and> feed fed (tk_decoder tk) = (replicate k (Inr None) @ reported r, tk_decoder tk')))"

lemma fed_nothing:
  "tk_cursor tk' \<le> length (tk_bytes tk') \<Longrightarrow> unread tk reads = unread tk' reads' \<Longrightarrow>
   tk_decoder tk' = tk_decoder tk \<Longrightarrow> reported r = [] \<Longrightarrow> fed_in_order tk reads (r, tk', reads')"
  by (auto simp: fed_in_order_def intro!: exI [of _ "[]"] exI [of _ 0])

lemma poll_byte_cases:
  assumes "poll_byte now tk = (r, tk')" "tk_cursor tk < length (tk_bytes tk)"
  shows "push (tk_bytes tk ! tk_cursor tk) (tk_decoder tk) = (r, tk_decoder tk')"
    "tk_cursor tk' \<le> length (tk_bytes tk')"
    "unread tk reads = tk_bytes tk ! tk_cursor tk # unread tk' reads"
proof -
  have "push (tk_bytes tk ! tk_cursor tk) (tk_decoder tk) = (r, tk_decoder tk') \<and> tk_bytes tk' = tk_bytes tk
      \<and> tk_cursor tk' = tk_cursor tk + 1"
    using assms(1) by (auto simp: poll_byte_def Let_def split: prod.splits sum.splits option.splits)
  then show "push (tk_bytes tk ! tk_cursor tk) (tk_decoder tk) = (r, tk_decoder tk')"
    "tk_cursor tk' \<le> length (tk_bytes tk')"
    "unread tk reads = tk_bytes tk ! tk_cursor tk # unread tk' reads"
    using assms(2) by (simp_all add: unread_def Cons_nth_drop_Suc)
qed

lemma fed_byte:
  assumes b: "poll_byte now tk = (r, tk1)" "tk_cursor tk < length (tk_bytes tk)"
    and next_turn: "r = Inr None \<Longrightarrow> fed_in_order tk1 reads (rest tk1)"
  shows "fed_in_order tk reads (case r of Inr None \<Rightarrow> rest tk1 | _ \<Rightarrow> (r, tk1, reads))"
proof (cases "r = Inr None")
  case True
  obtain r' tk' reads' where x: "rest tk1 = (r', tk', reads')" by (rule prod_cases3)
  obtain fed k where f: "tk_cursor tk' \<le> length (tk_bytes tk')" "unread tk1 reads = fed @ unread tk' reads'"
      "feed fed (tk_decoder tk1) = (replicate k (Inr None) @ reported r', tk_decoder tk')"
    using next_turn [OF True] unfolding x fed_in_order_def by auto
  note P = poll_byte_cases [OF b]
  show ?thesis
    using f P(1) P(3) [of reads] True x unfolding fed_in_order_def
    by (auto intro!: exI [of _ "tk_bytes tk ! tk_cursor tk # fed"] exI [of _ "Suc k"])
next
  case False
  note P = poll_byte_cases [OF b]
  have "reported r = [r]"
    using False push_error [of "tk_bytes tk ! tk_cursor tk" "tk_decoder tk"] P(1) by (auto simp: reported_def)
  then have "fed_in_order tk reads (r, tk1, reads)"
    using P(1,2) P(3) [of reads] unfolding fed_in_order_def
    by (auto intro!: exI [of _ "[tk_bytes tk ! tk_cursor tk]"] exI [of _ 0])
  with False show ?thesis by (auto split: sum.splits option.splits)
qed

lemma fed_turn:
  assumes "tk_cursor tk < length (tk_bytes tk)"
    and "\<And>tk1. tk_cursor tk1 \<le> length (tk_bytes tk1) \<Longrightarrow> fed_in_order tk1 reads (rest tk1)"
  shows "fed_in_order tk reads (case poll_byte now tk of (Inr None, tk) \<Rightarrow> rest tk | (r, tk) \<Rightarrow> (r, tk, reads))"
proof -
  obtain r tk1 where b: "poll_byte now tk = (r, tk1)" by (rule prod.exhaust)
  have "fed_in_order tk reads (case r of Inr None \<Rightarrow> rest tk1 | _ \<Rightarrow> (r, tk1, reads))"
    using fed_byte [OF b assms(1)] assms(2) [OF poll_byte_cases(2) [OF b assms(1)]] by blast
  then show ?thesis by (simp add: b split: sum.splits option.splits)
qed

lemma fed_refill:
  assumes "tk_cursor tk = length (tk_bytes tk)" and "fed_in_order (tk\<lparr>tk_cursor := 0, tk_bytes := data\<rparr>) reads x"
  shows "fed_in_order tk (Read_Chunk data # reads) x"
  using assms by (auto simp: fed_in_order_def unread_def split: prod.splits)

lemma poll_loop_feeds:
  "tk_cursor tk \<le> length (tk_bytes tk) \<Longrightarrow> fed_in_order tk reads (poll_loop turns clock reads tk)"
proof (induction turns arbitrary: tk reads)
  case 0
  then show ?case by (simp add: fed_nothing reported_def)
next
  case (Suc turns)
  note go = fed_turn [OF _ Suc.IH, of _ _ "clock turns"]
  show ?case
  proof (cases "tk_cursor tk = length (tk_bytes tk)")
    case used: True
    have none: "fed_in_order tk (a # reads') (r, tk\<lparr>tk_bytes := [], tk_cursor := 0\<rparr>, reads')"
      if "chunk_of a = []" "reported r = []" for a reads' r
      using that used by (intro fed_nothing) (simp_all add: unread_def)
    show ?thesis
    proof (cases reads)
      case Nil
      with used show ?thesis by (auto intro!: fed_nothing simp: unread_def reported_def)
    next
      case (Cons a reads')
      show ?thesis
      proof (cases a)
        case (Read_Chunk data)
        show ?thesis
        proof (cases "data = []")
          case True
          with used Cons Read_Chunk none [of a "Inr None" reads'] show ?thesis by (simp add: reported_def)
        next
          case False
          then have "fed_in_order (tk\<lparr>tk_cursor := 0, tk_bytes := data\<rparr>) reads'
              (case poll_byte (clock turns) (tk\<lparr>tk_cursor := 0, tk_bytes := data\<rparr>) of
                 (Inr None, tk) \<Rightarrow> poll_loop turns clock reads' tk | (r, tk) \<Rightarrow> (r, tk, reads'))"
            by (intro go) simp
          from fed_refill [OF used this] used Cons Read_Chunk False show ?thesis by (simp add: Let_def)
        qed
      qed (use used Cons none [of a "Inr None" reads'] none [of a "Inl ReadFailed" reads'] in \<open>simp_all add: reported_def\<close>)
    qed
  next
    case False
    with Suc.prems go [of tk reads] show ?thesis by (simp add: Let_def)
  qed
qed

text \<open>C35: polling loses and repeats nothing: a poll feeds the decoder with the next bytes of the terminal in
  order, reports the first key or error among their results and keeps the rest for the next poll;
  or it refuses a long wait without touching anything, or resolves an expired sequence without
  reading.\<close>

theorem poll_feeds_in_order:
  assumes "tk_cursor tk \<le> length (tk_bytes tk)" and "poll wait now clock reads tk = (r, tk', reads')"
  shows "100 * 1000000 < wait \<and> r = Inl InvalidWait \<and> tk' = tk \<and> reads' = reads
    \<or> finish_pending (tk_decoder tk) = (r, tk_decoder tk') \<and> unread tk' reads' = unread tk reads
    \<or> (\<exists>fed k. unread tk reads = fed @ unread tk' reads'
         \<and> feed fed (tk_decoder tk) = (replicate k (Inr None) @ reported r, tk_decoder tk'))"
proof -
  note L = poll_loop_feeds [OF assms(1), of reads 65536 clock]
  consider (long) "100 * 1000000 < wait" "poll wait now clock reads tk = (Inl InvalidWait, tk, reads)"
    | (expired) d where "finish_pending (tk_decoder tk) = (r, d)"
        "tk' = tk\<lparr>tk_decoder := d, tk_partial_since := None\<rparr>" "reads' = reads"
    | (loop) "poll_loop 65536 clock reads tk = (r, tk', reads')"
    using assms(2) unfolding poll_def by (auto split: if_splits prod.splits)
  then show ?thesis
  proof cases
    case long
    with assms(2) show ?thesis by simp
  next
    case expired
    then show ?thesis by (simp add: unread_def)
  next
    case loop
    from L [unfolded loop fed_in_order_def] show ?thesis by simp
  qed
qed

text \<open>Two chunks that cut a character in two: the first poll returns with the key, the rest waits.\<close>

theorem poll_feeds_in_order_witness:
  "\<exists>tk' reads'. poll 0 0 (\<lambda>_. 0) [Read_Chunk [0xC3], Read_Chunk [0xA9, 0x41]] keys_new
       = (Inr (Some (plain_key 0xE9)), tk', reads')
     \<and> unread tk' reads' = [0x41]"
proof -
  let ?reads = "[Read_Chunk [0xC3], Read_Chunk [0xA9, 0x41]]"
  obtain r tk' reads' where p: "poll 0 0 (\<lambda>_. 0) ?reads keys_new = (r, tk', reads')" by (rule prod_cases3)
  have "case poll 0 0 (\<lambda>_. 0) ?reads keys_new of (r, tk', reads') \<Rightarrow>
      r = Inr (Some (plain_key 0xE9)) \<and> length (unread tk' reads') = 1"
    by code_simp
  with p have r: "r = Inr (Some (plain_key 0xE9))" "length (unread tk' reads') = 1" by simp_all
  have new: "unread keys_new ?reads = [0xC3, 0xA9] @ [0x41]" "tk_cursor keys_new \<le> length (tk_bytes keys_new)"
    "fst (finish_pending (tk_decoder keys_new)) = Inr None"
    by (simp_all add: unread_def keys_new_def decoder_new_def finish_pending_def)
  obtain fed where "[0xC3, 0xA9] @ [0x41] = fed @ unread tk' reads'"
    using poll_feeds_in_order [OF new(2) p] new(1,3) r(1) by auto
  moreover obtain x where "unread tk' reads' = [x]" using r(2) by (auto simp: length_Suc_conv)
  ultimately have "unread tk' reads' = [0x41]" by (metis append1_eq_conv)
  with p r show ?thesis by simp
qed

end
