(* ===== verification/Spec2Isabelle.thy ===== *)
theory Spec2Isabelle
  imports Worker_Supervisor Hub_Progress Hub_Contracts Hub_Publish Hub_Encoding Terminal_Keys
begin

text \<open>
  A verification development for the sketch execution core of \<^verbatim>\<open>kernal-api\<close>: the contained
  WebAssembly worker with its supervisor, the operation hub that mediates all a guest may do, and
  the terminal key decoder.

  \<^bold>\<open>How the parts interact.\<close> The parent (\<^verbatim>\<open>src/src/wasm/worker.rs\<close>) launches a worker process
  (\<^verbatim>\<open>src/src/bin/kernal-wasm-worker.rs\<close>), uploads a module with its policy in bounded frames
  (\<^verbatim>\<open>src/src/wasm/worker_protocol.rs\<close>), supervises it and publishes its staged output. Inside a
  host, guests reach the outside only through the operation hub
  (\<^verbatim>\<open>src/src/wasm/operations.rs\<close> and the \<^verbatim>\<open>process_*.rs\<close> and \<^verbatim>\<open>hash_resource.rs\<close> files beside it): they
  submit operations on resources named by opaque tokens, park, are woken, and collect results.

  \<^bold>\<open>Conventions.\<close> \<open>Prelude\<close> holds the machine integers, little-endian byte strings, UTF-8 validity,
  ordered maps in the shape of \<^verbatim>\<open>BTreeMap\<close>, the state-and-error monad and the interfaces (byte
  codecs, transition systems). Results are sums with the error on the left; lengths are naturals
  with the 64-bit bound written out where the code checks it.

  \<^bold>\<open>Worker transport.\<close> \<open>Worker_Protocol\<close> models every field encoder and decoder, the validation of
  terminal reports, whole frames and the stream reader and writer; decoding and encoding are
  inverse on exactly the accepted frames, streams are read back in order, truncation is noticed.
  \<open>Worker_Child\<close> is the request sequence of the worker and the module assembler, \<open>Sketch_Limits\<close> the
  limits, policies and the execution ledger of \<^verbatim>\<open>src/src/wasm/mod.rs\<close>, \<open>Worker_Config\<close> the metadata
  and its reconstruction, \<open>Worker_Report\<close> the terminal report on both sides, \<open>Worker_Parent\<close> the upload,
  \<open>Worker_Supervisor\<close> the receive phases, the supervision loop with all its containment paths and
  the publication of staged output. This theory composes them: what is uploaded is what runs, and
  the parent returns the terminal of what the engine reports (some errors share a terminal).

  \<^bold>\<open>The hub: data and operations.\<close> \<open>Hub_State\<close> has the records of resources, operations and the state
  under the mutex; \<open>Hub_Core\<close> the functions that run while it is held; \<open>Hub_Blob\<close> the capacity
  reservation and the passes over waiting transfers; \<open>Hub_Transfer\<close> the blob methods; \<open>Hub_Wire\<close>
  suspension, dispatch, web views, clocks and the scalar adapters; \<open>Hub_Process\<close> compiler grants,
  spawning, supervision, waiting and closing; \<open>Hub_Output_Event\<close> compiler output; \<open>Hub_Output\<close> commits
  of blobs to authorised files; \<open>Hub_Encoder\<close> the native encoder and the hasher. Each locked section
  is a definition of its own and a method runs its sections in the order of the code.

  \<^bold>\<open>The hub: invariant and concurrency.\<close> \<open>Hub_Invariant\<close> states the invariant in groups and \<open>Hub_Track\<close>
  how a hub may evolve; \<open>Hub_Sections\<close> and \<open>Hub_Process_Sections\<close> show every section keeps both.
  \<open>Hub_Machine\<close> is the hub as a step relation with one step per locked section, in any order and
  number, with allocation failures and other hubs sharing the token counter; \<open>Hub_Runs\<close> shows that
  the methods are runs of it. So what holds of all reachable states and of all runs holds of every
  interleaving of guests, host and runtime. Evolution comes in a strict sense, in which a blob that
  is being committed keeps its value, and a weak one, which also allows the reads of its commit.

  \<^bold>\<open>The hub: what it guarantees.\<close> \<open>Hub_Safety\<close>: limits, well-typed handles, no lost wakeup, revocation
  is permanent, results are final, rights only shrink, sealed blobs are immutable. \<open>Hub_Stream\<close> and
  \<open>Hub_Progress\<close>: each pass moves bytes in token order, and nothing that could complete is left
  waiting (across passes a small write may overtake one that has no room yet).
  \<open>Hub_Contracts\<close>: stores are isolated, closing is final, a grant spawns once, the account of retained
  memory is exact. \<open>Hub_Commit\<close> and \<open>Hub_Publish\<close>: a commit is all or nothing, and ends, whatever other
  threads do to the hub between its calls. What it relies on is that they leave the value of a blob
  that is being committed alone, and the machine shows that they do. \<open>Hub_Encoding\<close>: the encoder, run
  without calls of others in between, behaves like a file, and a failed encoding is never published.

  \<^bold>\<open>Terminal keys.\<close> \<open>Terminal_Keys\<close> models \<^verbatim>\<open>src/src/keys.rs\<close>: bounds, poisoning, opaque pastes, typed text,
  and polling that feeds every byte once.

  \<^bold>\<open>Fuel and bounds.\<close> The supervision loop takes a list of observations, one per pass. The loop over the
  blob passes is a total function: each further round completes an operation. The copying loop of
  a commit takes a number of rounds, and one more than the blob has bytes is proved enough. Filling
  a hole takes as many pieces as bytes are missing, and each piece writes at least one. The poll
  loop has the 65536 turns of the code.

  \<^bold>\<open>Parameters.\<close> The sketch engine, BLAKE3, the allocator, path canonicalisation, the answers of the
  operating system (spawning, pipes, deadlines, file operations, terminal reads), clock readings and
  what other threads do between the calls of a commit are arguments of the definitions that use them.

  \<^bold>\<open>Not modelled.\<close> A poisoned mutex and panicking callbacks; other programs that change files next to a
  commit's destination; interruptions inside one call of a commit, between the locked sections of a
  read or of the release of a chunk; the Windows encoding of paths; native web
  views in the worker; the compiler, module admission, thread controller, epoch broker and Wasmtime
  imports of \<^verbatim>\<open>mod.rs\<close>; archive inputs and component adapters; the
  live gauges of the supervision ledger and the retry loop of its cleanup thread. Outside the sketch
  core: the platform layers, crash handling, snapshots, profiling, symbolization, archives, HTTP, the
  desktop shell, daemon registration and the data facades, which are for the most part system calls,
  raw memory or calls into third-party crates whose code is not in the repository. Some pure code
  stands among them and could be modelled, but is not yet: the decoding of request targets
  (\<^verbatim>\<open>src/src/http_server/target.rs\<close>), the bounded tar header reader
  (\<^verbatim>\<open>src/src/archive/tar_format.rs\<close>), the rendering and splitting of captures
  (\<^verbatim>\<open>src/src/symbolize\<close>) and the parsing of module admission in \<^verbatim>\<open>mod.rs\<close>. Lints, generators and
  release scripts are not part of the running program.
\<close>

section \<open>A complete exchange between parent and worker\<close>

text \<open>C2: what the parent uploads is what the worker runs: after the greeting and the upload the worker
  holds the request id, the metadata and the module bytes exactly as sent, it has answered with
  its two acknowledgements, and it has read nothing beyond the upload.\<close>

theorem upload_reaches_worker:
  assumes "i \<noteq> 0" and "metadata_valid md" and "put_metadata md = Inr bs"
    and "length source \<le> unat (max_module_bytes md)"
    and "length source \<le> unat WORKER_PROTOCOL_MAX_MODULE_BYTES"
  shows "\<exists>h w a b. pipe_write (Msg_Hello i) [] = (Inr (), h)
     \<and> write_upload pipe_write_all pipe_flush i source md h = (Inr (), h @ w)
     \<and> encode (Msg_HelloAck i) = Inr a \<and> encode (Msg_ExecuteAck i) = Inr b
     \<and> run_with_io pipe_write_all pipe_flush (h @ w @ rest) out
         = (Inr (Some (i, md, source), rest), out @ a @ b)"
proof -
  let ?ms = "Msg_ExecuteStart i (of_nat (length source)) md
     # chunk_messages i 0 (chunks UPLOAD_CHUNK source) @ [Msg_ExecuteEnd i]"
  obtain h a b s where f: "encode (Msg_Hello i) = Inr h" "encode (Msg_HelloAck i) = Inr a"
    "encode (Msg_ExecuteAck i) = Inr b"
    "encode (Msg_ExecuteStart i (of_nat (length source)) md) = Inr s"
    using encode_plain [OF assms(1)] encode_start [OF assms(1,3,2)] by metis
  obtain u where "pipe_write_list (chunk_messages i 0 (chunks UPLOAD_CHUNK source)
      @ [Msg_ExecuteEnd i]) [] = (Inr (), u)"
    using upload_messages_written [OF assms(1)] by blast
  with f have w: "pipe_write_list ?ms [] = (Inr (), s @ u)" by (simp add: pipe_write_list_Cons)
  then have "pipe_write_list ?ms h = (Inr (), h @ s @ u)"
    using pipe_write_list_prefix [of ?ms h] by simp
  moreover have "length source \<le> 2 ^ 32"
    using assms(5) by (simp add: WORKER_PROTOCOL_MAX_MODULE_BYTES_def)
  ultimately have "write_upload pipe_write_all pipe_flush i source md h = (Inr (), h @ s @ u)"
    by (simp add: write_upload_messages)
  with run_with_io_complete [OF assms f(1) w f(2,3), of rest out] f show ?thesis
    by (intro exI [of _ h] exI [of _ "s @ u"] exI [of _ a] exI [of _ b])
      (simp add: pipe_write_encode)
qed

definition sample_metadata :: ExecuteMetadata where
  "sample_metadata = metadata SketchCompilerConfig_default sample_policy 30000000000 7000000"

lemma sample_metadata_ok:
  "metadata_valid sample_metadata" "\<exists>bs. put_metadata sample_metadata = Inr bs"
  "unat (max_module_bytes sample_metadata) = 1000" "webview_url sample_metadata = None"
  by (simp_all add: sample_metadata_def metadata_def Let_def metadata_valid_def url_valid_def
      put_metadata_def put_webview_url_def put_output_path_def sample_policy_def)

theorem upload_reaches_worker_witness:
  "\<exists>h w a b. pipe_write (Msg_Hello 7) [] = (Inr (), h)
     \<and> write_upload pipe_write_all pipe_flush 7 [0, 97, 115, 109] sample_metadata h = (Inr (), h @ w)
     \<and> encode (Msg_HelloAck 7) = Inr a \<and> encode (Msg_ExecuteAck 7) = Inr b
     \<and> run_with_io pipe_write_all pipe_flush (h @ w @ [5]) []
         = (Inr (Some (7, sample_metadata, [0, 97, 115, 109]), [5]), [] @ a @ b)"
proof -
  obtain bs where "put_metadata sample_metadata = Inr bs" using sample_metadata_ok(2) by blast
  then show ?thesis
    by (intro upload_reaches_worker)
      (simp_all add: sample_metadata_ok WORKER_PROTOCOL_MAX_MODULE_BYTES_def)
qed

text \<open>C3: the worker starts an execution only for input that is, byte for byte, a greeting, a start
  message, chunks numbered from zero and an end message of one request, and the module is the
  chunks in that order, of the announced length and within both ceilings.\<close>

theorem module_exactly_as_sent:
  assumes "run_with_io write_all flush inp out = (Inr (Some (i, md, module), rest), out')"
  shows "\<exists>cs w. pipe_write_list (Msg_Hello i # Msg_ExecuteStart i (of_nat (length module)) md
           # chunk_messages i 0 cs @ [Msg_ExecuteEnd i]) [] = (Inr (), w)
         \<and> inp = w @ rest \<and> module = concat cs
         \<and> length module \<le> unat WORKER_PROTOCOL_MAX_MODULE_BYTES
         \<and> length module \<le> unat (max_module_bytes md)"
  using assms by (rule run_with_io_sound)


lemma sample_run:
  "\<exists>inp out. run_with_io pipe_write_all pipe_flush inp []
     = (Inr (Some (7, sample_metadata, [0, 97, 115, 109]), [5]), out)"
proof -
  obtain bs where bs: "put_metadata sample_metadata = Inr bs" using sample_metadata_ok(2) by blast
  obtain h a b s where f: "encode (Msg_Hello 7) = Inr h" "encode (Msg_HelloAck 7) = Inr a"
    "encode (Msg_ExecuteAck 7) = Inr b"
    "encode (Msg_ExecuteStart 7 (of_nat (length [0, 97, 115, 109 :: u8])) sample_metadata) = Inr s"
    using encode_plain [of 7] encode_start [of 7, OF _ bs sample_metadata_ok(1)] by force
  obtain u where "pipe_write_list (chunk_messages 7 0 (chunks UPLOAD_CHUNK [0, 97, 115, 109])
      @ [Msg_ExecuteEnd 7]) [] = (Inr (), u)"
    using upload_messages_written [of 7] by fastforce
  with f have w: "pipe_write_list (Msg_ExecuteStart 7 (of_nat (length [0, 97, 115, 109 :: u8])) sample_metadata
      # chunk_messages 7 0 (chunks UPLOAD_CHUNK [0, 97, 115, 109]) @ [Msg_ExecuteEnd 7]) []
      = (Inr (), s @ u)" by (simp add: pipe_write_list_Cons)
  have "run_with_io pipe_write_all pipe_flush (h @ (s @ u) @ [5]) []
      = (Inr (Some (7, sample_metadata, [0, 97, 115, 109]), [5]), [] @ a @ b)"
    by (rule run_with_io_complete [OF _ sample_metadata_ok(1) bs _ _ f(1) w f(2,3)])
      (simp_all add: sample_metadata_ok WORKER_PROTOCOL_MAX_MODULE_BYTES_def)
  then show ?thesis by blast
qed

theorem module_exactly_as_sent_witness:
  "\<exists>inp out. run_with_io pipe_write_all pipe_flush inp []
      = (Inr (Some (7, sample_metadata, [0, 97, 115, 109]), [5]), out)
   \<and> (\<exists>cs w. pipe_write_list (Msg_Hello 7
           # Msg_ExecuteStart 7 (of_nat (length [0, 97, 115, 109 :: u8])) sample_metadata
           # chunk_messages 7 0 cs @ [Msg_ExecuteEnd 7]) [] = (Inr (), w)
         \<and> inp = w @ [5] \<and> [0, 97, 115, 109] = concat cs
         \<and> length [0, 97, 115, 109 :: u8] \<le> unat WORKER_PROTOCOL_MAX_MODULE_BYTES
         \<and> length [0, 97, 115, 109 :: u8] \<le> unat (max_module_bytes sample_metadata))"
proof -
  obtain inp out where r: "run_with_io pipe_write_all pipe_flush inp []
      = (Inr (Some (7, sample_metadata, [0, 97, 115, 109]), [5]), out)"
    using sample_run by blast
  from r module_exactly_as_sent [OF r] show ?thesis by blast
qed

text \<open>The parent's phase once the greeting is acknowledged and the upload is queued.\<close>

definition phase_uploading :: "u64 \<Rightarrow> ParentReceivePhase" where
  "phase_uploading i = phase_upload_queued (snd (receive (Msg_HelloAck i) (phase_new i)))"

text \<open>C1: take an execution without a web view whose engine starts, compiles and admits the module,
  whose result is reportable and whose final counters are all zero.  The worker's output is then
  exactly two acknowledgements and a terminal message, the parent forwards exactly these, its
  phase machine accepts the terminal whether it sees the second acknowledgement before or after
  its own upload completes, and what it reads is the terminal of the engine's result.  A root
  outcome, a cancellation, a missed deadline, exhausted fuel, a trap and an exit code of the root
  thread are each read as themselves and as nothing else; a child's trap or panic and a list of
  child outcomes are all read as one child failure, every other error as one reported failure.\<close>

theorem exchange_delivers_outcome:
  assumes "i \<noteq> 0" and "webview_url md = None" and "reconstruct md = Inr (config, policy)"
    and "engine_runtime eng = None" and "engine_compiler eng config = None"
    and "engine_admit eng module policy = None"
    and "engine_execute eng module = result" and "engine_counters eng = zero_counters"
    and "reportable result"
    and "encode (Msg_HelloAck i) = Inr a" and "encode (Msg_ExecuteAck i) = Inr b"
  shows "\<exists>out m.
     execute_request pipe_write_all pipe_flush eng i md module (a @ b) = (Inr (), out)
     \<and> forward_worker_responses 4 out = [Inr (Msg_HelloAck i), Inr (Msg_ExecuteAck i), Inr m]
     \<and> map_terminal m i = Inr (reported_terminal result)
     \<and> (told_exactly result \<longrightarrow> {r. map_terminal m i = Inr (reported_terminal r)} = {result})
     \<and> fst (replay_reads [Inr (Msg_ExecuteAck i), Inr m]
              (snd (phase_upload True (phase_uploading i)))) = Some m
     \<and> fst (replay_reads [Inr m] (snd (phase_upload True
              (snd (receive (Msg_ExecuteAck i) (phase_uploading i)))))) = Some m"
proof -
  obtain kind detail diagnostic where r: "map_result result = (kind, detail, diagnostic)"
    by (cases "map_result result")
  note ok = map_result_ok [OF assms(9) r]
  let ?m = "Msg_Terminal i kind detail diagnostic zero_counters"
  obtain f where f: "encode ?m = Inr f" using encode_terminal [OF assms(1)] ok by blast
  have out: "execute_request pipe_write_all pipe_flush eng i md module (a @ b)
      = (Inr (), a @ b @ f)"
    using ok r by (simp add: execute_request_def assms(2-8) pipe_report_eq s_map_err_def
        pipe_write_encode [OF f])
  have "read_message (a @ b @ f) = Inr (Msg_HelloAck i, b @ f)"
    "read_message (b @ f) = Inr (Msg_ExecuteAck i, f)" "read_message f = Inr (?m, [])"
    using assms(10,11) ok read_message_encode [OF _ f, of "[]"] by (auto intro: read_message_encode)
  then have "forward_worker_responses 4 (a @ b @ f)
      = [Inr (Msg_HelloAck i), Inr (Msg_ExecuteAck i), Inr ?m]"
    by (simp add: forward_worker_responses_def numeral_eq_Suc read_response_def)
  with out ok told_exactly_unique [of result] show ?thesis
    by (intro exI [of _ "a @ b @ f"] exI [of _ ?m])
      (simp add: map_terminal_def phase_uploading_def receive_def phase_new_def
        phase_upload_queued_def phase_upload_def)
qed


definition sample_engine :: engine where
  "sample_engine = \<lparr>engine_runtime = None, engine_compiler = (\<lambda>_. None),
     engine_admit = (\<lambda>_ _. None), engine_execute = (\<lambda>_. Inl (NonzeroExit 3)),
     engine_counters = zero_counters\<rparr>"

theorem exchange_delivers_outcome_witness:
  "\<exists>a b out m. encode (Msg_HelloAck 7) = Inr a \<and> encode (Msg_ExecuteAck 7) = Inr b
     \<and> execute_request pipe_write_all pipe_flush sample_engine 7 sample_metadata [0] (a @ b) = (Inr (), out)
     \<and> forward_worker_responses 4 out = [Inr (Msg_HelloAck 7), Inr (Msg_ExecuteAck 7), Inr m]
     \<and> map_terminal m 7 = Inr (WT_Execution (NonzeroExit 3))
     \<and> {r. map_terminal m 7 = Inr (reported_terminal r)} = {Inl (NonzeroExit 3)}"
proof -
  obtain a b where ab: "encode (Msg_HelloAck 7) = Inr a" "encode (Msg_ExecuteAck 7) = Inr b"
    using encode_plain [of 7] by force
  have rebuilt: "reconstruct sample_metadata
      = Inr (worker_config SketchCompilerConfig_default 30000000000 7000000, worker_policy sample_policy)"
    unfolding sample_metadata_def
    by (rule metadata_reconstructs [OF default_config_ok sample_policy_ok])
      (simp_all add: SketchCompilerConfig_default_def SketchExecutionLimits_default_def
        SketchEpochLimits_default_def as_millis_def remaining_millis_def)
  have "reportable (Inl (NonzeroExit 3))" by (simp add: NO_STATUS_CODE_def)
  from exchange_delivers_outcome [OF _ sample_metadata_ok(4) rebuilt _ _ _ _ _ this ab, of sample_engine "[0]"]
  show ?thesis using ab by (auto simp: sample_engine_def)
qed

end
